theory Spec2Isabelle
  imports Main "HOL-Library.Log_Nat" "HOL-Library.AList"
begin

section \<open>Errors and strings\<close>

text \<open>
  Go errors are values. \<open>Errorf m\<close> is an error created by \<^verbatim>\<open>fmt.Errorf\<close> with the
  finished message \<open>m\<close>; \<open>Wrapf p e\<close> is \<^verbatim>\<open>fmt.Errorf(p + ": %w", e)\<close>, which keeps
  the underlying error \<open>e\<close> reachable; \<open>External m\<close> is an error handed over by a
  library (the HTTP transport, the JSON decoder, the operating system).
\<close>

datatype error = External string | Errorf string | Wrapf string error

fun Error :: "error \<Rightarrow> string" where
  "Error (External m) = m"
| "Error (Errorf m) = m"
| "Error (Wrapf p e) = p @ '': '' @ Error e"


text \<open>
  A Go string is a sequence of bytes, here a \<open>char list\<close>; \<^verbatim>\<open>len\<close> counts bytes.
\<close>

definition is_ascii :: "char \<Rightarrow> bool" where
  "is_ascii c = (of_char c < (128::nat))"

definition lower_char :: "char \<Rightarrow> char" where
  "lower_char c =
     (if of_char c \<ge> (65::nat) \<and> of_char c \<le> (90::nat) then char_of (of_char c + (32::nat)) else c)"

definition upper_char :: "char \<Rightarrow> char" where
  "upper_char c =
     (if of_char c \<ge> (97::nat) \<and> of_char c \<le> (122::nat) then char_of (of_char c - (32::nat)) else c)"

text \<open>
  \<^verbatim>\<open>strings.ToUpper\<close>, which only \<^verbatim>\<open>ParseSize\<close> calls, is modelled on the ASCII letters;
  every other byte is left as it is.
\<close>

definition ToUpper :: "string \<Rightarrow> string" where
  "ToUpper s = map upper_char s"

subsection \<open>UTF-8 and \<^verbatim>\<open>strings.ToLower\<close>\<close>

text \<open>
  \<^verbatim>\<open>strings.ToLower\<close> works on the runes of the string. A rune is a natural number.
  \<^verbatim>\<open>utf8.DecodeRuneInString\<close> returns the first rune of a string and the number of bytes
  that encode it; a byte that does not start a shortest-form encoding of a rune is the
  rune \<^verbatim>\<open>RuneError\<close> of width one. The bit masks of the Go code are written with \<open>mod\<close>:
  \<^verbatim>\<open>s0 & 0x1F\<close> is \<open>s0 mod 32\<close>, and the fields joined by \<^verbatim>\<open>|\<close> do not overlap.
  \<open>lead_size\<close>, \<open>accept_lo\<close> and \<open>accept_hi\<close> are the tables \<^verbatim>\<open>first\<close> and
  \<^verbatim>\<open>acceptRanges\<close> of package \<^verbatim>\<open>utf8\<close>.
\<close>

definition RuneError :: nat where
  "RuneError = 0xFFFD"

definition lead_size :: "nat \<Rightarrow> nat" where
  "lead_size x =
     (if 0xC2 \<le> x \<and> x \<le> 0xDF then 2
      else if 0xE0 \<le> x \<and> x \<le> 0xEF then 3
      else if 0xF0 \<le> x \<and> x \<le> 0xF4 then 4
      else 1)"

definition accept_lo :: "nat \<Rightarrow> nat" where
  "accept_lo x = (if x = 0xE0 then 0xA0 else if x = 0xF0 then 0x90 else 0x80)"

definition accept_hi :: "nat \<Rightarrow> nat" where
  "accept_hi x = (if x = 0xED then 0x9F else if x = 0xF4 then 0x8F else 0xBF)"

definition DecodeRune :: "string \<Rightarrow> nat \<times> nat" where
  "DecodeRune s =
     (case s of
        [] \<Rightarrow> (RuneError, 0)
      | s0 # _ \<Rightarrow>
          let x = of_char s0; sz = lead_size x in
          if x < 0x80 then (x, 1)
          else if sz = 1 then (RuneError, 1)
          else if length s < sz then (RuneError, 1)
          else
            let s1 = of_char (s ! 1) in
            if s1 < accept_lo x \<or> accept_hi x < s1 then (RuneError, 1)
            else if sz \<le> 2 then ((x mod 32) * 64 + s1 mod 64, 2)
            else
              let s2 = of_char (s ! 2) in
              if s2 < 0x80 \<or> 0xBF < s2 then (RuneError, 1)
              else if sz \<le> 3 then ((x mod 16) * 4096 + (s1 mod 64) * 64 + s2 mod 64, 3)
              else
                let s3 = of_char (s ! 3) in
                if s3 < 0x80 \<or> 0xBF < s3 then (RuneError, 1)
                else ((x mod 8) * 262144 + (s1 mod 64) * 4096 + (s2 mod 64) * 64 + s3 mod 64, 4))"

definition EncodeRune :: "nat \<Rightarrow> string" where
  "EncodeRune r =
     (if r \<le> 0x7F then [char_of r]
      else if r \<le> 0x7FF then [char_of (0xC0 + r div 64), char_of (0x80 + r mod 64)]
      else if r > 0x10FFFF \<or> (0xD800 \<le> r \<and> r \<le> 0xDFFF) then [CHR 0xEF, CHR 0xBF, CHR 0xBD]
      else if r \<le> 0xFFFF
      then [char_of (0xE0 + r div 4096), char_of (0x80 + (r div 64) mod 64), char_of (0x80 + r mod 64)]
      else [char_of (0xF0 + r div 262144), char_of (0x80 + (r div 4096) mod 64),
            char_of (0x80 + (r div 64) mod 64), char_of (0x80 + r mod 64)])"

text \<open>The runes that \<^verbatim>\<open>for _, c := range s\<close> yields.\<close>

function runes :: "string \<Rightarrow> nat list" where
  "runes s = (if s = [] then [] else fst (DecodeRune s) # runes (drop (snd (DecodeRune s)) s))"
  by pat_completeness auto
termination
  by (relation "measure length") (auto simp: DecodeRune_def Let_def split: list.splits)

declare runes.simps [simp del]

text \<open>
  \<^verbatim>\<open>strings.Map(mapping, s)\<close> for a mapping that returns no negative rune: every rune of
  \<open>s\<close> is replaced by the encoding of its image (a byte that is not valid UTF-8 counts as
  \<^verbatim>\<open>RuneError\<close> and is written as the three bytes of U+FFFD).

  \<^verbatim>\<open>unicode.ToLower\<close> maps the ASCII letters itself and looks every rune above U+007F up
  in the table \<^verbatim>\<open>unicode.CaseRanges\<close>, which is the parameter \<open>tbl\<close> here.
  \<^verbatim>\<open>strings.ToLower\<close> maps a string of ASCII bytes byte by byte and hands every other
  string to \<^verbatim>\<open>strings.Map\<close>.
\<close>

definition Map_str :: "(nat \<Rightarrow> nat) \<Rightarrow> string \<Rightarrow> string" where
  "Map_str mapping s = concat (map (\<lambda>c. EncodeRune (mapping c)) (runes s))"

definition unicode_ToLower :: "(nat \<Rightarrow> nat) \<Rightarrow> nat \<Rightarrow> nat" where
  "unicode_ToLower tbl r =
     (if r \<le> 0x7F then (if 65 \<le> r \<and> r \<le> 90 then r + 32 else r) else tbl r)"

definition ToLower :: "(nat \<Rightarrow> nat) \<Rightarrow> string \<Rightarrow> string" where
  "ToLower tbl s =
     (if list_all is_ascii s then map lower_char s else Map_str (unicode_ToLower tbl) s)"

text \<open>
  What is used of \<^verbatim>\<open>unicode.CaseRanges\<close>: the lower-case form of U+0130 (capital I with
  dot above) is \<open>i\<close>, that of U+212A (the Kelvin sign) is \<open>k\<close>, and no other rune above
  U+007F has a lower-case form in ASCII.
\<close>

definition lower_table_ok :: "(nat \<Rightarrow> nat) \<Rightarrow> bool" where
  "lower_table_ok tbl =
     (tbl 0x130 = 0x69 \<and> tbl 0x212A = 0x6B
      \<and> (\<forall>r. 0x7F < r \<and> r \<noteq> 0x130 \<and> r \<noteq> 0x212A \<longrightarrow> 0x7F < tbl r))"

text \<open>\<^verbatim>\<open>strings.TrimSuffix(s, suffix)\<close>: one occurrence of the suffix is removed.\<close>

definition TrimSuffix :: "string \<Rightarrow> string \<Rightarrow> string" where
  "TrimSuffix s suffix =
     (if length suffix \<le> length s \<and> drop (length s - length suffix) s = suffix
      then take (length s - length suffix) s else s)"

subsection \<open>\<^verbatim>\<open>strings.Repeat\<close> and string concatenation\<close>

text \<open>
  A Go \<^verbatim>\<open>int\<close> has 64 bits. \<open>limit\<close> is the greatest number of bytes the runtime hands
  out in one allocation: never more than \<^verbatim>\<open>maxAlloc\<close>, which is \<open>2 ^ 48\<close> on linux/amd64,
  and less when memory is short. \<^verbatim>\<open>strings.Repeat(s, count)\<close> panics on a negative count
  and on a result longer than \<^verbatim>\<open>maxInt\<close>; its buffer is allocated in one piece, which
  panics (\<^verbatim>\<open>makeslice: len out of range\<close>) or ends the process (out of memory) above the
  limit. \<open>None\<close> stands for a call that does not return.
\<close>

definition maxInt :: int where
  "maxInt = 2 ^ 63 - 1"

definition Repeat :: "int \<Rightarrow> string \<Rightarrow> int \<Rightarrow> string option" where
  "Repeat limit s count =
     (if count = 0 then Some []
      else if count = 1 then Some s
      else if count < 0 then None
      else if int (length s) * count > maxInt then None
      else if length s = 0 then Some []
      else if int (length s) * count > limit then None
      else Some (concat (replicate (nat count) s)))"

definition concatstrings :: "int \<Rightarrow> string \<Rightarrow> string \<Rightarrow> string option" where
  "concatstrings limit a b =
     (if a = [] then Some b
      else if b = [] then Some a
      else if int (length a) + int (length b) > limit then None
      else Some (a @ b))"


section \<open>pkg/formatter/helpers.go: padding\<close>

text \<open>
  \<^verbatim>\<open>s + pad\<close> is \<^verbatim>\<open>concatstrings\<close> of the runtime (above); the length of \<open>s\<close> is an
  \<^verbatim>\<open>int\<close>.
\<close>

definition PadRight :: "int \<Rightarrow> string \<Rightarrow> int \<Rightarrow> string option" where
  "PadRight limit s len =
     (if int (length s) \<ge> len then Some s
      else (case Repeat limit '' '' (len - int (length s)) of
              None \<Rightarrow> None
            | Some p \<Rightarrow> concatstrings limit s p))"

definition PadLeft :: "int \<Rightarrow> string \<Rightarrow> int \<Rightarrow> string option" where
  "PadLeft limit s len =
     (if int (length s) \<ge> len then Some s
      else (case Repeat limit '' '' (len - int (length s)) of
              None \<Rightarrow> None
            | Some p \<Rightarrow> concatstrings limit p s))"


section \<open>pkg/config/config.go: contexts\<close>

record Auth =
  Type :: string
  Token :: string
  Path :: string
  AuthContext :: string

record Context =
  Name :: string
  Endpoint :: string
  Namespace :: string
  Auth :: Auth

record Defaults =
  OutputFormat :: string
  Confirmation :: bool
  Timeout :: string

record Config =
  Contexts :: "Context list"
  CurrentContext :: string
  Defaults :: Defaults

text \<open>The \<^verbatim>\<open>for _, ctx := range c.Contexts\<close> loop of \<^verbatim>\<open>GetContext\<close>.\<close>

fun range_Contexts :: "Context list \<Rightarrow> string \<Rightarrow> Context option" where
  "range_Contexts [] name = None"
| "range_Contexts (ctx # rest) name =
     (if Name ctx = name then Some ctx else range_Contexts rest name)"

text \<open>
  \<^verbatim>\<open>GetContext\<close> has a pointer receiver; the model returns the configuration as it is
  after the call together with the result.
\<close>

definition GetContext :: "Config \<Rightarrow> string \<Rightarrow> Config \<times> (error + Context)" where
  "GetContext c name0 =
     (let name = (if name0 = [] then CurrentContext c else name0) in
      case range_Contexts (Contexts c) name of
        Some ctx \<Rightarrow> (c, Inr ctx)
      | None \<Rightarrow> (c, Inl (Errorf (''context '' @ name @ '' not found''))))"


section \<open>pkg/formatter/formatter.go: choosing a formatter\<close>

text \<open>
  \<open>tbl\<close> is the lower-case table of package \<^verbatim>\<open>unicode\<close> that \<open>ToLower\<close> consults.
  The three formatters, with the fields their constructors set (the writer is always
  \<^verbatim>\<open>os.Stdout\<close>): \<^verbatim>\<open>NewJSONFormatter(pretty)\<close>, \<^verbatim>\<open>NewYAMLFormatter()\<close>,
  \<^verbatim>\<open>NewTableFormatter(headers)\<close>.
\<close>

datatype Formatter = JSONFormatter bool | YAMLFormatter | TableFormatter "string list"

definition FormatTable :: string where "FormatTable = ''table''"
definition FormatJSON :: string where "FormatJSON = ''json''"
definition FormatYAML :: string where "FormatYAML = ''yaml''"
definition FormatWide :: string where "FormatWide = ''wide''"

definition GetFormatter :: "(nat \<Rightarrow> nat) \<Rightarrow> string \<Rightarrow> error + Formatter" where
  "GetFormatter tbl format =
     (let f = ToLower tbl format in
      if f = FormatJSON then Inr (JSONFormatter True)
      else if f = FormatYAML then Inr YAMLFormatter
      else if f = FormatTable then Inl (Errorf ''table formatter requires headers to be specified'')
      else Inl (Errorf (''unsupported format: '' @ format)))"

definition GetFormatterWithHeaders ::
  "(nat \<Rightarrow> nat) \<Rightarrow> string \<Rightarrow> string list \<Rightarrow> error + Formatter" where
  "GetFormatterWithHeaders tbl format headers =
     (let f = ToLower tbl format in
      if f = FormatJSON then Inr (JSONFormatter True)
      else if f = FormatYAML then Inr YAMLFormatter
      else if f = FormatTable \<or> f = FormatWide then Inr (TableFormatter headers)
      else Inl (Errorf (''unsupported format: '' @ format)))"

text \<open>
  Equality of two strings up to the case of their ASCII letters, written from the words
  of the specification ("case-insensitively equal"), independently of \<open>ToLower\<close>: the
  strings have the same length and agree byte by byte, where a letter agrees with
  itself in either case.
\<close>

definition same_letter :: "char \<Rightarrow> char \<Rightarrow> bool" where
  "same_letter a b =
     (a = b
      \<or> ((65::nat) \<le> of_char a \<and> of_char a \<le> (90::nat) \<and> of_char b = of_char a + (32::nat))
      \<or> ((65::nat) \<le> of_char b \<and> of_char b \<le> (90::nat) \<and> of_char a = of_char b + (32::nat)))"

fun case_insensitively_equal :: "string \<Rightarrow> string \<Rightarrow> bool" where
  "case_insensitively_equal [] [] = True"
| "case_insensitively_equal (a # as) (b # bs) = (same_letter a b \<and> case_insensitively_equal as bs)"
| "case_insensitively_equal _ _ = False"

text \<open>
  The word \<open>wide\<close> written with U+0130 (capital I with dot above, the bytes \<open>C4 B0\<close> in
  UTF-8) for its second letter, the three other letters in either case.
\<close>

definition dotted_wide :: "string \<Rightarrow> bool" where
  "dotted_wide s =
     (case s of
        w # a # b # rest \<Rightarrow>
          same_letter w CHR ''w'' \<and> a = CHR 0xC4 \<and> b = CHR 0xB0
          \<and> case_insensitively_equal rest ''de''
      | _ \<Rightarrow> False)"


section \<open>Decimal numerals (\<^verbatim>\<open>%d\<close>)\<close>

definition digit_char :: "nat \<Rightarrow> char" where
  "digit_char d = char_of (48 + d)"

fun show_nat :: "nat \<Rightarrow> string" where
  "show_nat n = (if n < 10 then [digit_char n] else show_nat (n div 10) @ [digit_char (n mod 10)])"

declare show_nat.simps [simp del]

definition show_int :: "int \<Rightarrow> string" where
  "show_int i = (if i < 0 then ''-'' @ show_nat (nat (- i)) else show_nat (nat i))"


section \<open>pkg/client/types.go: the data-transfer structs the node client uses\<close>

text \<open>
  A Go map is an association list (one entry per key), a slice is a list; a nil slice
  and an empty slice are both \<open>[]\<close>. A pointer field that may be nil is an option.
\<close>

record Status =
  Type :: string
  Status :: string
  LastProbeTime :: string
  LastTransitionTime :: string
  Reason :: string
  Message :: string

record Disk =
  Path :: string
  AllowScheduling :: bool
  EvictionRequested :: bool
  StorageMaximum :: int
  StorageAvailable :: int
  StorageReserved :: int
  StorageScheduled :: int
  DiskUUID :: string
  DiskType :: string
  Conditions :: "(string \<times> Status) list"
  ScheduledReplica :: "(string \<times> int) list"
  Tags :: "string list"

record Node =
  Name :: string
  Namespace :: string
  Address :: string
  AllowScheduling :: bool
  EvictionRequested :: bool
  Conditions :: "(string \<times> Status) list"
  Disks :: "(string \<times> Disk) list"
  Region :: string
  Zone :: string
  Tags :: "string list"
  EngineManagerCPURequest :: int
  ReplicaManagerCPURequest :: int

record DiskUpdate =
  Path :: string
  AllowScheduling :: "bool option"
  EvictionRequested :: "bool option"
  StorageReserved :: int
  Tags :: "string list"

record NodeUpdate =
  AllowScheduling :: "bool option"
  EvictionRequested :: "bool option"
  Tags :: "string list"
  Disks :: "(string \<times> DiskUpdate) list"

record Setting =
  Name :: string
  Value :: string
  Default :: string

record EngineImage =
  Name :: string
  Image :: string
  Default :: bool
  State :: string

text \<open>The zero values \<^verbatim>\<open>NodeUpdate{}\<close> and \<^verbatim>\<open>DiskUpdate{}\<close>.\<close>

definition NodeUpdate_zero :: NodeUpdate where
  "NodeUpdate_zero =
     \<lparr>NodeUpdate.AllowScheduling = None, NodeUpdate.EvictionRequested = None,
      NodeUpdate.Tags = [], NodeUpdate.Disks = []\<rparr>"

definition DiskUpdate_zero :: DiskUpdate where
  "DiskUpdate_zero =
     \<lparr>DiskUpdate.Path = [], DiskUpdate.AllowScheduling = None,
      DiskUpdate.EvictionRequested = None, DiskUpdate.StorageReserved = 0,
      DiskUpdate.Tags = []\<rparr>"


section \<open>pkg/client/client.go: the HTTP client\<close>

record ClientConfig =
  Endpoint :: string
  Namespace :: string
  Token :: string
  Timeout :: int
  Insecure :: bool

text \<open>
  \<^verbatim>\<open>http.Client\<close>: its \<^verbatim>\<open>Timeout\<close> (a \<^verbatim>\<open>time.Duration\<close>, in nanoseconds) and whether
  its transport skips TLS verification.
\<close>

record http_Client =
  Timeout :: int
  InsecureSkipVerify :: bool

text \<open>
  \<open>crdClient\<close> is \<open>True\<close> when the Go field is not nil. There are two constructors:
  \<^verbatim>\<open>NewClient\<close> sets \<^verbatim>\<open>httpClient\<close> and leaves \<^verbatim>\<open>crdClient\<close> nil;
  \<^verbatim>\<open>NewLonghornCRDClient\<close> sets \<^verbatim>\<open>crdClient\<close> and leaves \<^verbatim>\<open>httpClient\<close> nil. So for a
  client with \<open>crdClient\<close> the Go field \<^verbatim>\<open>httpClient\<close> is nil, and the field of the record
  has no meaning.
\<close>

record Client =
  config :: ClientConfig
  httpClient :: http_Client
  baseURL :: string
  crdClient :: bool

definition NewClient :: "ClientConfig \<Rightarrow> error + Client" where
  "NewClient cfg =
     (if ClientConfig.Endpoint cfg = [] then Inl (Errorf ''endpoint is required'')
      else
        let cfg' = cfg\<lparr>ClientConfig.Endpoint := TrimSuffix (ClientConfig.Endpoint cfg) ''/''\<rparr> in
        Inr \<lparr>config = cfg',
             httpClient = \<lparr>http_Client.Timeout = ClientConfig.Timeout cfg',
                           InsecureSkipVerify = Insecure cfg'\<rparr>,
             baseURL = ClientConfig.Endpoint cfg' @ ''/v1'',
             crdClient = False\<rparr>)"

text \<open>
  The body handed to \<^verbatim>\<open>doRequest\<close> is a \<^verbatim>\<open>*NodeUpdate\<close> or a map literal; the request
  carries \<^verbatim>\<open>json.Marshal\<close> of it.
\<close>

datatype json = JBool bool | JInt int | JString string | JStrings "string list"
  | JObject "(string \<times> json) list"

datatype payload = PNodeUpdate NodeUpdate | PMap "(string \<times> json) list"

record Request =
  Method :: string
  URL :: string
  Header :: "(string \<times> string) list"
  Body :: "payload option"

record Response =
  StatusCode :: int
  RespBody :: string

text \<open>
  One entry of the trace: a call of \<^verbatim>\<open>Do\<close>, that is the \<^verbatim>\<open>http.Client\<close> whose \<^verbatim>\<open>Do\<close> was
  called and the request it was given.
\<close>

type_synonym sent = "http_Client \<times> Request"

text \<open>
  What lies outside the repository: \<^verbatim>\<open>json.Marshal\<close> (only whether it fails),
  \<^verbatim>\<open>http.NewRequest\<close> (only whether it rejects the method and URL), \<^verbatim>\<open>http.Client.Do\<close>
  (the server and the network, which may answer differently as the trace grows) and
  the JSON decoders of the response bodies.

  \<^verbatim>\<open>NewClient\<close> sets no \<^verbatim>\<open>CheckRedirect\<close>, so \<^verbatim>\<open>http.Client.Do\<close> follows redirects with
  the default policy of package \<^verbatim>\<open>net/http\<close> (it gives up after ten). \<open>Redirects env tr hc req\<close>
  are the further requests this call of \<^verbatim>\<open>Do\<close> issued after \<open>req\<close>, each to the URL the
  server named; \<open>Do env tr hc req\<close> is what the call returned in the end.
\<close>

record Env =
  Marshal :: "payload \<Rightarrow> error option"
  NewRequest :: "string \<Rightarrow> string \<Rightarrow> error option"
  Do :: "sent list \<Rightarrow> http_Client \<Rightarrow> Request \<Rightarrow> error + Response"
  Redirects :: "sent list \<Rightarrow> http_Client \<Rightarrow> Request \<Rightarrow> Request list"
  DecodeNode :: "string \<Rightarrow> error + Node"
  DecodeNodes :: "string \<Rightarrow> error + Node list"
  DecodeSetting :: "string \<Rightarrow> error + Setting"
  DecodeSettings :: "string \<Rightarrow> error + Setting list"
  DecodeEngineImage :: "string \<Rightarrow> error + EngineImage"
  DecodeEngineImages :: "string \<Rightarrow> error + EngineImage list"

text \<open>
  The request \<^verbatim>\<open>doRequest\<close> builds: \<^verbatim>\<open>http.NewRequest(method, c.baseURL + path, body)\<close>
  with the two fixed headers, the bearer token when one is configured, and the
  namespace header when a namespace is configured.
\<close>

definition built_request :: "Client \<Rightarrow> string \<Rightarrow> string \<Rightarrow> payload option \<Rightarrow> Request" where
  "built_request c method path body =
     \<lparr>Method = method, URL = baseURL c @ path,
      Header = [(''Content-Type'', ''application/json''), (''Accept'', ''application/json'')]
        @ (if ClientConfig.Token (config c) \<noteq> []
           then [(''Authorization'', ''Bearer '' @ ClientConfig.Token (config c))] else [])
        @ (if ClientConfig.Namespace (config c) \<noteq> []
           then [(''X-Namespace'', ClientConfig.Namespace (config c))] else []),
      Body = body\<rparr>"

text \<open>
  \<^verbatim>\<open>doRequest\<close>, threading the trace, for a client whose \<^verbatim>\<open>httpClient\<close> is set. Debug
  logging (\<^verbatim>\<open>LHCLI_DEBUG\<close>) is off.
\<close>

definition doRequest ::
  "Env \<Rightarrow> Client \<Rightarrow> string \<Rightarrow> string \<Rightarrow> payload option \<Rightarrow> sent list
     \<Rightarrow> (error + Response) \<times> sent list" where
  "doRequest env c method path body tr =
     (case (case body of None \<Rightarrow> None | Some b \<Rightarrow> Marshal env b) of
        Some e \<Rightarrow> (Inl (Wrapf ''failed to marshal request body'' e), tr)
      | None \<Rightarrow>
          (case NewRequest env method (baseURL c @ path) of
             Some e \<Rightarrow> (Inl (Wrapf ''failed to create request'' e), tr)
           | None \<Rightarrow>
               let req = built_request c method path body in
               (case Do env tr (httpClient c) req of
                  Inl e \<Rightarrow> (Inl (Wrapf ''request failed'' e), tr @ [(httpClient c, req)])
                | Inr resp \<Rightarrow> (Inr resp, tr @ [(httpClient c, req)]))))"

text \<open>
  \<^verbatim>\<open>doRequest\<close> on a client whose \<^verbatim>\<open>httpClient\<close> is nil: an error met while the request is
  built is returned as usual; the call \<^verbatim>\<open>c.httpClient.Do(req)\<close> dereferences the nil pointer
  and panics (\<open>None\<close>).
\<close>

definition doRequest_nil ::
  "Env \<Rightarrow> Client \<Rightarrow> string \<Rightarrow> string \<Rightarrow> payload option \<Rightarrow> error option" where
  "doRequest_nil env c method path body =
     (case (case body of None \<Rightarrow> None | Some b \<Rightarrow> Marshal env b) of
        Some e \<Rightarrow> Some (Wrapf ''failed to marshal request body'' e)
      | None \<Rightarrow>
          (case NewRequest env method (baseURL c @ path) of
             Some e \<Rightarrow> Some (Wrapf ''failed to create request'' e)
           | None \<Rightarrow> None))"

text \<open>
  The HTTP requests a trace stands for: every call of \<^verbatim>\<open>Do\<close> issues the request it was
  given and then the requests that follow the server's redirects.
\<close>

fun wire_from :: "Env \<Rightarrow> sent list \<Rightarrow> sent list \<Rightarrow> sent list" where
  "wire_from env before [] = []"
| "wire_from env before (s # rest) =
     s # map (Pair (fst s)) (Redirects env before (fst s) (snd s))
       @ wire_from env (before @ [s]) rest"

definition wire :: "Env \<Rightarrow> sent list \<Rightarrow> sent list" where
  "wire env tr = wire_from env [] tr"


section \<open>pkg/client/node.go: the node client\<close>

text \<open>
  Every operation takes the trace of the requests sent so far and returns the trace
  after it. \<^verbatim>\<open>Nodes()\<close> hands out this client when \<open>crdClient c\<close> is \<open>False\<close>.
\<close>

definition nodeClient_List :: "Env \<Rightarrow> Client \<Rightarrow> sent list \<Rightarrow> (error + Node list) \<times> sent list" where
  "nodeClient_List env c tr =
     (case doRequest env c ''GET'' ''/nodes'' None tr of
        (Inl e, tr1) \<Rightarrow> (Inl (Wrapf ''failed to list nodes'' e), tr1)
      | (Inr resp, tr1) \<Rightarrow>
          if StatusCode resp \<noteq> 200
          then (Inl (Errorf (''unexpected status code: '' @ show_int (StatusCode resp))), tr1)
          else (case DecodeNodes env (RespBody resp) of
                  Inl e \<Rightarrow> (Inl (Wrapf ''failed to decode response'' e), tr1)
                | Inr items \<Rightarrow> (Inr items, tr1)))"

definition nodeClient_Get :: "Env \<Rightarrow> Client \<Rightarrow> string \<Rightarrow> sent list \<Rightarrow> (error + Node) \<times> sent list" where
  "nodeClient_Get env c name tr =
     (case doRequest env c ''GET'' (''/nodes/'' @ name) None tr of
        (Inl e, tr1) \<Rightarrow> (Inl (Wrapf (''failed to get node '' @ name) e), tr1)
      | (Inr resp, tr1) \<Rightarrow>
          if StatusCode resp = 404 then (Inl (Errorf (''node '' @ name @ '' not found'')), tr1)
          else if StatusCode resp \<noteq> 200
          then (Inl (Errorf (''unexpected status code: '' @ show_int (StatusCode resp))), tr1)
          else (case DecodeNode env (RespBody resp) of
                  Inl e \<Rightarrow> (Inl (Wrapf ''failed to decode response'' e), tr1)
                | Inr node \<Rightarrow> (Inr node, tr1)))"

definition nodeClient_Update ::
  "Env \<Rightarrow> Client \<Rightarrow> string \<Rightarrow> NodeUpdate \<Rightarrow> sent list \<Rightarrow> (error + Node) \<times> sent list" where
  "nodeClient_Update env c name update tr =
     (case doRequest env c ''PUT'' (''/nodes/'' @ name) (Some (PNodeUpdate update)) tr of
        (Inl e, tr1) \<Rightarrow> (Inl (Wrapf (''failed to update node '' @ name) e), tr1)
      | (Inr resp, tr1) \<Rightarrow>
          if StatusCode resp \<noteq> 200
          then (Inl (Errorf (''unexpected status code: '' @ show_int (StatusCode resp))), tr1)
          else (case DecodeNode env (RespBody resp) of
                  Inl e \<Rightarrow> (Inl (Wrapf ''failed to decode response'' e), tr1)
                | Inr node \<Rightarrow> (Inr node, tr1)))"

text \<open>\<^verbatim>\<open>_, err := c.Update(name, update); return err\<close>.\<close>

definition err_of :: "(error + 'a) \<times> sent list \<Rightarrow> error option \<times> sent list" where
  "err_of r = (case r of (Inl e, tr) \<Rightarrow> (Some e, tr) | (Inr _, tr) \<Rightarrow> (None, tr))"

text \<open>The loop \<^verbatim>\<open>for _, t := range node.Tags { if t == tag { return nil } }\<close>.\<close>

fun range_Tags :: "string list \<Rightarrow> string \<Rightarrow> bool" where
  "range_Tags [] tag = False"
| "range_Tags (t # ts) tag = (if t = tag then True else range_Tags ts tag)"

definition nodeClient_AddNodeTag ::
  "Env \<Rightarrow> Client \<Rightarrow> string \<Rightarrow> string \<Rightarrow> sent list \<Rightarrow> error option \<times> sent list" where
  "nodeClient_AddNodeTag env c nodeName tag tr =
     (case nodeClient_Get env c nodeName tr of
        (Inl e, tr1) \<Rightarrow> (Some e, tr1)
      | (Inr node, tr1) \<Rightarrow>
          if range_Tags (Node.Tags node) tag then (None, tr1)
          else
            let tags = Node.Tags node @ [tag];
                update = NodeUpdate_zero\<lparr>NodeUpdate.Tags := tags\<rparr> in
            err_of (nodeClient_Update env c nodeName update tr1))"

definition nodeClient_EnableScheduling ::
  "Env \<Rightarrow> Client \<Rightarrow> string \<Rightarrow> sent list \<Rightarrow> error option \<times> sent list" where
  "nodeClient_EnableScheduling env c name tr =
     err_of (nodeClient_Update env c name
               (NodeUpdate_zero\<lparr>NodeUpdate.AllowScheduling := Some True\<rparr>) tr)"

definition nodeClient_DisableScheduling ::
  "Env \<Rightarrow> Client \<Rightarrow> string \<Rightarrow> sent list \<Rightarrow> error option \<times> sent list" where
  "nodeClient_DisableScheduling env c name tr =
     err_of (nodeClient_Update env c name
               (NodeUpdate_zero\<lparr>NodeUpdate.AllowScheduling := Some False\<rparr>) tr)"

definition nodeClient_EvictNode ::
  "Env \<Rightarrow> Client \<Rightarrow> string \<Rightarrow> sent list \<Rightarrow> error option \<times> sent list" where
  "nodeClient_EvictNode env c name tr =
     err_of (nodeClient_Update env c name
               (NodeUpdate_zero\<lparr>NodeUpdate.EvictionRequested := Some True\<rparr>) tr)"

text \<open>
  The three disk operations of this version read the node and then update it.
  \<^verbatim>\<open>AddDisk\<close> names the disk \<^verbatim>\<open>disk-\<close> followed by its path.
\<close>

definition nodeClient_AddDisk ::
  "Env \<Rightarrow> Client \<Rightarrow> string \<Rightarrow> DiskUpdate \<Rightarrow> sent list \<Rightarrow> error option \<times> sent list" where
  "nodeClient_AddDisk env c nodeName disk tr =
     (case nodeClient_Get env c nodeName tr of
        (Inl e, tr1) \<Rightarrow> (Some e, tr1)
      | (Inr node, tr1) \<Rightarrow>
          let diskID = ''disk-'' @ DiskUpdate.Path disk;
              update = NodeUpdate_zero\<lparr>NodeUpdate.Disks := [(diskID, disk)]\<rparr> in
          err_of (nodeClient_Update env c nodeName update tr1))"

definition nodeClient_RemoveDisk ::
  "Env \<Rightarrow> Client \<Rightarrow> string \<Rightarrow> string \<Rightarrow> sent list \<Rightarrow> error option \<times> sent list" where
  "nodeClient_RemoveDisk env c nodeName diskID tr =
     (case nodeClient_Get env c nodeName tr of
        (Inl e, tr1) \<Rightarrow> (Some e, tr1)
      | (Inr node, tr1) \<Rightarrow>
          (case map_of (Node.Disks node) diskID of
             None \<Rightarrow>
               (Some (Errorf (''disk '' @ diskID @ '' not found on node '' @ nodeName)), tr1)
           | Some disk \<Rightarrow>
               let update = NodeUpdate_zero\<lparr>NodeUpdate.Disks :=
                     [(diskID, DiskUpdate_zero\<lparr>DiskUpdate.Path := Disk.Path disk,
                                 DiskUpdate.AllowScheduling := Some False,
                                 DiskUpdate.EvictionRequested := Some True\<rparr>)]\<rparr> in
               err_of (nodeClient_Update env c nodeName update tr1)))"

definition nodeClient_UpdateDiskTags ::
  "Env \<Rightarrow> Client \<Rightarrow> string \<Rightarrow> string \<Rightarrow> string list \<Rightarrow> sent list \<Rightarrow> error option \<times> sent list" where
  "nodeClient_UpdateDiskTags env c nodeName diskID tags tr =
     (case nodeClient_Get env c nodeName tr of
        (Inl e, tr1) \<Rightarrow> (Some e, tr1)
      | (Inr node, tr1) \<Rightarrow>
          (case map_of (Node.Disks node) diskID of
             None \<Rightarrow>
               (Some (Errorf (''disk '' @ diskID @ '' not found on node '' @ nodeName)), tr1)
           | Some disk \<Rightarrow>
               let update = NodeUpdate_zero\<lparr>NodeUpdate.Disks :=
                     [(diskID, DiskUpdate_zero\<lparr>DiskUpdate.Path := Disk.Path disk,
                                 DiskUpdate.Tags := tags\<rparr>)]\<rparr> in
               err_of (nodeClient_Update env c nodeName update tr1)))"

text \<open>The loop of \<^verbatim>\<open>RemoveNodeTag\<close> that keeps the tags different from \<open>tag\<close>.\<close>

fun filter_Tags :: "string list \<Rightarrow> string \<Rightarrow> string list \<Rightarrow> string list" where
  "filter_Tags [] tag tags = tags"
| "filter_Tags (t # ts) tag tags = filter_Tags ts tag (if t \<noteq> tag then tags @ [t] else tags)"

definition nodeClient_RemoveNodeTag ::
  "Env \<Rightarrow> Client \<Rightarrow> string \<Rightarrow> string \<Rightarrow> sent list \<Rightarrow> error option \<times> sent list" where
  "nodeClient_RemoveNodeTag env c nodeName tag tr =
     (case nodeClient_Get env c nodeName tr of
        (Inl e, tr1) \<Rightarrow> (Some e, tr1)
      | (Inr node, tr1) \<Rightarrow>
          let tags = filter_Tags (Node.Tags node) tag [];
              update = NodeUpdate_zero\<lparr>NodeUpdate.Tags := tags\<rparr> in
          err_of (nodeClient_Update env c nodeName update tr1))"


section \<open>pkg/client/node.go, the complete file with all disk operations\<close>

text \<open>
  The repository holds a second, longer version of the node client (the one that
  implements all of \<^verbatim>\<open>NodeInterface\<close>); its functions carry a prime here.
\<close>

definition nodeClient_List' :: "Env \<Rightarrow> Client \<Rightarrow> sent list \<Rightarrow> (error + Node list) \<times> sent list" where
  "nodeClient_List' env c tr =
     (case doRequest env c ''GET'' ''/nodes'' None tr of
        (Inl e, tr1) \<Rightarrow> (Inl e, tr1)
      | (Inr resp, tr1) \<Rightarrow>
          if StatusCode resp \<noteq> 200
          then (Inl (Errorf (''unexpected status code: '' @ show_int (StatusCode resp))), tr1)
          else (case DecodeNodes env (RespBody resp) of
                  Inl e \<Rightarrow> (Inl (Wrapf ''failed to decode response'' e), tr1)
                | Inr items \<Rightarrow> (Inr items, tr1)))"

definition nodeClient_Get' :: "Env \<Rightarrow> Client \<Rightarrow> string \<Rightarrow> sent list \<Rightarrow> (error + Node) \<times> sent list" where
  "nodeClient_Get' env c name tr =
     (case doRequest env c ''GET'' (''/nodes/'' @ name) None tr of
        (Inl e, tr1) \<Rightarrow> (Inl e, tr1)
      | (Inr resp, tr1) \<Rightarrow>
          if StatusCode resp = 404 then (Inl (Errorf (''node '' @ name @ '' not found'')), tr1)
          else if StatusCode resp \<noteq> 200
          then (Inl (Errorf (''unexpected status code: '' @ show_int (StatusCode resp))), tr1)
          else (case DecodeNode env (RespBody resp) of
                  Inl e \<Rightarrow> (Inl (Wrapf ''failed to decode response'' e), tr1)
                | Inr node \<Rightarrow> (Inr node, tr1)))"

definition nodeClient_Update' ::
  "Env \<Rightarrow> Client \<Rightarrow> string \<Rightarrow> NodeUpdate \<Rightarrow> sent list \<Rightarrow> (error + Node) \<times> sent list" where
  "nodeClient_Update' env c name update tr =
     (case doRequest env c ''PUT'' (''/nodes/'' @ name) (Some (PNodeUpdate update)) tr of
        (Inl e, tr1) \<Rightarrow> (Inl e, tr1)
      | (Inr resp, tr1) \<Rightarrow>
          if StatusCode resp \<noteq> 200
          then (Inl (Errorf (''failed to update node: '' @ RespBody resp)), tr1)
          else (case DecodeNode env (RespBody resp) of
                  Inl e \<Rightarrow> (Inl (Wrapf ''failed to decode response'' e), tr1)
                | Inr node \<Rightarrow> (Inr node, tr1)))"

definition nodeClient_EnableScheduling' ::
  "Env \<Rightarrow> Client \<Rightarrow> string \<Rightarrow> sent list \<Rightarrow> error option \<times> sent list" where
  "nodeClient_EnableScheduling' env c name tr =
     err_of (nodeClient_Update' env c name
               (NodeUpdate_zero\<lparr>NodeUpdate.AllowScheduling := Some True\<rparr>) tr)"

definition nodeClient_DisableScheduling' ::
  "Env \<Rightarrow> Client \<Rightarrow> string \<Rightarrow> sent list \<Rightarrow> error option \<times> sent list" where
  "nodeClient_DisableScheduling' env c name tr =
     err_of (nodeClient_Update' env c name
               (NodeUpdate_zero\<lparr>NodeUpdate.AllowScheduling := Some False\<rparr>) tr)"

definition nodeClient_EvictNode' ::
  "Env \<Rightarrow> Client \<Rightarrow> string \<Rightarrow> sent list \<Rightarrow> error option \<times> sent list" where
  "nodeClient_EvictNode' env c name tr =
     err_of (nodeClient_Update' env c name
               (NodeUpdate_zero\<lparr>NodeUpdate.EvictionRequested := Some True\<rparr>) tr)"

definition nodeClient_RemoveDisk' ::
  "Env \<Rightarrow> Client \<Rightarrow> string \<Rightarrow> string \<Rightarrow> sent list \<Rightarrow> error option \<times> sent list" where
  "nodeClient_RemoveDisk' env c nodeName diskID tr =
     (case doRequest env c ''DELETE'' (''/nodes/'' @ nodeName @ ''/disks/'' @ diskID) None tr of
        (Inl e, tr1) \<Rightarrow> (Some (Wrapf ''failed to remove disk'' e), tr1)
      | (Inr resp, tr1) \<Rightarrow>
          if StatusCode resp \<noteq> 200 \<and> StatusCode resp \<noteq> 204
          then (Some (Errorf (''failed to remove disk: '' @ RespBody resp)), tr1)
          else (None, tr1))"

definition nodeClient_UpdateDiskTags' ::
  "Env \<Rightarrow> Client \<Rightarrow> string \<Rightarrow> string \<Rightarrow> string list \<Rightarrow> sent list \<Rightarrow> error option \<times> sent list" where
  "nodeClient_UpdateDiskTags' env c nodeName diskID tags tr =
     (case doRequest env c ''PATCH'' (''/nodes/'' @ nodeName @ ''/disks/'' @ diskID)
             (Some (PMap [(''tags'', JStrings tags)])) tr of
        (Inl e, tr1) \<Rightarrow> (Some (Wrapf ''failed to update disk tags'' e), tr1)
      | (Inr resp, tr1) \<Rightarrow>
          if StatusCode resp \<noteq> 200
          then (Some (Errorf (''failed to update disk tags: '' @ RespBody resp)), tr1)
          else (None, tr1))"


text \<open>The payload built by the loop over \<^verbatim>\<open>node.Disks\<close>.\<close>

definition disk_payload :: "Disk \<Rightarrow> json" where
  "disk_payload d =
     JObject [(''path'', JString (Disk.Path d)),
              (''allowScheduling'', JBool (Disk.AllowScheduling d)),
              (''storageReserved'', JInt (Disk.StorageReserved d)),
              (''tags'', JStrings (Disk.Tags d))]"

definition nodeClient_updateDiskSchedulingViaNode' ::
  "Env \<Rightarrow> Client \<Rightarrow> string \<Rightarrow> string \<Rightarrow> bool \<Rightarrow> sent list \<Rightarrow> error option \<times> sent list" where
  "nodeClient_updateDiskSchedulingViaNode' env c nodeName diskID allowScheduling tr =
     (case nodeClient_Get' env c nodeName tr of
        (Inl e, tr1) \<Rightarrow> (Some (Wrapf ''failed to get node'' e), tr1)
      | (Inr node, tr1) \<Rightarrow>
          (case map_of (Node.Disks node) diskID of
             None \<Rightarrow>
               (Some (Errorf (''disk '' @ diskID @ '' not found on node '' @ nodeName)), tr1)
           | Some disk \<Rightarrow>
               let disks = AList.update diskID (disk\<lparr>Disk.AllowScheduling := allowScheduling\<rparr>)
                             (Node.Disks node);
                   disksPayload = map (\<lambda>(id, d). (id, disk_payload d)) disks;
                   updatePayload = PMap [(''disks'', JObject disksPayload)] in
               (case doRequest env c ''PUT'' (''/nodes/'' @ nodeName) (Some updatePayload) tr1 of
                  (Inl e, tr2) \<Rightarrow> (Some (Wrapf ''failed to update node'' e), tr2)
                | (Inr resp, tr2) \<Rightarrow>
                    if StatusCode resp \<noteq> 200
                    then (Some (Errorf (''failed to update disk scheduling: '' @ RespBody resp)), tr2)
                    else (None, tr2))))"

definition nodeClient_updateDiskScheduling' ::
  "Env \<Rightarrow> Client \<Rightarrow> string \<Rightarrow> string \<Rightarrow> bool \<Rightarrow> sent list \<Rightarrow> error option \<times> sent list" where
  "nodeClient_updateDiskScheduling' env c nodeName diskID allowScheduling tr =
     (case doRequest env c ''PATCH'' (''/nodes/'' @ nodeName @ ''/disks/'' @ diskID)
             (Some (PMap [(''allowScheduling'', JBool allowScheduling)])) tr of
        (Inl e, tr1) \<Rightarrow> (Some (Wrapf ''failed to update disk'' e), tr1)
      | (Inr resp, tr1) \<Rightarrow>
          if StatusCode resp = 405 \<or> StatusCode resp = 404
          then nodeClient_updateDiskSchedulingViaNode' env c nodeName diskID allowScheduling tr1
          else if StatusCode resp \<noteq> 200
          then (Some (Errorf (''failed to update disk scheduling: '' @ RespBody resp)), tr1)
          else (None, tr1))"

definition nodeClient_EnableDiskScheduling' ::
  "Env \<Rightarrow> Client \<Rightarrow> string \<Rightarrow> string \<Rightarrow> sent list \<Rightarrow> error option \<times> sent list" where
  "nodeClient_EnableDiskScheduling' env c nodeName diskID tr =
     nodeClient_updateDiskScheduling' env c nodeName diskID True tr"

definition nodeClient_DisableDiskScheduling' ::
  "Env \<Rightarrow> Client \<Rightarrow> string \<Rightarrow> string \<Rightarrow> sent list \<Rightarrow> error option \<times> sent list" where
  "nodeClient_DisableDiskScheduling' env c nodeName diskID tr =
     nodeClient_updateDiskScheduling' env c nodeName diskID False tr"

definition nodeClient_AddNodeTag' ::
  "Env \<Rightarrow> Client \<Rightarrow> string \<Rightarrow> string \<Rightarrow> sent list \<Rightarrow> error option \<times> sent list" where
  "nodeClient_AddNodeTag' env c nodeName tag tr =
     (case nodeClient_Get' env c nodeName tr of
        (Inl e, tr1) \<Rightarrow> (Some e, tr1)
      | (Inr node, tr1) \<Rightarrow>
          if range_Tags (Node.Tags node) tag then (None, tr1)
          else
            let tags = Node.Tags node @ [tag];
                update = NodeUpdate_zero\<lparr>NodeUpdate.Tags := tags\<rparr> in
            err_of (nodeClient_Update' env c nodeName update tr1))"

definition nodeClient_RemoveNodeTag' ::
  "Env \<Rightarrow> Client \<Rightarrow> string \<Rightarrow> string \<Rightarrow> sent list \<Rightarrow> error option \<times> sent list" where
  "nodeClient_RemoveNodeTag' env c nodeName tag tr =
     (case nodeClient_Get' env c nodeName tr of
        (Inl e, tr1) \<Rightarrow> (Some e, tr1)
      | (Inr node, tr1) \<Rightarrow>
          let tags = filter_Tags (Node.Tags node) tag [];
              update = NodeUpdate_zero\<lparr>NodeUpdate.Tags := tags\<rparr> in
          err_of (nodeClient_Update' env c nodeName update tr1))"

text \<open>\<^verbatim>\<open>sanitizeDiskPath\<close>: the index loop that overwrites each slash with a dash.\<close>

function sanitize_loop :: "nat \<Rightarrow> string \<Rightarrow> string" where
  "sanitize_loop i sanitized =
     (if i < length sanitized
      then sanitize_loop (Suc i)
             (if sanitized ! i = CHR ''/''
              then take i sanitized @ ''-'' @ drop (Suc i) sanitized else sanitized)
      else sanitized)"
  by pat_completeness auto
termination
  by (relation "measure (\<lambda>(i, s). length s - i)") auto

declare sanitize_loop.simps [simp del]

definition sanitizeDiskPath :: "string \<Rightarrow> string" where
  "sanitizeDiskPath path =
     sanitize_loop 0 (if length path > 0 \<and> path ! 0 = CHR ''/'' then drop 1 path else path)"

definition nodeClient_AddDisk' ::
  "Env \<Rightarrow> Client \<Rightarrow> string \<Rightarrow> DiskUpdate \<Rightarrow> sent list \<Rightarrow> error option \<times> sent list" where
  "nodeClient_AddDisk' env c nodeName disk tr =
     (case nodeClient_Get' env c nodeName tr of
        (Inl e, tr1) \<Rightarrow> (Some (Wrapf ''failed to get node'' e), tr1)
      | (Inr node, tr1) \<Rightarrow>
          let diskID = ''disk-'' @ sanitizeDiskPath (DiskUpdate.Path disk) in
          (case map_of (Node.Disks node) diskID of
             Some _ \<Rightarrow>
               (Some (Errorf (''disk with path '' @ DiskUpdate.Path disk @ '' already exists'')), tr1)
           | None \<Rightarrow>
               let diskData = PMap [(''path'', JString (DiskUpdate.Path disk)),
                                    (''allowScheduling'', JBool True),
                                    (''storageReserved'', JInt (DiskUpdate.StorageReserved disk)),
                                    (''tags'', JStrings (DiskUpdate.Tags disk))] in
               (case doRequest env c ''POST'' (''/nodes/'' @ nodeName @ ''/disks'') (Some diskData) tr1 of
                  (Inl e, tr2) \<Rightarrow> (Some (Wrapf ''failed to add disk'' e), tr2)
                | (Inr resp, tr2) \<Rightarrow>
                    if StatusCode resp \<noteq> 200 \<and> StatusCode resp \<noteq> 201
                    then (Some (Errorf (''failed to add disk: '' @ RespBody resp)), tr2)
                    else (None, tr2))))"


section \<open>pkg/client/settings.go and pkg/client/engine_image.go\<close>

definition settingsClient_List ::
  "Env \<Rightarrow> Client \<Rightarrow> sent list \<Rightarrow> (error + (string \<times> Setting) list) \<times> sent list" where
  "settingsClient_List env c tr =
     (case doRequest env c ''GET'' ''/settings'' None tr of
        (Inl e, tr1) \<Rightarrow> (Inl e, tr1)
      | (Inr resp, tr1) \<Rightarrow>
          if StatusCode resp \<noteq> 200
          then (Inl (Errorf (''unexpected status code: '' @ show_int (StatusCode resp))), tr1)
          else (case DecodeSettings env (RespBody resp) of
                  Inl e \<Rightarrow> (Inl (Wrapf ''failed to decode response'' e), tr1)
                | Inr data \<Rightarrow>
                    (Inr (foldl (\<lambda>out s. AList.update (Setting.Name s) s out) [] data), tr1)))"

definition settingsClient_Get ::
  "Env \<Rightarrow> Client \<Rightarrow> string \<Rightarrow> sent list \<Rightarrow> (error + Setting) \<times> sent list" where
  "settingsClient_Get env c name tr =
     (case doRequest env c ''GET'' (''/settings/'' @ name) None tr of
        (Inl e, tr1) \<Rightarrow> (Inl e, tr1)
      | (Inr resp, tr1) \<Rightarrow>
          if StatusCode resp = 404 then (Inl (Errorf (''setting '' @ name @ '' not found'')), tr1)
          else if StatusCode resp \<noteq> 200
          then (Inl (Errorf (''unexpected status code: '' @ show_int (StatusCode resp))), tr1)
          else (case DecodeSetting env (RespBody resp) of
                  Inl e \<Rightarrow> (Inl (Wrapf ''failed to decode response'' e), tr1)
                | Inr setting \<Rightarrow> (Inr setting, tr1)))"

definition settingsClient_Update ::
  "Env \<Rightarrow> Client \<Rightarrow> string \<Rightarrow> string \<Rightarrow> sent list \<Rightarrow> (error + Setting) \<times> sent list" where
  "settingsClient_Update env c name v tr =
     (case doRequest env c ''PUT'' (''/settings/'' @ name) (Some (PMap [(''value'', JString v)])) tr of
        (Inl e, tr1) \<Rightarrow> (Inl e, tr1)
      | (Inr resp, tr1) \<Rightarrow>
          if StatusCode resp \<noteq> 200
          then (Inl (Errorf (''unexpected status code: '' @ show_int (StatusCode resp))), tr1)
          else (case DecodeSetting env (RespBody resp) of
                  Inl e \<Rightarrow> (Inl (Wrapf ''failed to decode response'' e), tr1)
                | Inr setting \<Rightarrow> (Inr setting, tr1)))"

definition engineImageClient_List ::
  "Env \<Rightarrow> Client \<Rightarrow> sent list \<Rightarrow> (error + EngineImage list) \<times> sent list" where
  "engineImageClient_List env c tr =
     (case doRequest env c ''GET'' ''/engineimages'' None tr of
        (Inl e, tr1) \<Rightarrow> (Inl e, tr1)
      | (Inr resp, tr1) \<Rightarrow>
          if StatusCode resp \<noteq> 200
          then (Inl (Errorf (''unexpected status code: '' @ show_int (StatusCode resp))), tr1)
          else (case DecodeEngineImages env (RespBody resp) of
                  Inl e \<Rightarrow> (Inl (Wrapf ''failed to decode response'' e), tr1)
                | Inr data \<Rightarrow> (Inr data, tr1)))"

definition engineImageClient_Get ::
  "Env \<Rightarrow> Client \<Rightarrow> string \<Rightarrow> sent list \<Rightarrow> (error + EngineImage) \<times> sent list" where
  "engineImageClient_Get env c name tr =
     (case doRequest env c ''GET'' (''/engineimages/'' @ name) None tr of
        (Inl e, tr1) \<Rightarrow> (Inl e, tr1)
      | (Inr resp, tr1) \<Rightarrow>
          if StatusCode resp = 404 then (Inl (Errorf (''engine image '' @ name @ '' not found'')), tr1)
          else if StatusCode resp \<noteq> 200
          then (Inl (Errorf (''unexpected status code: '' @ show_int (StatusCode resp))), tr1)
          else (case DecodeEngineImage env (RespBody resp) of
                  Inl e \<Rightarrow> (Inl (Wrapf ''failed to decode response'' e), tr1)
                | Inr ei \<Rightarrow> (Inr ei, tr1)))"

definition engineImageClient_Delete ::
  "Env \<Rightarrow> Client \<Rightarrow> string \<Rightarrow> sent list \<Rightarrow> error option \<times> sent list" where
  "engineImageClient_Delete env c name tr =
     (case doRequest env c ''DELETE'' (''/engineimages/'' @ name) None tr of
        (Inl e, tr1) \<Rightarrow> (Some e, tr1)
      | (Inr resp, tr1) \<Rightarrow>
          if StatusCode resp \<noteq> 200 \<and> StatusCode resp \<noteq> 204
          then (Some (Errorf (''unexpected status code: '' @ show_int (StatusCode resp))), tr1)
          else (None, tr1))"


section \<open>cmd: commands, \<^verbatim>\<open>cmd.Execute\<close> and \<^verbatim>\<open>main\<close>\<close>

text \<open>
  What a process leaves behind: the HTTP trace and the two output streams. A command
  function returns an error or nil, or it panics.
\<close>

datatype result = Returns "error option" | Panics

record World =
  trace :: "sent list"
  stdout :: string
  stderr :: string

definition newline :: string where
  "newline = [CHR 0x0A]"




text \<open>The lines \<^verbatim>\<open>runDiagnostics\<close> prints for the engine images.\<close>

fun engine_image_lines :: "EngineImage list \<Rightarrow> string" where
  "engine_image_lines [] = []"
| "engine_image_lines (ei # rest) =
     ''- '' @ EngineImage.Name ei @ (if EngineImage.Default ei then '' (default)'' else [])
       @ [CHR 0x09] @ Image ei @ newline @ engine_image_lines rest"

text \<open>
  \<^verbatim>\<open>c.Settings()\<close> and \<^verbatim>\<open>c.EngineImages()\<close> hand out the HTTP clients whatever the mode of
  \<open>c\<close>. With a client made by \<^verbatim>\<open>NewLonghornCRDClient\<close> their requests reach
  \<^verbatim>\<open>c.httpClient.Do\<close> with a nil \<^verbatim>\<open>httpClient\<close>: the call panics (\<open>None\<close>) unless building
  the request failed before.
\<close>

definition Client_Settings_Get ::
  "Env \<Rightarrow> Client \<Rightarrow> string \<Rightarrow> sent list \<Rightarrow> ((error + Setting) \<times> sent list) option" where
  "Client_Settings_Get env c name tr =
     (if crdClient c
      then (case doRequest_nil env c ''GET'' (''/settings/'' @ name) None of
              Some e \<Rightarrow> Some (Inl e, tr)
            | None \<Rightarrow> None)
      else Some (settingsClient_Get env c name tr))"

definition Client_EngineImages_List ::
  "Env \<Rightarrow> Client \<Rightarrow> sent list \<Rightarrow> ((error + EngineImage list) \<times> sent list) option" where
  "Client_EngineImages_List env c tr =
     (if crdClient c
      then (case doRequest_nil env c ''GET'' ''/engineimages'' None of
              Some e \<Rightarrow> Some (Inl e, tr)
            | None \<Rightarrow> None)
      else Some (engineImageClient_List env c tr))"

definition runDiagnostics :: "Env \<Rightarrow> (error + Client) \<Rightarrow> World \<Rightarrow> result \<times> World" where
  "runDiagnostics env getClient w =
     (case getClient of
        Inl e \<Rightarrow> (Returns (Some e), w)
      | Inr c \<Rightarrow>
          (case Client_Settings_Get env c ''current-longhorn-version'' (trace w) of
             None \<Rightarrow> (Panics, w)
           | Some (versionSetting, tr1) \<Rightarrow>
               let w1 = (case versionSetting of
                           Inl e \<Rightarrow> w\<lparr>trace := tr1,
                                       stderr := stderr w @ ''Warning: failed to get version: ''
                                                   @ Error e @ newline\<rparr>
                         | Inr _ \<Rightarrow> w\<lparr>trace := tr1\<rparr>) in
               (case Client_Settings_Get env c ''default-engine-image'' (trace w1) of
                  None \<Rightarrow> (Panics, w1)
                | Some (engineSetting, tr2) \<Rightarrow>
                    let w2 = (case engineSetting of
                                Inl e \<Rightarrow>
                                  w1\<lparr>trace := tr2,
                                     stderr := stderr w1
                                       @ ''Warning: failed to get default engine image: ''
                                       @ Error e @ newline\<rparr>
                              | Inr _ \<Rightarrow> w1\<lparr>trace := tr2\<rparr>);
                        w3 = w2\<lparr>stdout := stdout w2 @ ''Longhorn Diagnostics'' @ newline
                                @ (case versionSetting of
                                     Inr v \<Rightarrow> ''Version: '' @ Value v @ newline | Inl _ \<Rightarrow> [])
                                @ (case engineSetting of
                                     Inr v \<Rightarrow> ''Default Engine Image: '' @ Value v @ newline
                                   | Inl _ \<Rightarrow> [])\<rparr> in
                    (case Client_EngineImages_List env c (trace w3) of
                       None \<Rightarrow> (Panics, w3)
                     | Some (Inl e, tr3) \<Rightarrow>
                         (Returns None,
                          w3\<lparr>trace := tr3,
                             stderr := stderr w3 @ ''Warning: failed to list engine images: ''
                                         @ Error e @ newline\<rparr>)
                     | Some (Inr imgs, tr3) \<Rightarrow>
                         (Returns None,
                          w3\<lparr>trace := tr3,
                             stdout := stdout w3 @ newline @ ''Engine Images:'' @ newline
                                         @ engine_image_lines imgs\<rparr>)))))"

text \<open>
  \<^verbatim>\<open>cmd.Execute\<close> is \<^verbatim>\<open>rootCmd.Execute()\<close> of the cobra library, applied here to the
  \<^verbatim>\<open>RunE\<close> function of the command the arguments select. The root command sets neither
  \<^verbatim>\<open>SilenceErrors\<close> nor \<^verbatim>\<open>SilenceUsage\<close>, so cobra writes \<^verbatim>\<open>Error: \<close> and the message
  of a returned error to the standard error stream, then the usage text of the command,
  and returns the error. It recovers no panic.
\<close>

definition Execute :: "string \<Rightarrow> (World \<Rightarrow> result \<times> World) \<Rightarrow> World \<Rightarrow> result \<times> World" where
  "Execute usage runE w =
     (case runE w of
        (Returns None, w1) \<Rightarrow> (Returns None, w1)
      | (Returns (Some e), w1) \<Rightarrow>
          (Returns (Some e),
           w1\<lparr>stderr := stderr w1 @ ''Error: '' @ Error e @ newline @ usage @ newline\<rparr>)
      | (Panics, w1) \<Rightarrow> (Panics, w1))"

text \<open>
  \<^verbatim>\<open>main\<close>: the exit status of the process and what it left behind. A panic ends the
  process with status 2, after the Go runtime has written the panic and the stacks of
  the goroutines (the text \<open>crash\<close>) to the standard error stream.
\<close>

definition main :: "string \<Rightarrow> string \<Rightarrow> (World \<Rightarrow> result \<times> World) \<Rightarrow> World \<Rightarrow> int \<times> World" where
  "main usage crash runE w =
     (case Execute usage runE w of
        (Returns (Some e), w1) \<Rightarrow> (1, w1)
      | (Returns None, w1) \<Rightarrow> (0, w1)
      | (Panics, w1) \<Rightarrow> (2, w1\<lparr>stderr := stderr w1 @ crash\<rparr>))"


section \<open>pkg/config/config.go: loading the configuration\<close>

text \<open>
  The operating system and the libraries as the loader sees them: \<^verbatim>\<open>os.Getenv\<close>,
  \<^verbatim>\<open>os.UserHomeDir\<close>, \<^verbatim>\<open>os.ReadFile\<close>, \<^verbatim>\<open>os.IsNotExist\<close>, \<^verbatim>\<open>filepath.Join\<close> and
  \<^verbatim>\<open>yaml.Unmarshal\<close> into a zero \<^verbatim>\<open>Config\<close>.
\<close>

record OS =
  Getenv :: "string \<Rightarrow> string"
  UserHomeDir :: "error + string"
  ReadFile :: "string \<Rightarrow> error + string"
  IsNotExist :: "error \<Rightarrow> bool"
  Join :: "string list \<Rightarrow> string"
  Unmarshal :: "string \<Rightarrow> error + Config"

definition SmartDefaultConfig :: "OS \<Rightarrow> Config" where
  "SmartDefaultConfig os =
     (let kubeconfigPath0 = Getenv os ''KUBECONFIG'';
          kubeconfigPath =
            (if kubeconfigPath0 = []
             then (case UserHomeDir os of
                     Inr home \<Rightarrow> Join os [home, ''.kube'', ''config'']
                   | Inl _ \<Rightarrow> kubeconfigPath0)
             else kubeconfigPath0);
          defaultContext =
            \<lparr>Context.Name = ''default'', Context.Endpoint = [],
             Context.Namespace = ''longhorn-system'',
             Auth = \<lparr>Auth.Type = ''kubeconfig'', Auth.Token = [], Auth.Path = kubeconfigPath,
                     AuthContext = []\<rparr>\<rparr>
      in \<lparr>Contexts = [defaultContext], CurrentContext = ''default'',
          Defaults = \<lparr>OutputFormat = ''table'', Confirmation = True,
                       Defaults.Timeout = ''30s''\<rparr>\<rparr>)"

definition Load :: "OS \<Rightarrow> string \<Rightarrow> error + Config" where
  "Load os path0 =
     (case (if path0 = []
            then (case UserHomeDir os of
                    Inl e \<Rightarrow> Inl e
                  | Inr home \<Rightarrow> Inr (Join os [home, ''.lhcli'', ''config.yaml'']))
            else Inr path0) of
        Inl e \<Rightarrow> Inl e
      | Inr path \<Rightarrow>
          (case ReadFile os path of
             Inl e \<Rightarrow> if IsNotExist os e then Inr (SmartDefaultConfig os) else Inl e
           | Inr data \<Rightarrow>
               (case Unmarshal os data of
                  Inl e \<Rightarrow> Inl e
                | Inr cfg \<Rightarrow> Inr cfg)))"


section \<open>pkg/utils/size.go: sizes\<close>

subsection \<open>float64 arithmetic\<close>

text \<open>
  A finite \<^verbatim>\<open>float64\<close> is the rational number it denotes; \<open>None\<close> is an infinity.
  \<open>round_f64 q\<close> is the \<^verbatim>\<open>float64\<close> nearest to \<open>q\<close>, ties to the even significand: 53
  bits of precision, exponents from \<open>-1022\<close> (below that the spacing stays
  \<open>2 ^ -1074\<close>), and an infinity when the rounded value reaches \<open>2 ^ 1024\<close>.
\<close>

definition pow2 :: "int \<Rightarrow> rat" where
  "pow2 e = (if e \<ge> 0 then 2 ^ nat e else 1 / 2 ^ nat (- e))"

text \<open>For \<open>q > 0\<close>, the exponent \<open>e\<close> with \<open>2 ^ e \<le> q < 2 ^ (e + 1)\<close>.\<close>

definition floor_log2 :: "rat \<Rightarrow> int" where
  "floor_log2 q = (if q \<ge> 1 then bitlen \<lfloor>q\<rfloor> - 1 else - bitlen (\<lceil>1 / q\<rceil> - 1))"

definition round_half_even :: "rat \<Rightarrow> int" where
  "round_half_even x =
     (let f = \<lfloor>x\<rfloor>; r = x - of_int f in
      if r < 1 / 2 then f else if r > 1 / 2 then f + 1 else if even f then f else f + 1)"

definition round_f64 :: "rat \<Rightarrow> rat option" where
  "round_f64 q =
     (if q = 0 then Some 0
      else
        let a = \<bar>q\<bar>;
            e = max (floor_log2 a) (- 1022);
            ulp = pow2 (e - 52);
            v = of_int (round_half_even (a / ulp)) * ulp
        in if v \<ge> pow2 1024 then None else Some (if q < 0 then - v else v))"

text \<open>The product of two \<^verbatim>\<open>float64\<close> values, of which the second is finite and positive.\<close>

definition f64_mul :: "rat option \<Rightarrow> rat \<Rightarrow> rat option" where
  "f64_mul x m = (case x of None \<Rightarrow> None | Some v \<Rightarrow> round_f64 (v * m))"

text \<open>
  The conversion \<^verbatim>\<open>int64(f)\<close> truncates towards zero. For a value outside the range of
  \<^verbatim>\<open>int64\<close> Go leaves the result to the implementation; on amd64 it is the least
  \<^verbatim>\<open>int64\<close>, which is what the model returns.
\<close>

definition f64_to_int64 :: "rat option \<Rightarrow> int" where
  "f64_to_int64 x =
     (case x of
        None \<Rightarrow> - (2 ^ 63)
      | Some v \<Rightarrow>
          let t = (if v \<ge> 0 then \<lfloor>v\<rfloor> else \<lceil>v\<rceil>) in
          if - (2 ^ 63) \<le> t \<and> t < 2 ^ 63 then t else - (2 ^ 63))"

subsection \<open>The pattern and the number\<close>

definition is_digit :: "char \<Rightarrow> bool" where
  "is_digit c = ((48::nat) \<le> of_char c \<and> of_char c \<le> (57::nat))"

text \<open>The class \<^verbatim>\<open>\s\<close> of the pattern: tab, line feed, form feed, carriage return, space.\<close>

definition is_space_re :: "char \<Rightarrow> bool" where
  "is_space_re c = (of_char c \<in> {9, 10, 12, 13, 32 :: nat})"

text \<open>
  The white space \<^verbatim>\<open>strings.TrimSpace\<close> removes, among the ASCII bytes: the class above
  and the vertical tab.
\<close>

definition is_space_trim :: "char \<Rightarrow> bool" where
  "is_space_trim c = (of_char c \<in> {9, 10, 11, 12, 13, 32 :: nat})"

definition TrimSpace :: "string \<Rightarrow> string" where
  "TrimSpace s = rev (dropWhile is_space_trim (rev (dropWhile is_space_trim s)))"

text \<open>One optional byte of a class: the byte taken (or nothing) and the rest.\<close>

definition opt_char :: "(char \<Rightarrow> bool) \<Rightarrow> string \<Rightarrow> string \<times> string" where
  "opt_char P s = (case s of c # rest \<Rightarrow> if P c then ([c], rest) else ([], s) | [] \<Rightarrow> ([], s))"

text \<open>
  \<^verbatim>\<open>re.FindStringSubmatch\<close> for the pattern
  \<^verbatim>\<open>^(\d+(?:\.\d+)?)\s*([KMGTPE]?I?B?)?$\<close>: \<open>None\<close> when the string does not match (the
  slice of matches is nil), otherwise the two groups. The classes that follow one
  another in the pattern are disjoint, so the leftmost match is the greedy one.
\<close>

definition FindStringSubmatch :: "string \<Rightarrow> (string \<times> string) option" where
  "FindStringSubmatch s =
     (let ip = takeWhile is_digit s; r1 = dropWhile is_digit s in
      if ip = [] then None
      else
        let (num, r2) =
              (case r1 of
                 c # t \<Rightarrow>
                   if c = CHR ''.'' \<and> takeWhile is_digit t \<noteq> []
                   then (ip @ [c] @ takeWhile is_digit t, dropWhile is_digit t)
                   else (ip, r1)
               | [] \<Rightarrow> (ip, r1));
            r3 = dropWhile is_space_re r2;
            (u1, r4) = opt_char (\<lambda>c. c \<in> set ''KMGTPE'') r3;
            (u2, r5) = opt_char (\<lambda>c. c = CHR ''I'') r4;
            (u3, r6) = opt_char (\<lambda>c. c = CHR ''B'') r5
        in if r6 = [] then Some (num, u1 @ u2 @ u3) else None)"

definition digit_val :: "char \<Rightarrow> int" where
  "digit_val c = of_char c - 48"

definition digits_val :: "string \<Rightarrow> int" where
  "digits_val ds = foldl (\<lambda>n c. 10 * n + digit_val c) 0 ds"

text \<open>
  \<^verbatim>\<open>strconv.ParseFloat(s, 64)\<close> on the strings the first group of the pattern can hold,
  digits with an optional fraction: the \<^verbatim>\<open>float64\<close> nearest to the decimal number, and
  a range error when that is an infinity.
\<close>

definition ParseFloat :: "string \<Rightarrow> error + rat" where
  "ParseFloat s =
     (let ip = takeWhile is_digit s;
          fp = (case dropWhile is_digit s of c # t \<Rightarrow> t | [] \<Rightarrow> [])
      in case round_f64 (of_int (digits_val ip) + of_int (digits_val fp) / 10 ^ length fp) of
           None \<Rightarrow> Inl (External ''value out of range'')
         | Some v \<Rightarrow> Inr v)"

subsection \<open>ParseSize and FormatSizeInGi\<close>

definition ParseSize :: "string \<Rightarrow> error + int" where
  "ParseSize size0 =
     (if size0 = [] \<or> size0 = ''0'' then Inr 0
      else
        let size1 = TrimSpace (ToUpper size0) in
        case FindStringSubmatch size1 of
          None \<Rightarrow> Inl (Errorf (''invalid size format: '' @ size1))
        | Some (num, unit0) \<Rightarrow>
            (case ParseFloat num of
               Inl _ \<Rightarrow> Inl (Errorf (''invalid numeric value: '' @ num))
             | Inr v \<Rightarrow>
                 if unit0 = [] then Inr (f64_to_int64 (Some v))
                 else
                   let u = TrimSuffix unit0 ''B'' in
                   if u = ''K'' \<or> u = ''KI'' then Inr (f64_to_int64 (f64_mul (Some v) 1024))
                   else if u = ''M'' \<or> u = ''MI''
                   then Inr (f64_to_int64 (f64_mul (Some v) (1024 * 1024)))
                   else if u = ''G'' \<or> u = ''GI''
                   then Inr (f64_to_int64 (f64_mul (Some v) (1024 * 1024 * 1024)))
                   else if u = ''T'' \<or> u = ''TI''
                   then Inr (f64_to_int64 (f64_mul (Some v) (1024 * 1024 * 1024 * 1024)))
                   else if u = ''P'' \<or> u = ''PI''
                   then Inr (f64_to_int64 (f64_mul (Some v) (1024 * 1024 * 1024 * 1024 * 1024)))
                   else if u = ''E'' \<or> u = ''EI''
                   then Inr (f64_to_int64
                               (f64_mul (Some v) (1024 * 1024 * 1024 * 1024 * 1024 * 1024)))
                   else if u = [] then Inr (f64_to_int64 (f64_mul (Some v) 1))
                   else Inl (Errorf (''unknown unit: '' @ u))))"

text \<open>
  \<^verbatim>\<open>fmt.Sprintf("%.2f", x)\<close>: the decimal expansion of the exact value, rounded to two
  places, ties to even; the sign first.
\<close>

definition two_digits :: "nat \<Rightarrow> string" where
  "two_digits k = [digit_char (k div 10), digit_char (k mod 10)]"

definition sprintf_2f :: "rat option \<Rightarrow> string" where
  "sprintf_2f x =
     (case x of
        None \<Rightarrow> ''+Inf''
      | Some v \<Rightarrow>
          let k = nat (round_half_even (\<bar>v\<bar> * 100)) in
          (if v < 0 then ''-'' else []) @ show_nat (k div 100) @ ''.'' @ two_digits (k mod 100))"

text \<open>The argument is an \<^verbatim>\<open>int64\<close>.\<close>

definition FormatSizeInGi :: "int \<Rightarrow> string" where
  "FormatSizeInGi bytes =
     (let gi = (case round_f64 (of_int bytes) of
                  None \<Rightarrow> None
                | Some x \<Rightarrow> round_f64 (x / (1024 * 1024 * 1024)))
      in sprintf_2f gi @ ''Gi'')"


section \<open>Properties of a trace\<close>

text \<open>
  \<open>issues env c k tr tr'\<close>: going from trace \<open>tr\<close> to trace \<open>tr'\<close>, an operation called
  \<^verbatim>\<open>Do\<close> at most \<open>k\<close> times, always on the \<^verbatim>\<open>http.Client\<close> of \<open>c\<close> (so with its timeout),
  never twice with the same request, and a call that returned an error (the transport
  failed) is the last one.
\<close>

definition issues :: "Env \<Rightarrow> Client \<Rightarrow> nat \<Rightarrow> sent list \<Rightarrow> sent list \<Rightarrow> bool" where
  "issues env c k tr tr' =
     (let new = drop (length tr) tr' in
      take (length tr) tr' = tr \<and> length new \<le> k
      \<and> list_all (\<lambda>s. fst s = httpClient c) new
      \<and> distinct new
      \<and> list_all (\<lambda>i. isl (Do env (tr @ take i new) (httpClient c) (snd (new ! i)))
                        \<longrightarrow> Suc i = length new) [0..<length new])"


section \<open>Concrete inputs\<close>

text \<open>Two contexts that share a name, and a configuration that lists both.\<close>

definition ctx_one :: Context where
  "ctx_one = \<lparr>Context.Name = ''prod'', Context.Endpoint = ''http://one'',
               Context.Namespace = ''longhorn-system'',
               Auth = \<lparr>Auth.Type = ''none'', Auth.Token = [], Auth.Path = [], AuthContext = []\<rparr>\<rparr>"

definition ctx_two :: Context where
  "ctx_two = ctx_one\<lparr>Context.Endpoint := ''http://two''\<rparr>"

definition cfg_two :: Config where
  "cfg_two = \<lparr>Contexts = [ctx_one, ctx_two], CurrentContext = ''prod'',
               Defaults = \<lparr>OutputFormat = ''table'', Confirmation = True,
                            Defaults.Timeout = ''30s''\<rparr>\<rparr>"


text \<open>
  A node with one tag, a server that answers every request with it and never
  redirects, and a server that is down.
\<close>

definition node_a :: Node where
  "node_a = \<lparr>Node.Name = ''n1'', Node.Namespace = ''longhorn-system'', Address = ''10.0.0.1'',
              Node.AllowScheduling = True, Node.EvictionRequested = False,
              Node.Conditions = [], Node.Disks = [], Region = [], Zone = [],
              Node.Tags = [''ssd''], EngineManagerCPURequest = 0, ReplicaManagerCPURequest = 0\<rparr>"

definition env_ok :: Env where
  "env_ok = \<lparr>Marshal = (\<lambda>_. None), NewRequest = (\<lambda>_ _. None),
              Do = (\<lambda>_ _ _. Inr \<lparr>StatusCode = 200, RespBody = ''{}''\<rparr>),
              Redirects = (\<lambda>_ _ _. []),
              DecodeNode = (\<lambda>_. Inr node_a), DecodeNodes = (\<lambda>_. Inr [node_a]),
              DecodeSetting = (\<lambda>_. Inr \<lparr>Setting.Name = ''s'', Value = ''v'', Setting.Default = ''d''\<rparr>),
              DecodeSettings = (\<lambda>_. Inr []),
              DecodeEngineImage = (\<lambda>_. Inl (External ''unexpected end of JSON input'')),
              DecodeEngineImages = (\<lambda>_. Inr [])\<rparr>"

definition env_down :: Env where
  "env_down = env_ok\<lparr>Do := (\<lambda>_ _ _. Inl (External ''connection refused''))\<rparr>"

text \<open>
  A server that answers the first request of every call with a redirect to another
  host, and the second with the node; and a server that refuses every update with
  status 500.
\<close>

definition env_redirect :: Env where
  "env_redirect = env_ok\<lparr>Redirects := (\<lambda>_ _ rq. [rq\<lparr>URL := ''http://elsewhere/v1/nodes''\<rparr>])\<rparr>"


definition cfg_http :: ClientConfig where
  "cfg_http = \<lparr>ClientConfig.Endpoint = ''http://lh/'', ClientConfig.Namespace = ''longhorn-system'',
                ClientConfig.Token = [], ClientConfig.Timeout = 30000000000, Insecure = False\<rparr>"

definition client_http :: Client where
  "client_http =
     \<lparr>config = cfg_http\<lparr>ClientConfig.Endpoint := ''http://lh''\<rparr>,
      httpClient = \<lparr>http_Client.Timeout = 30000000000, InsecureSkipVerify = False\<rparr>,
      baseURL = ''http://lh/v1'', crdClient = False\<rparr>"



text \<open>
  A lower-case table that holds the two entries of \<^verbatim>\<open>unicode.CaseRanges\<close> with an ASCII
  image and leaves every other rune as it is; the format \<open>wide\<close> spelled with U+0130.
\<close>

definition lower_table0 :: "nat \<Rightarrow> nat" where
  "lower_table0 r = (if r = 0x130 then 0x69 else if r = 0x212A then 0x6B else r)"

definition format_dotted :: string where
  "format_dotted = [CHR ''w'', CHR 0xC4, CHR 0xB0, CHR ''d'', CHR ''e'']"


text \<open>
  A machine without a configuration file: every read fails with "no such file",
  \<^verbatim>\<open>KUBECONFIG\<close> is not set and the home directory is \<open>/home/u\<close>.
\<close>

definition os_fresh :: OS where
  "os_fresh = \<lparr>Getenv = (\<lambda>_. []), UserHomeDir = Inr ''/home/u'',
                ReadFile = (\<lambda>_. Inl (External ''no such file or directory'')),
                IsNotExist = (\<lambda>e. e = External ''no such file or directory''),
                Join = (\<lambda>parts. foldr (\<lambda>a b. if b = [] then a else a @ ''/'' @ b) parts []),
                Unmarshal = (\<lambda>_. Inl (External ''yaml: unmarshal errors''))\<rparr>"


section \<open>Padding is correct\<close>

lemma concat_replicate_one: "concat (replicate k [c]) = replicate k c"
  by (induction k) simp_all

lemma Repeat_space:
  "0 < k \<Longrightarrow> k \<le> limit \<Longrightarrow> limit \<le> maxInt
     \<Longrightarrow> Repeat limit '' '' k = Some (replicate (nat k) CHR '' '')"
  by (auto simp: Repeat_def concat_replicate_one)

lemma Repeat_space_None:
  "1 < k \<Longrightarrow> limit < k \<Longrightarrow> Repeat limit '' '' k = None"
  by (simp add: Repeat_def)

lemma Repeat_space_Some:
  "0 < k \<Longrightarrow> Repeat limit '' '' k = Some p \<Longrightarrow> p = replicate (nat k) CHR '' ''"
  by (auto simp: Repeat_def concat_replicate_one split: if_splits)

text \<open>
  C7 as stated fails: a width of \<open>2 ^ 62\<close> is a Go \<^verbatim>\<open>int\<close>, yet no allocation of that
  size is granted (\<^verbatim>\<open>maxAlloc\<close> is \<open>2 ^ 48\<close> on linux/amd64): padding the empty string to
  that width does not return.
\<close>

theorem Pad_width_counterexample:
  "PadRight (2 ^ 48) [] (2 ^ 62) = None \<and> PadLeft (2 ^ 48) [] (2 ^ 62) = None"
  by (simp add: PadRight_def PadLeft_def Repeat_def maxInt_def)

text \<open>
  C7, as amended. Let \<open>limit\<close> be the greatest allocation the runtime grants. For every
  string \<open>s\<close> and every width \<open>n\<close> that is at most \<open>limit\<close> or at most the length of \<open>s\<close>,
  \<open>PadRight s n\<close> and \<open>PadLeft s n\<close> return a string of length exactly \<open>max (len s) n\<close>;
  the result of \<open>PadRight\<close> is \<open>s\<close> followed by spaces only, the result of \<open>PadLeft\<close> is
  spaces only followed by \<open>s\<close>. For every greater width neither function returns.
\<close>

theorem Pad_alignment:
  assumes "1 \<le> limit" "limit \<le> maxInt"
  shows "(n \<le> limit \<or> n \<le> int (length s) \<longrightarrow>
           (\<exists>k. PadRight limit s n = Some (s @ replicate k CHR '' '')
              \<and> PadLeft limit s n = Some (replicate k CHR '' '' @ s)
              \<and> int (length (s @ replicate k CHR '' '')) = max (int (length s)) n
              \<and> int (length (replicate k CHR '' '' @ s)) = max (int (length s)) n))
       \<and> (limit < n \<and> int (length s) < n \<longrightarrow>
           PadRight limit s n = None \<and> PadLeft limit s n = None)"
proof (intro conjI impI)
  assume a: "n \<le> limit \<or> n \<le> int (length s)"
  show "\<exists>k. PadRight limit s n = Some (s @ replicate k CHR '' '')
              \<and> PadLeft limit s n = Some (replicate k CHR '' '' @ s)
              \<and> int (length (s @ replicate k CHR '' '')) = max (int (length s)) n
              \<and> int (length (replicate k CHR '' '' @ s)) = max (int (length s)) n"
  proof (cases "int (length s) \<ge> n")
    case True
    then show ?thesis
      by (intro exI [of _ 0]) (simp add: PadRight_def PadLeft_def max_def)
  next
    case False
    with a have l: "n \<le> limit" by simp
    from False l assms
    have "Repeat limit '' '' (n - int (length s)) = Some (replicate (nat (n - int (length s))) CHR '' '')"
      by (intro Repeat_space) simp_all
    with False l show ?thesis
      by (intro exI [of _ "nat (n - int (length s))"])
         (auto simp: PadRight_def PadLeft_def max_def concatstrings_def)
  qed
next
  assume b: "limit < n \<and> int (length s) < n"
  show "PadRight limit s n = None"
  proof (cases "Repeat limit '' '' (n - int (length s))")
    case None
    with b show ?thesis by (simp add: PadRight_def)
  next
    case (Some p)
    with b have p: "p = replicate (nat (n - int (length s))) CHR '' ''"
      by (intro Repeat_space_Some [of "n - int (length s)" limit]) simp_all
    have "s \<noteq> []"
    proof
      assume e: "s = []"
      with b assms have "1 < n" by simp
      with b e have "Repeat limit '' '' (n - int (length s)) = None"
        by (simp add: Repeat_space_None)
      with Some show False by simp
    qed
    with b Some p show ?thesis by (auto simp: PadRight_def concatstrings_def)
  qed
  show "PadLeft limit s n = None"
  proof (cases "Repeat limit '' '' (n - int (length s))")
    case None
    with b show ?thesis by (simp add: PadLeft_def)
  next
    case (Some p)
    with b have p: "p = replicate (nat (n - int (length s))) CHR '' ''"
      by (intro Repeat_space_Some [of "n - int (length s)" limit]) simp_all
    have "s \<noteq> []"
    proof
      assume e: "s = []"
      with b assms have "1 < n" by simp
      with b e have "Repeat limit '' '' (n - int (length s)) = None"
        by (simp add: Repeat_space_None)
      with Some show False by simp
    qed
    with b Some p show ?thesis by (auto simp: PadLeft_def concatstrings_def)
  qed
qed

text \<open>
  With \<open>limit = 2 ^ 48\<close>: \<open>ab\<close> padded to width 5, and to a width above the limit.
\<close>

theorem Pad_alignment_witness:
  "(1::int) \<le> 2 ^ 48 \<and> (2 ^ 48 :: int) \<le> maxInt
   \<and> PadRight (2 ^ 48) ''ab'' 5 = Some ''ab   ''
   \<and> PadLeft (2 ^ 48) ''ab'' 5 = Some ''   ab''
   \<and> PadRight (2 ^ 48) ''ab'' (2 ^ 48 + 1) = None
   \<and> PadLeft (2 ^ 48) ''ab'' (2 ^ 48 + 1) = None"
proof -
  have h: "(1::int) \<le> 2 ^ 48" "(2 ^ 48 :: int) \<le> maxInt" by (simp_all add: maxInt_def)
  from Pad_alignment [OF h, of 5 "''ab''"]
  obtain k where k: "PadRight (2 ^ 48) ''ab'' 5 = Some (''ab'' @ replicate k CHR '' '')"
    "PadLeft (2 ^ 48) ''ab'' 5 = Some (replicate k CHR '' '' @ ''ab'')"
    "int (length (''ab'' @ replicate k CHR '' '')) = max (int (length ''ab'')) 5"
    by auto
  from k(3) have "k = 3" by simp
  then have r: "replicate k CHR '' '' = ''   ''" by (simp add: numeral_3_eq_3)
  from Pad_alignment [OF h, of "2 ^ 48 + 1" "''ab''"]
  have n: "PadRight (2 ^ 48) ''ab'' (2 ^ 48 + 1) = None" "PadLeft (2 ^ 48) ''ab'' (2 ^ 48 + 1) = None"
    by simp_all
  from h k r n show ?thesis by simp
qed

section \<open>Context selection\<close>

lemma range_Contexts_None:
  "range_Contexts cs nm = None \<longleftrightarrow> (\<forall>ctx \<in> set cs. Context.Name ctx \<noteq> nm)"
  by (induction cs) auto

lemma range_Contexts_Some:
  "range_Contexts cs nm = Some ctx \<Longrightarrow>
     \<exists>i < length cs. cs ! i = ctx \<and> Context.Name ctx = nm \<and> (\<forall>j < i. Context.Name (cs ! j) \<noteq> nm)"
proof (induction cs)
  case Nil
  then show ?case by simp
next
  case (Cons a cs)
  show ?case
  proof (cases "Context.Name a = nm")
    case True
    with Cons.prems have "a = ctx" by simp
    with True show ?thesis by (intro exI [of _ 0]) simp
  next
    case False
    with Cons obtain i where i: "i < length cs" "cs ! i = ctx" "Context.Name ctx = nm"
      "\<forall>j < i. Context.Name (cs ! j) \<noteq> nm" by auto
    show ?thesis
    proof (intro exI [of _ "Suc i"] conjI allI impI)
      fix j assume "j < Suc i"
      then show "Context.Name ((a # cs) ! j) \<noteq> nm"
        using False i(4) by (cases j) auto
    qed (use i in auto)
  qed
qed

text \<open>
  C6. For every configuration \<open>c\<close> and every \<open>name\<close>, with \<open>nm\<close> standing for \<open>name\<close> when
  it is not empty and for \<open>CurrentContext c\<close> otherwise: \<open>GetContext\<close> leaves the
  configuration as it was; it returns an error exactly when no context of \<open>c\<close> is named
  \<open>nm\<close>; a context it returns is the first one in \<open>Contexts c\<close> whose \<open>Name\<close> is \<open>nm\<close>;
  and the error says that context \<open>nm\<close> was not found.
\<close>

theorem GetContext_first_match:
  "fst (GetContext c name) = c
   \<and> (isl (snd (GetContext c name)) \<longleftrightarrow>
        (\<forall>ctx \<in> set (Contexts c).
           Context.Name ctx \<noteq> (if name = [] then CurrentContext c else name)))
   \<and> (\<forall>ctx. snd (GetContext c name) = Inr ctx \<longrightarrow>
        (\<exists>i < length (Contexts c). Contexts c ! i = ctx
           \<and> Context.Name ctx = (if name = [] then CurrentContext c else name)
           \<and> (\<forall>j < i. Context.Name (Contexts c ! j)
                         \<noteq> (if name = [] then CurrentContext c else name))))
   \<and> (\<forall>e. snd (GetContext c name) = Inl e \<longrightarrow>
        Error e = ''context '' @ (if name = [] then CurrentContext c else name) @ '' not found'')"
proof -
  let ?nm = "if name = [] then CurrentContext c else name"
  show ?thesis
  proof (cases "range_Contexts (Contexts c) ?nm")
    case None
    then show ?thesis
      using range_Contexts_None [of "Contexts c" ?nm]
      by (auto simp: GetContext_def Let_def)
  next
    case (Some ctx)
    then show ?thesis
      using range_Contexts_Some [OF Some] range_Contexts_None [of "Contexts c" ?nm]
      by (auto simp: GetContext_def Let_def)
  qed
qed

text \<open>
  The configuration \<open>cfg_two\<close> lists two contexts named \<open>prod\<close>: the empty name selects
  the first of them through the current context, and the name \<open>dev\<close> is an error.
\<close>

theorem GetContext_first_match_witness:
  "GetContext cfg_two [] = (cfg_two, Inr ctx_one) \<and> Contexts cfg_two ! 0 = ctx_one
   \<and> isl (snd (GetContext cfg_two ''dev''))"
proof -
  have a: "GetContext cfg_two [] = (cfg_two, Inr ctx_one)"
    by (simp add: GetContext_def Let_def cfg_two_def ctx_one_def ctx_two_def)
  have b: "\<forall>ctx \<in> set (Contexts cfg_two). Context.Name ctx \<noteq> ''dev''"
    by (simp add: cfg_two_def ctx_one_def ctx_two_def)
  from GetContext_first_match [of cfg_two "''dev''"] b
  have "isl (snd (GetContext cfg_two ''dev''))" by simp
  with a show ?thesis by (simp add: cfg_two_def)
qed


section \<open>Choosing a formatter\<close>

lemma char_of_eq_iff: "n < 256 \<Longrightarrow> char_of (n::nat) = c \<longleftrightarrow> of_char c = n"
proof
  assume "n < 256" "char_of n = c"
  then have "of_char c = (of_char (char_of n :: char) :: nat)" by simp
  also have "\<dots> = n mod 256" by (rule of_char_of)
  finally show "of_char c = n" using \<open>n < 256\<close> by simp
next
  assume "of_char c = n"
  then show "char_of n = c" by auto
qed

lemma mod_range:
  fixes x :: nat
  assumes "k * m \<le> x" "x < Suc k * m"
  shows "x mod m = x - k * m"
proof -
  have "x div m = k" using assms by (intro div_nat_eqI) (simp_all add: mult.commute)
  then show ?thesis by (metis minus_div_mult_eq_mod)
qed

lemma lead2_mod: "194 \<le> (x::nat) \<Longrightarrow> x \<le> 223 \<Longrightarrow> x mod 32 = x - 192"
  using mod_range [of 6 32 x] by simp

lemma lead3_mod: "224 \<le> (x::nat) \<Longrightarrow> x \<le> 239 \<Longrightarrow> x mod 16 = x - 224"
  using mod_range [of 14 16 x] by simp

lemma lead4_mod: "240 \<le> (x::nat) \<Longrightarrow> x \<le> 244 \<Longrightarrow> x mod 8 = x - 240"
  using mod_range [of 30 8 x] by simp

lemma cont_mod: "128 \<le> (y::nat) \<Longrightarrow> y \<le> 191 \<Longrightarrow> y mod 64 = y - 128"
  using mod_range [of 2 64 y] by simp

lemma accept_range: "accept_lo x \<le> y \<Longrightarrow> y \<le> accept_hi x \<Longrightarrow> 128 \<le> y \<and> y \<le> 191"
  by (simp add: accept_lo_def accept_hi_def split: if_splits)

lemma split_two:
  fixes a :: nat
  assumes "a * 64 + b mod 64 = n"
  shows "a = n div 64 \<and> b mod 64 = n mod 64"
  using assms by auto

lemma split_three:
  fixes a :: nat
  assumes "a * 4096 + b mod 64 * 64 + c mod 64 = n"
  shows "a = n div 4096 \<and> b mod 64 = n div 64 mod 64 \<and> c mod 64 = n mod 64"
proof -
  from assms have "(a * 64 + b mod 64) * 64 + c mod 64 = n" by simp
  from split_two [OF this] have 1: "a * 64 + b mod 64 = n div 64" and 2: "c mod 64 = n mod 64"
    by simp_all
  from split_two [OF 1] have "a = n div 64 div 64" "b mod 64 = n div 64 mod 64" by simp_all
  with 2 show ?thesis by (simp add: div_mult2_eq [symmetric])
qed

lemma two_byte_lt: "(x::nat) mod 32 * 64 + y mod 64 < 2048"
proof -
  have a: "x mod 32 \<le> 31" using mod_less_divisor [of 32 x] by simp
  have b: "y mod 64 \<le> 63" using mod_less_divisor [of 64 y] by simp
  from a have "x mod 32 * 64 \<le> 31 * 64" by (rule mult_le_mono1)
  with b show ?thesis by simp
qed

lemma two_byte_ge:
  "194 \<le> (x::nat) \<Longrightarrow> x \<le> 223 \<Longrightarrow> 128 \<le> x mod 32 * 64 + y mod 64"
  by (simp add: lead2_mod)

lemma two_byte_130:
  "194 \<le> (x::nat) \<Longrightarrow> x \<le> 223 \<Longrightarrow> 128 \<le> (y::nat) \<Longrightarrow> y \<le> 191
     \<Longrightarrow> x mod 32 * 64 + y mod 64 = 304 \<Longrightarrow> x = 196 \<and> y = 176"
proof -
  assume r: "194 \<le> x" "x \<le> 223" "128 \<le> y" "y \<le> 191"
    and h: "x mod 32 * 64 + y mod 64 = 304"
  from split_two [OF h] have "x mod 32 = 4" "y mod 64 = 48" by simp_all
  with r show ?thesis by (simp add: lead2_mod cont_mod) linarith
qed

lemma three_byte_ge:
  "224 \<le> (x::nat) \<Longrightarrow> x \<le> 239 \<Longrightarrow> accept_lo x \<le> y \<Longrightarrow> y \<le> accept_hi x
     \<Longrightarrow> 2048 \<le> x mod 16 * 4096 + y mod 64 * 64 + z mod 64"
  using accept_range [of x y]
  by (simp add: lead3_mod cont_mod) (simp add: accept_lo_def split: if_splits)

lemma three_byte_212A:
  "224 \<le> (x::nat) \<Longrightarrow> x \<le> 239 \<Longrightarrow> 128 \<le> (y::nat) \<Longrightarrow> y \<le> 191 \<Longrightarrow> 128 \<le> (z::nat) \<Longrightarrow> z \<le> 191
     \<Longrightarrow> x mod 16 * 4096 + y mod 64 * 64 + z mod 64 = 8490 \<Longrightarrow> x = 226 \<and> y = 132 \<and> z = 170"
proof -
  assume r: "224 \<le> x" "x \<le> 239" "128 \<le> y" "y \<le> 191" "128 \<le> z" "z \<le> 191"
    and h: "x mod 16 * 4096 + y mod 64 * 64 + z mod 64 = 8490"
  from split_three [OF h] have "x mod 16 = 2" "y mod 64 = 4" "z mod 64 = 42" by simp_all
  with r show ?thesis by (simp add: lead3_mod cont_mod) linarith
qed

lemma four_byte_ge:
  "240 \<le> (x::nat) \<Longrightarrow> x \<le> 244 \<Longrightarrow> accept_lo x \<le> y \<Longrightarrow> y \<le> accept_hi x
     \<Longrightarrow> 65536 \<le> x mod 8 * 262144 + y mod 64 * 4096 + z mod 64 * 64 + v mod 64"
  using accept_range [of x y]
  by (simp add: lead4_mod cont_mod) (simp add: accept_lo_def split: if_splits)

lemma DecodeRune_ascii: "of_char b < (0x80::nat) \<Longrightarrow> DecodeRune (b # rest) = (of_char b, 1)"
  by (simp add: DecodeRune_def Let_def)



lemma lead_disj:
  "lead_size x = 1 \<or> (194 \<le> x \<and> x \<le> 223) \<or> (224 \<le> x \<and> x \<le> 239) \<or> (240 \<le> x \<and> x \<le> 244)"
  by (simp add: lead_size_def)

lemma DecodeRune_1:
  "\<not> of_char s0 < (0x80::nat) \<Longrightarrow> lead_size (of_char s0) = 1
     \<Longrightarrow> DecodeRune (s0 # rest) = (RuneError, 1)"
  by (simp add: DecodeRune_def Let_def)

lemma lead_size_2: "194 \<le> x \<Longrightarrow> x \<le> 223 \<Longrightarrow> lead_size x = 2"
  by (simp add: lead_size_def)

lemma lead_size_3: "224 \<le> x \<Longrightarrow> x \<le> 239 \<Longrightarrow> lead_size x = 3"
  by (simp add: lead_size_def)

lemma lead_size_4: "240 \<le> x \<Longrightarrow> x \<le> 244 \<Longrightarrow> lead_size x = 4"
  by (simp add: lead_size_def)

lemma DecodeRune_2:
  assumes "194 \<le> (of_char s0::nat)" "(of_char s0::nat) \<le> 223"
  shows "DecodeRune [s0] = (RuneError, 1)"
    and "DecodeRune (s0 # s1 # r1) =
       (if of_char s1 < accept_lo (of_char s0) \<or> accept_hi (of_char s0) < of_char s1
        then (RuneError, 1)
        else (of_char s0 mod 32 * 64 + of_char s1 mod 64, 2))"
  using assms lead_size_2 [OF assms] by (simp_all add: DecodeRune_def Let_def)


lemma DecodeRune_3:
  assumes "224 \<le> (of_char s0::nat)" "(of_char s0::nat) \<le> 239"
  shows "DecodeRune [s0] = (RuneError, 1)"
    and "DecodeRune [s0, s1] = (RuneError, 1)"
    and "DecodeRune (s0 # s1 # s2 # r2) =
       (if of_char s1 < accept_lo (of_char s0) \<or> accept_hi (of_char s0) < of_char s1
        then (RuneError, 1)
        else if of_char s2 < (0x80::nat) \<or> (0xBF::nat) < of_char s2 then (RuneError, 1)
        else (of_char s0 mod 16 * 4096 + of_char s1 mod 64 * 64 + of_char s2 mod 64, 3))"
  using assms lead_size_3 [OF assms] by (simp_all add: DecodeRune_def Let_def)

lemma DecodeRune_4:
  assumes "240 \<le> (of_char s0::nat)" "(of_char s0::nat) \<le> 244"
  shows "DecodeRune [s0] = (RuneError, 1)"
    and "DecodeRune [s0, s1] = (RuneError, 1)"
    and "DecodeRune [s0, s1, s2] = (RuneError, 1)"
    and "DecodeRune (s0 # s1 # s2 # s3 # r3) =
       (if of_char s1 < accept_lo (of_char s0) \<or> accept_hi (of_char s0) < of_char s1
        then (RuneError, 1)
        else if of_char s2 < (0x80::nat) \<or> (0xBF::nat) < of_char s2 then (RuneError, 1)
        else if of_char s3 < (0x80::nat) \<or> (0xBF::nat) < of_char s3 then (RuneError, 1)
        else (of_char s0 mod 8 * 262144 + of_char s1 mod 64 * 4096 + of_char s2 mod 64 * 64
                + of_char s3 mod 64, 4))"
  using assms lead_size_4 [OF assms] by (simp_all add: DecodeRune_def Let_def)

text \<open>A byte that is not ASCII never decodes to an ASCII rune.\<close>

lemma DecodeRune_high:
  assumes "\<not> of_char s0 < (0x80::nat)"
  shows "0x7F < fst (DecodeRune (s0 # rest))"
proof -
  consider (one) "lead_size (of_char s0) = 1"
    | (two) "194 \<le> (of_char s0::nat)" "(of_char s0::nat) \<le> 223"
    | (three) "224 \<le> (of_char s0::nat)" "(of_char s0::nat) \<le> 239"
    | (four) "240 \<le> (of_char s0::nat)" "(of_char s0::nat) \<le> 244"
    using lead_disj [of "of_char s0"] by blast
  then show ?thesis
  proof cases
    case one
    with assms show ?thesis by (simp add: DecodeRune_1 RuneError_def)
  next
    case two
    show ?thesis
    proof (cases rest)
      case Nil
      then show ?thesis by (simp add: DecodeRune_2 [OF two] RuneError_def)
    next
      case (Cons s1 r1)
      then show ?thesis
        using two_byte_ge [OF two, of "of_char s1"]
        by (simp add: DecodeRune_2 [OF two] RuneError_def)
    qed
  next
    case three
    show ?thesis
    proof (cases rest)
      case Nil
      then show ?thesis by (simp add: DecodeRune_3 [OF three] RuneError_def)
    next
      case (Cons s1 r1)
      note c1 = this
      show ?thesis
      proof (cases r1)
        case Nil
        with c1 show ?thesis by (simp add: DecodeRune_3 [OF three] RuneError_def)
      next
        case (Cons s2 r2)
        with c1 show ?thesis
          using three_byte_ge [OF three, of "of_char s1" "of_char s2"]
          by (auto simp: DecodeRune_3 [OF three] RuneError_def)
      qed
    qed
  next
    case four
    show ?thesis
    proof (cases rest)
      case Nil
      then show ?thesis by (simp add: DecodeRune_4 [OF four] RuneError_def)
    next
      case (Cons s1 r1)
      note c1 = this
      show ?thesis
      proof (cases r1)
        case Nil
        with c1 show ?thesis by (simp add: DecodeRune_4 [OF four] RuneError_def)
      next
        case (Cons s2 r2)
        note c2 = this
        show ?thesis
        proof (cases r2)
          case Nil
          with c1 c2 show ?thesis by (simp add: DecodeRune_4 [OF four] RuneError_def)
        next
          case (Cons s3 r3)
          with c1 c2 show ?thesis
            using four_byte_ge [OF four, of "of_char s1" "of_char s2" "of_char s3"]
            by (auto simp: DecodeRune_4 [OF four] RuneError_def)
        qed
      qed
    qed
  qed
qed


lemma byte_eqI: "(of_char c :: nat) = of_char d \<Longrightarrow> c = d"
  by simp

lemma DecodeRune_130:
  assumes "fst (DecodeRune s) = 0x130"
  shows "\<exists>rest. s = CHR 0xC4 # CHR 0xB0 # rest \<and> snd (DecodeRune s) = 2"
proof (cases s)
  case Nil
  with assms show ?thesis by (simp add: DecodeRune_def RuneError_def)
next
  case (Cons s0 rest)
  note s = this
  show ?thesis
  proof (cases "of_char s0 < (0x80::nat)")
    case True
    with assms s show ?thesis by (simp add: DecodeRune_ascii)
  next
    case False
    consider (one) "lead_size (of_char s0) = 1"
      | (two) "194 \<le> (of_char s0::nat)" "(of_char s0::nat) \<le> 223"
      | (three) "224 \<le> (of_char s0::nat)" "(of_char s0::nat) \<le> 239"
      | (four) "240 \<le> (of_char s0::nat)" "(of_char s0::nat) \<le> 244"
      using lead_disj [of "of_char s0"] by blast
    then show ?thesis
    proof cases
      case one
      with assms s False show ?thesis by (simp add: DecodeRune_1 RuneError_def)
    next
      case two
      show ?thesis
      proof (cases rest)
        case Nil
        with assms s show ?thesis by (simp add: DecodeRune_2 [OF two] RuneError_def)
      next
        case (Cons s1 r1)
        note r = this
        show ?thesis
        proof (cases "of_char s1 < accept_lo (of_char s0) \<or> accept_hi (of_char s0) < of_char s1")
          case True
          with assms s r show ?thesis by (simp add: DecodeRune_2 [OF two] RuneError_def)
        next
          case False
          then have a: "128 \<le> (of_char s1::nat)" "(of_char s1::nat) \<le> 191"
            using accept_range [of "of_char s0" "of_char s1"] by simp_all
          from False have d: "DecodeRune s = (of_char s0 mod 32 * 64 + of_char s1 mod 64, 2)"
            using s r by (simp add: DecodeRune_2 [OF two])
          with assms have "of_char s0 mod 32 * 64 + of_char s1 mod 64 = (304::nat)" by simp
          from two_byte_130 [OF two a this]
          have "s0 = CHR 0xC4" "s1 = CHR 0xB0" by (auto intro: byte_eqI)
          with s r d show ?thesis by simp
        qed
      qed
    next
      case three
      show ?thesis
      proof (cases rest)
        case Nil
        with assms s show ?thesis by (simp add: DecodeRune_3 [OF three] RuneError_def)
      next
        case (Cons s1 r1)
        note c1 = this
        show ?thesis
        proof (cases r1)
          case Nil
          with assms s c1 show ?thesis by (simp add: DecodeRune_3 [OF three] RuneError_def)
        next
          case (Cons s2 r2)
          with assms s c1 show ?thesis
            using three_byte_ge [OF three, of "of_char s1" "of_char s2"]
            by (auto simp: DecodeRune_3 [OF three] RuneError_def split: if_splits)
        qed
      qed
    next
      case four
      show ?thesis
      proof (cases rest)
        case Nil
        with assms s show ?thesis by (simp add: DecodeRune_4 [OF four] RuneError_def)
      next
        case (Cons s1 r1)
        note c1 = this
        show ?thesis
        proof (cases r1)
          case Nil
          with assms s c1 show ?thesis by (simp add: DecodeRune_4 [OF four] RuneError_def)
        next
          case (Cons s2 r2)
          note c2 = this
          show ?thesis
          proof (cases r2)
            case Nil
            with assms s c1 c2 show ?thesis by (simp add: DecodeRune_4 [OF four] RuneError_def)
          next
            case (Cons s3 r3)
            with assms s c1 c2 show ?thesis
              using four_byte_ge [OF four, of "of_char s1" "of_char s2" "of_char s3"]
              by (auto simp: DecodeRune_4 [OF four] RuneError_def split: if_splits)
          qed
        qed
      qed
    qed
  qed
qed

lemma DecodeRune_212A:
  assumes "fst (DecodeRune s) = 0x212A"
  shows "\<exists>rest. s = CHR 0xE2 # CHR 0x84 # CHR 0xAA # rest \<and> snd (DecodeRune s) = 3"
proof (cases s)
  case Nil
  with assms show ?thesis by (simp add: DecodeRune_def RuneError_def)
next
  case (Cons s0 rest)
  note s = this
  show ?thesis
  proof (cases "of_char s0 < (0x80::nat)")
    case True
    with assms s show ?thesis by (simp add: DecodeRune_ascii)
  next
    case False
    consider (one) "lead_size (of_char s0) = 1"
      | (two) "194 \<le> (of_char s0::nat)" "(of_char s0::nat) \<le> 223"
      | (three) "224 \<le> (of_char s0::nat)" "(of_char s0::nat) \<le> 239"
      | (four) "240 \<le> (of_char s0::nat)" "(of_char s0::nat) \<le> 244"
      using lead_disj [of "of_char s0"] by blast
    then show ?thesis
    proof cases
      case one
      with assms s False show ?thesis by (simp add: DecodeRune_1 RuneError_def)
    next
      case two
      show ?thesis
      proof (cases rest)
        case Nil
        with assms s show ?thesis by (simp add: DecodeRune_2 [OF two] RuneError_def)
      next
        case (Cons s1 r1)
        with assms s show ?thesis
          using two_byte_lt [of "of_char s0" "of_char s1"]
          by (auto simp: DecodeRune_2 [OF two] RuneError_def split: if_splits)
      qed
    next
      case three
      show ?thesis
      proof (cases rest)
        case Nil
        with assms s show ?thesis by (simp add: DecodeRune_3 [OF three] RuneError_def)
      next
        case (Cons s1 r1)
        note c1 = this
        show ?thesis
        proof (cases r1)
          case Nil
          with assms s c1 show ?thesis by (simp add: DecodeRune_3 [OF three] RuneError_def)
        next
          case (Cons s2 r2)
          note c2 = this
          show ?thesis
          proof (cases "of_char s1 < accept_lo (of_char s0) \<or> accept_hi (of_char s0) < of_char s1
                         \<or> of_char s2 < (0x80::nat) \<or> (0xBF::nat) < of_char s2")
            case True
            with assms s c1 c2 show ?thesis
              by (auto simp: DecodeRune_3 [OF three] RuneError_def split: if_splits)
          next
            case False
            then have a: "128 \<le> (of_char s1::nat)" "(of_char s1::nat) \<le> 191"
              using accept_range [of "of_char s0" "of_char s1"] by simp_all
            from False have b: "128 \<le> (of_char s2::nat)" "(of_char s2::nat) \<le> 191" by simp_all
            from False have d: "DecodeRune s
                = (of_char s0 mod 16 * 4096 + of_char s1 mod 64 * 64 + of_char s2 mod 64, 3)"
              using s c1 c2 by (simp add: DecodeRune_3 [OF three])
            with assms have "of_char s0 mod 16 * 4096 + of_char s1 mod 64 * 64 + of_char s2 mod 64
                = (8490::nat)" by simp
            from three_byte_212A [OF three a b this]
            have "s0 = CHR 0xE2" "s1 = CHR 0x84" "s2 = CHR 0xAA" by (auto intro: byte_eqI)
            with s c1 c2 d show ?thesis by simp
          qed
        qed
      qed
    next
      case four
      show ?thesis
      proof (cases rest)
        case Nil
        with assms s show ?thesis by (simp add: DecodeRune_4 [OF four] RuneError_def)
      next
        case (Cons s1 r1)
        note c1 = this
        show ?thesis
        proof (cases r1)
          case Nil
          with assms s c1 show ?thesis by (simp add: DecodeRune_4 [OF four] RuneError_def)
        next
          case (Cons s2 r2)
          note c2 = this
          show ?thesis
          proof (cases r2)
            case Nil
            with assms s c1 c2 show ?thesis by (simp add: DecodeRune_4 [OF four] RuneError_def)
          next
            case (Cons s3 r3)
            with assms s c1 c2 show ?thesis
              using four_byte_ge [OF four, of "of_char s1" "of_char s2" "of_char s3"]
              by (auto simp: DecodeRune_4 [OF four] RuneError_def split: if_splits)
          qed
        qed
      qed
    qed
  qed
qed


lemma EncodeRune_ascii: "r \<le> 0x7F \<Longrightarrow> EncodeRune r = [char_of r]"
  by (simp add: EncodeRune_def)

lemma high_byte: "128 \<le> n \<Longrightarrow> n < 256 \<Longrightarrow> \<not> is_ascii (char_of (n::nat))"
  by (simp add: is_ascii_def of_char_of)

lemma EncodeRune_high:
  assumes "0x7F < r"
  shows "\<exists>b bs. EncodeRune r = b # bs \<and> \<not> is_ascii b"
proof -
  consider (two) "r \<le> 0x7FF"
    | (bad) "0x7FF < r" "r > 0x10FFFF \<or> (0xD800 \<le> r \<and> r \<le> 0xDFFF)"
    | (three) "0x7FF < r" "r \<le> 0xFFFF" "\<not> (r > 0x10FFFF \<or> (0xD800 \<le> r \<and> r \<le> 0xDFFF))"
    | (four) "0xFFFF < r" "r \<le> 0x10FFFF"
    by linarith
  then show ?thesis
  proof cases
    case two
    then have "r div 64 \<le> 31" by simp
    then have "\<not> is_ascii (char_of (0xC0 + r div 64))" by (intro high_byte) simp_all
    with assms two show ?thesis by (simp add: EncodeRune_def)
  next
    case bad
    with assms show ?thesis by (auto simp: EncodeRune_def is_ascii_def)
  next
    case three
    then have "r div 4096 \<le> 15" by simp
    then have "\<not> is_ascii (char_of (0xE0 + r div 4096))" by (intro high_byte) simp_all
    with assms three show ?thesis by (auto simp: EncodeRune_def)
  next
    case four
    then have "r div 262144 \<le> 4" by simp
    then have "\<not> is_ascii (char_of (0xF0 + r div 262144))" by (intro high_byte) simp_all
    with assms four show ?thesis by (simp add: EncodeRune_def)
  qed
qed

lemma runes_Nil [simp]: "runes [] = []"
  by (simp add: runes.simps)

lemma runes_Cons:
  "runes (b # rest) = fst (DecodeRune (b # rest)) # runes (drop (snd (DecodeRune (b # rest))) (b # rest))"
  by (subst runes.simps) simp

lemma Map_str_Nil [simp]: "Map_str f [] = []"
  by (simp add: Map_str_def)

lemma Map_str_Cons:
  "Map_str f (b # rest) =
     EncodeRune (f (fst (DecodeRune (b # rest))))
       @ Map_str f (drop (snd (DecodeRune (b # rest))) (b # rest))"
  by (simp add: Map_str_def runes_Cons)

lemma unicode_ToLower_ascii:
  "is_ascii b \<Longrightarrow> EncodeRune (unicode_ToLower tbl (of_char b)) = [lower_char b]"
proof -
  assume "is_ascii b"
  then have a: "of_char b \<le> (0x7F::nat)" by (simp add: is_ascii_def)
  show ?thesis
  proof (cases "65 \<le> (of_char b::nat) \<and> (of_char b::nat) \<le> 90")
    case True
    then have "unicode_ToLower tbl (of_char b) = of_char b + 32"
      by (simp add: unicode_ToLower_def)
    with True show ?thesis by (simp add: EncodeRune_def lower_char_def)
  next
    case False
    with a have "unicode_ToLower tbl (of_char b) = of_char b"
      by (auto simp: unicode_ToLower_def)
    with False a show ?thesis by (auto simp: EncodeRune_def lower_char_def)
  qed
qed

lemma Map_lower_ascii:
  "is_ascii b \<Longrightarrow>
     Map_str (unicode_ToLower tbl) (b # rest) = lower_char b # Map_str (unicode_ToLower tbl) rest"
proof -
  assume a: "is_ascii b"
  then have d: "DecodeRune (b # rest) = (of_char b, 1)"
    by (simp add: is_ascii_def DecodeRune_ascii)
  show ?thesis by (simp add: Map_str_Cons d unicode_ToLower_ascii [OF a])
qed

lemma DecodeRune_dotted_I: "DecodeRune (CHR 0xC4 # CHR 0xB0 # rest) = (0x130, 2)"
  by (simp add: DecodeRune_def Let_def lead_size_def accept_lo_def accept_hi_def)

lemma DecodeRune_kelvin: "DecodeRune (CHR 0xE2 # CHR 0x84 # CHR 0xAA # rest) = (0x212A, 3)"
  by (simp add: DecodeRune_def Let_def lead_size_def accept_lo_def accept_hi_def)


lemma Map_lower_Cons_iff:
  assumes ok: "lower_table_ok tbl" and c: "is_ascii c"
  shows "Map_str (unicode_ToLower tbl) s = c # t \<longleftrightarrow>
     (\<exists>b rest. s = b # rest \<and> is_ascii b \<and> lower_char b = c
          \<and> Map_str (unicode_ToLower tbl) rest = t)
   \<or> (c = CHR ''i'' \<and> (\<exists>rest. s = CHR 0xC4 # CHR 0xB0 # rest
          \<and> Map_str (unicode_ToLower tbl) rest = t))
   \<or> (c = CHR ''k'' \<and> (\<exists>rest. s = CHR 0xE2 # CHR 0x84 # CHR 0xAA # rest
          \<and> Map_str (unicode_ToLower tbl) rest = t))"
proof (cases s)
  case Nil
  then show ?thesis by simp
next
  case (Cons b rest)
  note s = this
  show ?thesis
  proof (cases "is_ascii b")
    case True
    then have "b \<noteq> CHR 0xC4" "b \<noteq> CHR 0xE2" by (auto simp: is_ascii_def)
    with True s show ?thesis by (auto simp: Map_lower_ascii)
  next
    case False
    then have h: "0x7F < fst (DecodeRune (b # rest))"
      using DecodeRune_high [of b rest] by (simp add: is_ascii_def)
    let ?r = "fst (DecodeRune (b # rest))"
    consider (dotted) "?r = 0x130" | (kelvin) "?r = 0x212A" | (other) "?r \<noteq> 0x130" "?r \<noteq> 0x212A"
      by blast
    then show ?thesis
    proof cases
      case dotted
      from DecodeRune_130 [OF dotted] obtain rest2 where
        r: "b # rest = CHR 0xC4 # CHR 0xB0 # rest2" by blast
      from ok have "unicode_ToLower tbl 0x130 = 0x69"
        by (simp add: unicode_ToLower_def lower_table_ok_def)
      then have "Map_str (unicode_ToLower tbl) (CHR 0xC4 # CHR 0xB0 # rest2)
          = CHR ''i'' # Map_str (unicode_ToLower tbl) rest2"
        by (simp add: Map_str_Cons DecodeRune_dotted_I EncodeRune_def char_of_eq_iff)
      with r s False show ?thesis by (auto simp: is_ascii_def)
    next
      case kelvin
      from DecodeRune_212A [OF kelvin] obtain rest2 where
        r: "b # rest = CHR 0xE2 # CHR 0x84 # CHR 0xAA # rest2" by blast
      from ok have "unicode_ToLower tbl 0x212A = 0x6B"
        by (simp add: unicode_ToLower_def lower_table_ok_def)
      then have "Map_str (unicode_ToLower tbl) (CHR 0xE2 # CHR 0x84 # CHR 0xAA # rest2)
          = CHR ''k'' # Map_str (unicode_ToLower tbl) rest2"
        by (simp add: Map_str_Cons DecodeRune_kelvin EncodeRune_def char_of_eq_iff)
      with r s False show ?thesis by (auto simp: is_ascii_def)
    next
      case other
      with h ok have "0x7F < unicode_ToLower tbl ?r"
        by (simp add: unicode_ToLower_def lower_table_ok_def)
      from EncodeRune_high [OF this] obtain x xs where
        e: "EncodeRune (unicode_ToLower tbl ?r) = x # xs" "\<not> is_ascii x" by blast
      with c have l: "Map_str (unicode_ToLower tbl) (b # rest) \<noteq> c # t"
        by (auto simp: Map_str_Cons)
      from other have "\<forall>rest2. b # rest \<noteq> CHR 0xC4 # CHR 0xB0 # rest2"
        using DecodeRune_dotted_I by auto
      moreover from other have "\<forall>rest2. b # rest \<noteq> CHR 0xE2 # CHR 0x84 # CHR 0xAA # rest2"
        using DecodeRune_kelvin by auto
      ultimately show ?thesis using l s False by auto
    qed
  qed
qed

lemma Map_lower_Cons_ne: "Map_str f (b # rest) \<noteq> []"
proof -
  have "EncodeRune r \<noteq> []" for r by (simp add: EncodeRune_def)
  then show ?thesis by (simp add: Map_str_Cons)
qed

lemma ToLower_Map: "ToLower tbl s = Map_str (unicode_ToLower tbl) s"
proof (cases "list_all is_ascii s")
  case True
  then have "map lower_char s = Map_str (unicode_ToLower tbl) s"
    by (induction s) (simp_all add: Map_lower_ascii)
  with True show ?thesis by (simp add: ToLower_def)
next
  case False
  then show ?thesis by (simp add: ToLower_def)
qed

lemma lower_same_letter:
  "is_ascii b \<Longrightarrow> lower_char b = b \<Longrightarrow> (is_ascii a \<and> lower_char a = b) \<longleftrightarrow> same_letter a b"
  by (auto simp: lower_char_def same_letter_def is_ascii_def char_of_eq_iff split: if_splits)

lemma ToLower_eq_iff:
  assumes "lower_table_ok tbl"
  shows "\<forall>c \<in> set t. is_ascii c \<and> lower_char c = c \<and> c \<noteq> CHR ''i'' \<and> c \<noteq> CHR ''k''
     \<Longrightarrow> ToLower tbl s = t \<longleftrightarrow> case_insensitively_equal s t"
proof (induction s t rule: case_insensitively_equal.induct)
  case 1
  then show ?case by (simp add: ToLower_Map)
next
  case (2 a as b bs)
  then have b: "is_ascii b" "lower_char b = b" "b \<noteq> CHR ''i''" "b \<noteq> CHR ''k''" by simp_all
  from 2 have ih: "ToLower tbl as = bs \<longleftrightarrow> case_insensitively_equal as bs" by simp
  show ?case
    using Map_lower_Cons_iff [OF assms b(1), of "a # as" bs] lower_same_letter [OF b(1,2), of a] b ih
    by (auto simp: ToLower_Map)
qed (simp_all add: ToLower_Map Map_lower_Cons_ne)


lemma cie_Cons:
  "case_insensitively_equal s (c # t) \<longleftrightarrow>
     (\<exists>b rest. s = b # rest \<and> same_letter b c \<and> case_insensitively_equal rest t)"
  by (cases s) auto

lemma lower_consts:
  "\<forall>c \<in> set ''table''. is_ascii c \<and> lower_char c = c \<and> c \<noteq> CHR ''i'' \<and> c \<noteq> CHR ''k''"
  "\<forall>c \<in> set ''json''. is_ascii c \<and> lower_char c = c \<and> c \<noteq> CHR ''i'' \<and> c \<noteq> CHR ''k''"
  "\<forall>c \<in> set ''yaml''. is_ascii c \<and> lower_char c = c \<and> c \<noteq> CHR ''i'' \<and> c \<noteq> CHR ''k''"
  "\<forall>c \<in> set ''de''. is_ascii c \<and> lower_char c = c \<and> c \<noteq> CHR ''i'' \<and> c \<noteq> CHR ''k''"
  by (simp_all add: lower_char_def is_ascii_def)

lemma ToLower_wide:
  assumes ok: "lower_table_ok tbl"
  shows "ToLower tbl s = ''wide'' \<longleftrightarrow> case_insensitively_equal s ''wide'' \<or> dotted_wide s"
proof -
  let ?M = "Map_str (unicode_ToLower tbl)"
  have de: "?M r = ''de'' \<longleftrightarrow> case_insensitively_equal r ''de''" for r
    using ToLower_eq_iff [OF ok lower_consts(4), of r] by (simp add: ToLower_Map)
  have i: "is_ascii CHR ''i''" "lower_char CHR ''i'' = CHR ''i''"
    and w: "is_ascii CHR ''w''" "lower_char CHR ''w'' = CHR ''w''"
    by (simp_all add: is_ascii_def lower_char_def)
  have ide: "?M r = ''ide'' \<longleftrightarrow>
      case_insensitively_equal r ''ide''
      \<or> (\<exists>r2. r = CHR 0xC4 # CHR 0xB0 # r2 \<and> case_insensitively_equal r2 ''de'')" for r
    using Map_lower_Cons_iff [OF ok i(1), of r "''de''"] lower_same_letter [OF i]
    by (simp add: de cie_Cons [of r]) blast
  have "?M s = ''wide'' \<longleftrightarrow>
      (\<exists>b rest. s = b # rest \<and> same_letter b CHR ''w'' \<and> ?M rest = ''ide'')"
    using Map_lower_Cons_iff [OF ok w(1), of s "''ide''"] lower_same_letter [OF w]
    by simp blast
  also have "\<dots> \<longleftrightarrow> case_insensitively_equal s ''wide'' \<or> dotted_wide s"
    unfolding ide by (cases s) (auto simp: dotted_wide_def split: list.splits)
  finally show ?thesis by (simp add: ToLower_Map)
qed

lemma lower_table0_ok: "lower_table_ok lower_table0"
  by (simp add: lower_table_ok_def lower_table0_def)

text \<open>
  C5 as stated fails: the format \<open>wide\<close> spelled with U+0130 for its second letter is
  not equal, up to case, to any of the four names, yet \<open>GetFormatterWithHeaders\<close>
  returns a table formatter for it, because \<^verbatim>\<open>strings.ToLower\<close> maps U+0130 to \<open>i\<close>.
\<close>

theorem dotted_wide_counterexample:
  "GetFormatterWithHeaders lower_table0 format_dotted [''NAME''] = Inr (TableFormatter [''NAME''])
   \<and> \<not> case_insensitively_equal format_dotted ''table''
   \<and> \<not> case_insensitively_equal format_dotted ''wide''
   \<and> \<not> case_insensitively_equal format_dotted ''json''
   \<and> \<not> case_insensitively_equal format_dotted ''yaml''"
proof -
  have "ToLower lower_table0 format_dotted = ''wide''"
    by (simp add: ToLower_def format_dotted_def is_ascii_def Map_str_def runes.simps
          DecodeRune_dotted_I DecodeRune_ascii unicode_ToLower_def lower_table0_def
          EncodeRune_def char_of_eq_iff)
  then show ?thesis
    by (simp add: GetFormatterWithHeaders_def Let_def FormatJSON_def FormatYAML_def
          FormatTable_def FormatWide_def format_dotted_def same_letter_def)
qed

text \<open>
  C5, as amended. \<open>GetFormatterWithHeaders\<close> returns the table formatter with the given
  headers exactly when the format equals \<open>table\<close> or \<open>wide\<close> up to case or is \<open>wide\<close>
  spelled with U+0130 for its second letter, the JSON formatter exactly when it equals
  \<open>json\<close> up to case, the YAML formatter exactly when it equals \<open>yaml\<close> up to case, and an
  error for every other format; it returns nothing else.
\<close>

theorem GetFormatterWithHeaders_formats:
  assumes "lower_table_ok tbl"
  shows "(GetFormatterWithHeaders tbl format headers = Inr (TableFormatter headers) \<longleftrightarrow>
            case_insensitively_equal format ''table'' \<or> case_insensitively_equal format ''wide''
            \<or> dotted_wide format)
       \<and> (GetFormatterWithHeaders tbl format headers = Inr (JSONFormatter True) \<longleftrightarrow>
            case_insensitively_equal format ''json'')
       \<and> (GetFormatterWithHeaders tbl format headers = Inr YAMLFormatter \<longleftrightarrow>
            case_insensitively_equal format ''yaml'')
       \<and> (isl (GetFormatterWithHeaders tbl format headers) \<longleftrightarrow>
            \<not> (case_insensitively_equal format ''table'' \<or> case_insensitively_equal format ''wide''
               \<or> dotted_wide format
               \<or> case_insensitively_equal format ''json'' \<or> case_insensitively_equal format ''yaml''))
       \<and> (\<exists>e. GetFormatterWithHeaders tbl format headers = Inl e
             \<or> GetFormatterWithHeaders tbl format headers = Inr (TableFormatter headers)
             \<or> GetFormatterWithHeaders tbl format headers = Inr (JSONFormatter True)
             \<or> GetFormatterWithHeaders tbl format headers = Inr YAMLFormatter)"
  using ToLower_eq_iff [OF assms lower_consts(1), of format] ToLower_wide [OF assms, of format]
    ToLower_eq_iff [OF assms lower_consts(2), of format] ToLower_eq_iff [OF assms lower_consts(3), of format]
  by (auto simp: GetFormatterWithHeaders_def Let_def FormatJSON_def FormatYAML_def
        FormatTable_def FormatWide_def)

text \<open>The format \<open>WiDe\<close> gives a table formatter, the format \<open>csv\<close> an error.\<close>

theorem GetFormatterWithHeaders_formats_witness:
  "lower_table_ok lower_table0
   \<and> GetFormatterWithHeaders lower_table0 ''WiDe'' [''NAME''] = Inr (TableFormatter [''NAME''])
   \<and> case_insensitively_equal ''WiDe'' ''wide''
   \<and> dotted_wide format_dotted
   \<and> isl (GetFormatterWithHeaders lower_table0 ''csv'' [''NAME''])"
proof -
  have w: "case_insensitively_equal ''WiDe'' ''wide''" by (simp add: same_letter_def)
  have d: "dotted_wide format_dotted" by (simp add: dotted_wide_def format_dotted_def same_letter_def)
  have n: "\<not> (case_insensitively_equal ''csv'' ''table'' \<or> case_insensitively_equal ''csv'' ''wide''
               \<or> dotted_wide ''csv''
               \<or> case_insensitively_equal ''csv'' ''json'' \<or> case_insensitively_equal ''csv'' ''yaml'')"
    by (simp add: same_letter_def dotted_wide_def)
  from GetFormatterWithHeaders_formats [OF lower_table0_ok, of "''WiDe''" "[''NAME'']"]
    GetFormatterWithHeaders_formats [OF lower_table0_ok, of "''csv''" "[''NAME'']"]
    lower_table0_ok w d n show ?thesis by blast
qed

section \<open>Requests and their URLs\<close>

lemma TrimSuffix_slash:
  "s \<noteq> [] \<Longrightarrow> TrimSuffix s ''/'' = (if last s = CHR ''/'' then butlast s else s)"
proof -
  assume ne: "s \<noteq> []"
  then have d: "drop (length s - 1) s = [last s]"
    by (metis append_butlast_last_id append_eq_conv_conj length_butlast)
  have t: "take (length s - 1) s = butlast s" by (simp add: butlast_conv_take)
  from ne have "1 \<le> length s" by (cases s) auto
  with d t show ?thesis by (simp add: TrimSuffix_def)
qed

lemma doRequest_cases:
  assumes "doRequest env c meth pth body tr = (r, tr')"
  obtains (unsent) "tr' = tr" "isl r"
  | (failed) e where "Do env tr (httpClient c) (built_request c meth pth body) = Inl e"
      "r = Inl (Wrapf ''request failed'' e)"
      "tr' = tr @ [(httpClient c, built_request c meth pth body)]"
  | (answered) resp where "Do env tr (httpClient c) (built_request c meth pth body) = Inr resp"
      "r = Inr resp"
      "tr' = tr @ [(httpClient c, built_request c meth pth body)]"
proof (cases "case body of None \<Rightarrow> None | Some b \<Rightarrow> Marshal env b")
  case (Some e)
  with assms have "tr' = tr" "isl r" by (auto simp: doRequest_def)
  then show ?thesis by (rule unsent)
next
  case None
  note m = this
  show ?thesis
  proof (cases "NewRequest env meth (baseURL c @ pth)")
    case (Some e)
    with assms m have "tr' = tr" "isl r" by (auto simp: doRequest_def)
    then show ?thesis by (rule unsent)
  next
    case None
    note n = this
    show ?thesis
    proof (cases "Do env tr (httpClient c) (built_request c meth pth body)")
      case (Inl e)
      with assms m n have "r = Inl (Wrapf ''request failed'' e)"
        "tr' = tr @ [(httpClient c, built_request c meth pth body)]"
        by (auto simp: doRequest_def Let_def)
      with Inl show ?thesis by (rule failed)
    next
      case (Inr resp)
      with assms m n have "r = Inr resp"
        "tr' = tr @ [(httpClient c, built_request c meth pth body)]"
        by (auto simp: doRequest_def Let_def)
      with Inr show ?thesis by (rule answered)
    qed
  qed
qed

lemma doRequest_sends:
  "snd (doRequest env c meth pth body tr) = tr
   \<or> snd (doRequest env c meth pth body tr) = tr @ [(httpClient c, built_request c meth pth body)]"
  by (rule doRequest_cases [of env c meth pth body tr "fst (doRequest env c meth pth body tr)"
                           "snd (doRequest env c meth pth body tr)"]) simp_all

lemma built_request_sel [simp]:
  "Method (built_request c meth pth body) = meth"
  "URL (built_request c meth pth body) = baseURL c @ pth"
  "Body (built_request c meth pth body) = body"
  by (simp_all add: built_request_def)

lemma nodeClient_List_sends:
  "snd (nodeClient_List env c tr) = snd (doRequest env c ''GET'' ''/nodes'' None tr)"
  by (simp add: nodeClient_List_def split: prod.splits sum.splits)

lemma nodeClient_List'_sends:
  "snd (nodeClient_List' env c tr) = snd (doRequest env c ''GET'' ''/nodes'' None tr)"
  by (simp add: nodeClient_List'_def split: prod.splits sum.splits)

lemma settingsClient_List_sends:
  "snd (settingsClient_List env c tr) = snd (doRequest env c ''GET'' ''/settings'' None tr)"
  by (simp add: settingsClient_List_def split: prod.splits sum.splits)

lemma NewClient_baseURL:
  "NewClient cfg = Inr c \<Longrightarrow>
     baseURL c = (if last (ClientConfig.Endpoint cfg) = CHR ''/''
                  then butlast (ClientConfig.Endpoint cfg) else ClientConfig.Endpoint cfg) @ ''/v1''"
  by (auto simp: NewClient_def Let_def TrimSuffix_slash split: if_splits)


lemma doRequest_trace:
  "snd (doRequest env c meth pth body tr) =
     (if (case body of None \<Rightarrow> None | Some b \<Rightarrow> Marshal env b) = None
         \<and> NewRequest env meth (baseURL c @ pth) = None
      then tr @ [(httpClient c, built_request c meth pth body)] else tr)"
  by (simp add: doRequest_def Let_def split: option.splits sum.splits)

lemma wire_from_append:
  "wire_from env b (xs @ ys) = wire_from env b xs @ wire_from env (b @ xs) ys"
  by (induction xs arbitrary: b) simp_all

lemma wire_snoc:
  "wire env (tr @ [(hc, rq)]) = wire env tr @ (hc, rq) # map (Pair hc) (Redirects env tr hc rq)"
  by (simp add: wire_def wire_from_append)

lemma wire_no_redirects: "(\<And>t hc rq. Redirects env t hc rq = []) \<Longrightarrow> wire_from env b tr = tr"
  by (induction tr arbitrary: b) simp_all

text \<open>
  C4 as stated fails: the server \<open>env_redirect\<close> answers the request for the node list
  with a redirect, and the \<^verbatim>\<open>http.Client\<close>, which follows redirects, issues a second
  request, to a URL that is not the endpoint followed by \<open>/v1/nodes\<close>.
\<close>

theorem redirect_counterexample:
  "map (\<lambda>s. URL (snd s)) (wire env_redirect (snd (nodeClient_List' env_redirect client_http [])))
     = [''http://lh/v1/nodes'', ''http://elsewhere/v1/nodes'']
   \<and> ''http://elsewhere/v1/nodes'' \<noteq> baseURL client_http @ ''/nodes''"
  by (simp add: nodeClient_List'_sends doRequest_trace env_redirect_def env_ok_def wire_def
        client_http_def built_request_def)

text \<open>
  C4, as amended. \<open>NewClient\<close> returns an error exactly when the endpoint is empty.
  Otherwise the base URL of the client is the endpoint, without its last byte when that
  is a slash, followed by \<open>/v1\<close>. Every call of \<open>doRequest\<close> hands to \<^verbatim>\<open>Do\<close> exactly one
  request when \<^verbatim>\<open>json.Marshal\<close> and \<^verbatim>\<open>http.NewRequest\<close> accept it and none otherwise; that
  request has the given method and goes to the base URL followed by the path. On the
  wire it is followed by the requests with which \<^verbatim>\<open>http.Client\<close> follows the redirects
  of the server, and by nothing else. So listing nodes (either version of the node
  client) sends a \<open>GET\<close> to \<open>{endpoint}/v1/nodes\<close> and listing settings a \<open>GET\<close> to
  \<open>{endpoint}/v1/settings\<close>, whenever \<^verbatim>\<open>http.NewRequest\<close> accepts the URL.
\<close>

theorem request_URLs:
  "(isl (NewClient cfg) \<longleftrightarrow> ClientConfig.Endpoint cfg = [])
   \<and> (\<forall>c. NewClient cfg = Inr c \<longrightarrow>
        baseURL c = (if last (ClientConfig.Endpoint cfg) = CHR ''/''
                     then butlast (ClientConfig.Endpoint cfg) else ClientConfig.Endpoint cfg) @ ''/v1''
        \<and> (\<forall>meth pth body.
              Method (built_request c meth pth body) = meth
              \<and> URL (built_request c meth pth body) = baseURL c @ pth
              \<and> snd (doRequest env c meth pth body tr) =
                  (if (case body of None \<Rightarrow> None | Some b \<Rightarrow> Marshal env b) = None
                      \<and> NewRequest env meth (baseURL c @ pth) = None
                   then tr @ [(httpClient c, built_request c meth pth body)] else tr)
              \<and> wire env (tr @ [(httpClient c, built_request c meth pth body)]) =
                  wire env tr @ (httpClient c, built_request c meth pth body)
                    # map (Pair (httpClient c))
                        (Redirects env tr (httpClient c) (built_request c meth pth body)))
        \<and> snd (nodeClient_List env c tr) =
             (if NewRequest env ''GET'' (baseURL c @ ''/nodes'') = None
              then tr @ [(httpClient c, built_request c ''GET'' ''/nodes'' None)] else tr)
        \<and> snd (nodeClient_List' env c tr) =
             (if NewRequest env ''GET'' (baseURL c @ ''/nodes'') = None
              then tr @ [(httpClient c, built_request c ''GET'' ''/nodes'' None)] else tr)
        \<and> snd (settingsClient_List env c tr) =
             (if NewRequest env ''GET'' (baseURL c @ ''/settings'') = None
              then tr @ [(httpClient c, built_request c ''GET'' ''/settings'' None)] else tr))"
proof (intro conjI allI impI)
  show "isl (NewClient cfg) \<longleftrightarrow> ClientConfig.Endpoint cfg = []"
    by (simp add: NewClient_def Let_def)
next
  fix c assume "NewClient cfg = Inr c"
  then show "baseURL c = (if last (ClientConfig.Endpoint cfg) = CHR ''/''
                     then butlast (ClientConfig.Endpoint cfg) else ClientConfig.Endpoint cfg) @ ''/v1''"
    by (rule NewClient_baseURL)
next
  fix c :: Client and meth pth body
  show "Method (built_request c meth pth body) = meth"
    and "URL (built_request c meth pth body) = baseURL c @ pth"
    by simp_all
  show "snd (doRequest env c meth pth body tr) =
          (if (case body of None \<Rightarrow> None | Some b \<Rightarrow> Marshal env b) = None
              \<and> NewRequest env meth (baseURL c @ pth) = None
           then tr @ [(httpClient c, built_request c meth pth body)] else tr)"
    by (rule doRequest_trace)
  show "wire env (tr @ [(httpClient c, built_request c meth pth body)]) =
          wire env tr @ (httpClient c, built_request c meth pth body)
            # map (Pair (httpClient c))
                (Redirects env tr (httpClient c) (built_request c meth pth body))"
    by (rule wire_snoc)
next
  fix c :: Client
  show "snd (nodeClient_List env c tr) =
             (if NewRequest env ''GET'' (baseURL c @ ''/nodes'') = None
              then tr @ [(httpClient c, built_request c ''GET'' ''/nodes'' None)] else tr)"
    by (simp add: nodeClient_List_sends doRequest_trace)
  show "snd (nodeClient_List' env c tr) =
             (if NewRequest env ''GET'' (baseURL c @ ''/nodes'') = None
              then tr @ [(httpClient c, built_request c ''GET'' ''/nodes'' None)] else tr)"
    by (simp add: nodeClient_List'_sends doRequest_trace)
  show "snd (settingsClient_List env c tr) =
             (if NewRequest env ''GET'' (baseURL c @ ''/settings'') = None
              then tr @ [(httpClient c, built_request c ''GET'' ''/settings'' None)] else tr)"
    by (simp add: settingsClient_List_sends doRequest_trace)
qed

text \<open>
  The endpoint \<open>http://lh/\<close> gives the base URL \<open>http://lh/v1\<close>. Against a server that
  accepts every request and never redirects, listing the nodes sends one \<open>GET\<close> to
  \<open>http://lh/v1/nodes\<close> and listing the settings one \<open>GET\<close> to \<open>http://lh/v1/settings\<close>.
\<close>

theorem request_URLs_witness:
  "NewClient cfg_http = Inr client_http
   \<and> baseURL client_http = ''http://lh/v1''
   \<and> snd (nodeClient_List env_ok client_http [])
       = [(httpClient client_http, built_request client_http ''GET'' ''/nodes'' None)]
   \<and> snd (nodeClient_List' env_ok client_http [])
       = [(httpClient client_http, built_request client_http ''GET'' ''/nodes'' None)]
   \<and> snd (settingsClient_List env_ok client_http [])
       = [(httpClient client_http, built_request client_http ''GET'' ''/settings'' None)]
   \<and> URL (built_request client_http ''GET'' ''/nodes'' None) = ''http://lh/v1/nodes''
   \<and> URL (built_request client_http ''GET'' ''/settings'' None) = ''http://lh/v1/settings''
   \<and> wire env_ok [(httpClient client_http, built_request client_http ''GET'' ''/nodes'' None)]
       = [(httpClient client_http, built_request client_http ''GET'' ''/nodes'' None)]"
proof -
  have a: "NewClient cfg_http = Inr client_http"
    by (simp add: NewClient_def cfg_http_def client_http_def TrimSuffix_def Let_def)
  have u: "baseURL client_http = ''http://lh/v1''"
    by (simp add: client_http_def)
  have n: "NewRequest env_ok m x = None" "Redirects env_ok t h r = []" for m x t h r
    by (simp_all add: env_ok_def)
  have w: "wire env_ok [] = []" by (simp add: wire_def)
  note r = request_URLs [of cfg_http env_ok "[]", THEN conjunct2, rule_format, OF a]
  from r a u n w show ?thesis by simp
qed

section \<open>Adding a tag to a node\<close>


lemma Get_success_iff:
  "nodeClient_Get env c name tr = (Inr node, tr1) \<longleftrightarrow> nodeClient_Get' env c name tr = (Inr node, tr1)"
  by (cases "doRequest env c ''GET'' (''/nodes/'' @ name) None tr")
     (auto simp: nodeClient_Get_def nodeClient_Get'_def split: sum.splits)

lemma Update_trace:
  "snd (nodeClient_Update env c name upd tr)
     = snd (doRequest env c ''PUT'' (''/nodes/'' @ name) (Some (PNodeUpdate upd)) tr)"
  "snd (nodeClient_Update' env c name upd tr)
     = snd (doRequest env c ''PUT'' (''/nodes/'' @ name) (Some (PNodeUpdate upd)) tr)"
  by (simp_all add: nodeClient_Update_def nodeClient_Update'_def split: prod.splits sum.splits)

lemma snd_err_of: "snd (err_of r) = snd r"
  by (simp add: err_of_def split: prod.splits sum.splits)


lemma Get'_cases:
  assumes "nodeClient_Get' env c name tr = (r, tr1)"
  obtains (unsent) "tr1 = tr" "isl r"
  | (failed) "tr1 = tr @ [(httpClient c, built_request c ''GET'' (''/nodes/'' @ name) None)]" "isl r"
  | (answered) "tr1 = tr @ [(httpClient c, built_request c ''GET'' (''/nodes/'' @ name) None)]"
      "\<not> isl (Do env tr (httpClient c) (built_request c ''GET'' (''/nodes/'' @ name) None))"
proof -
  obtain r0 tr0 where d: "doRequest env c ''GET'' (''/nodes/'' @ name) None tr = (r0, tr0)"
    by (cases "doRequest env c ''GET'' (''/nodes/'' @ name) None tr")
  from assms d have t: "tr1 = tr0" and i: "isl r0 \<Longrightarrow> isl r"
    by (auto simp: nodeClient_Get'_def split: sum.splits if_splits)
  from d show ?thesis
  proof (cases rule: doRequest_cases)
    case unsent
    with t i show ?thesis by (intro that(1)) auto
  next
    case (failed e)
    with t i show ?thesis by (intro that(2)) auto
  next
    case (answered resp)
    with t show ?thesis by (intro that(3)) auto
  qed
qed






section \<open>How many requests an operation sends\<close>

text \<open>
  C2 as stated fails: against the server \<open>env_ok\<close>, one call of \<open>AddNodeTag\<close> with a tag
  the node does not carry calls \<^verbatim>\<open>Do\<close> twice, not at most once; and against the server
  \<open>env_redirect\<close> the single call of \<^verbatim>\<open>Do\<close> that lists the nodes issues two HTTP requests.
\<close>

theorem single_request_counterexample:
  "\<not> length (snd (nodeClient_AddNodeTag' env_ok client_http ''n1'' ''fast'' [])) \<le> 1
   \<and> length (snd (nodeClient_List' env_redirect client_http [])) = 1
   \<and> length (wire env_redirect (snd (nodeClient_List' env_redirect client_http []))) = 2"
proof -
  have "\<not> length (snd (nodeClient_AddNodeTag' env_ok client_http ''n1'' ''fast'' [])) \<le> 1"
    by (simp add: nodeClient_AddNodeTag'_def nodeClient_Get'_def nodeClient_Update'_def
          doRequest_def env_ok_def node_a_def Let_def err_of_def NodeUpdate_zero_def)
  moreover have "snd (nodeClient_List' env_redirect client_http [])
      = [(httpClient client_http, built_request client_http ''GET'' ''/nodes'' None)]"
    by (simp add: nodeClient_List'_sends doRequest_trace env_redirect_def env_ok_def)
  ultimately show ?thesis by (simp add: wire_def env_redirect_def)
qed

lemma issues_0: "issues env c k tr tr"
  by (simp add: issues_def)

lemma issues_1: "issues env c (Suc k) tr (tr @ [(httpClient c, a)])"
  by (simp add: issues_def)

lemma issues_2:
  "\<not> isl (Do env tr (httpClient c) a) \<Longrightarrow> a \<noteq> b \<Longrightarrow>
     issues env c (Suc (Suc k)) tr (tr @ [(httpClient c, a), (httpClient c, b)])"
  by (simp add: issues_def)

lemma issues_3:
  "\<not> isl (Do env tr (httpClient c) a) \<Longrightarrow>
   \<not> isl (Do env (tr @ [(httpClient c, a)]) (httpClient c) b) \<Longrightarrow>
   a \<noteq> b \<Longrightarrow> a \<noteq> d \<Longrightarrow> b \<noteq> d \<Longrightarrow>
     issues env c (Suc (Suc (Suc k))) tr
       (tr @ [(httpClient c, a), (httpClient c, b), (httpClient c, d)])"
  by (simp add: issues_def)


lemma issues_doRequest: "issues env c (Suc k) tr (snd (doRequest env c meth pth body tr))"
  using doRequest_sends [of env c meth pth body tr] by (auto simp: issues_0 issues_1)

lemma one_request_ops:
  "snd (nodeClient_Get env c name tr) = snd (doRequest env c ''GET'' (''/nodes/'' @ name) None tr)"
  "snd (nodeClient_Get' env c name tr) = snd (doRequest env c ''GET'' (''/nodes/'' @ name) None tr)"
  "snd (nodeClient_RemoveDisk' env c name diskID tr)
     = snd (doRequest env c ''DELETE'' (''/nodes/'' @ name @ ''/disks/'' @ diskID) None tr)"
  "snd (nodeClient_UpdateDiskTags' env c name diskID tags tr)
     = snd (doRequest env c ''PATCH'' (''/nodes/'' @ name @ ''/disks/'' @ diskID)
             (Some (PMap [(''tags'', JStrings tags)])) tr)"
  "snd (settingsClient_Get env c name tr) = snd (doRequest env c ''GET'' (''/settings/'' @ name) None tr)"
  "snd (engineImageClient_List env c tr) = snd (doRequest env c ''GET'' ''/engineimages'' None tr)"
  "snd (settingsClient_Update env c name v tr)
     = snd (doRequest env c ''PUT'' (''/settings/'' @ name) (Some (PMap [(''value'', JString v)])) tr)"
  "snd (engineImageClient_Get env c name tr)
     = snd (doRequest env c ''GET'' (''/engineimages/'' @ name) None tr)"
  "snd (engineImageClient_Delete env c name tr)
     = snd (doRequest env c ''DELETE'' (''/engineimages/'' @ name) None tr)"
  by (simp_all add: nodeClient_Get_def nodeClient_Get'_def nodeClient_RemoveDisk'_def
        nodeClient_UpdateDiskTags'_def settingsClient_Get_def engineImageClient_List_def
        settingsClient_Update_def engineImageClient_Get_def engineImageClient_Delete_def
        split: prod.splits sum.splits)

lemma get_then_forms:
  assumes "\<And>node tr1. nodeClient_Get' env c name tr = (Inr node, tr1) \<Longrightarrow>
             snd (f (Inr node, tr1)) = tr1
             \<or> (\<exists>rq. Method rq = m \<and> snd (f (Inr node, tr1)) = tr1 @ [(httpClient c, rq)])"
    and "\<And>e tr1. snd (f (Inl e, tr1)) = tr1"
  shows "snd (f (nodeClient_Get' env c name tr)) = tr
     \<or> snd (f (nodeClient_Get' env c name tr))
          = tr @ [(httpClient c, built_request c ''GET'' (''/nodes/'' @ name) None)]
     \<or> (\<exists>rq. Method rq = m
            \<and> \<not> isl (Do env tr (httpClient c) (built_request c ''GET'' (''/nodes/'' @ name) None))
            \<and> snd (f (nodeClient_Get' env c name tr))
                 = tr @ [(httpClient c, built_request c ''GET'' (''/nodes/'' @ name) None),
                         (httpClient c, rq)])"
proof -
  obtain r tr1 where g: "nodeClient_Get' env c name tr = (r, tr1)"
    by (cases "nodeClient_Get' env c name tr")
  from g show ?thesis
  proof (cases rule: Get'_cases)
    case unsent
    then obtain e where "r = Inl e" by (cases r) auto
    with unsent g assms(2) show ?thesis by simp
  next
    case failed
    then obtain e where "r = Inl e" by (cases r) auto
    with failed g assms(2) show ?thesis by simp
  next
    case answered
    show ?thesis
    proof (cases r)
      case (Inl e)
      with answered g assms(2) show ?thesis by simp
    next
      case (Inr node)
      with g assms(1) [of node tr1] answered show ?thesis by auto
    qed
  qed
qed

lemma issues_forms2:
  assumes "t = tr \<or> t = tr @ [(httpClient c, a)]
     \<or> (\<exists>rq. Method rq = m \<and> \<not> isl (Do env tr (httpClient c) a) \<and>
            t = tr @ [(httpClient c, a), (httpClient c, rq)])"
    and "Method a \<noteq> m"
  shows "issues env c (Suc (Suc k)) tr t"
proof -
  consider "t = tr" | "t = tr @ [(httpClient c, a)]"
    | rq where "Method rq = m" "\<not> isl (Do env tr (httpClient c) a)"
        "t = tr @ [(httpClient c, a), (httpClient c, rq)]"
    using assms(1) by blast
  then show ?thesis
  proof cases
    case 1
    then show ?thesis by (simp add: issues_0)
  next
    case 2
    then show ?thesis by (simp add: issues_1)
  next
    case 3
    from 3(1) assms(2) have "a \<noteq> rq" by auto
    with 3 show ?thesis by (simp add: issues_2)
  qed
qed

lemma doRequest_sends_method:
  "snd (doRequest env c meth pth body tr) = tr
   \<or> (\<exists>rq. Method rq = meth \<and> snd (doRequest env c meth pth body tr) = tr @ [(httpClient c, rq)])"
  using doRequest_sends [of env c meth pth body tr] built_request_sel(1) by metis

lemma AddNodeTag'_forms:
  "snd (nodeClient_AddNodeTag' env c name tag tr) = tr
     \<or> snd (nodeClient_AddNodeTag' env c name tag tr)
          = tr @ [(httpClient c, built_request c ''GET'' (''/nodes/'' @ name) None)]
     \<or> (\<exists>rq. Method rq = ''PUT''
            \<and> \<not> isl (Do env tr (httpClient c) (built_request c ''GET'' (''/nodes/'' @ name) None))
            \<and> snd (nodeClient_AddNodeTag' env c name tag tr)
                 = tr @ [(httpClient c, built_request c ''GET'' (''/nodes/'' @ name) None),
                         (httpClient c, rq)])"
  unfolding nodeClient_AddNodeTag'_def
  by (rule get_then_forms
        [where f = "\<lambda>x. case x of (Inl e, tr1) \<Rightarrow> (Some e, tr1)
                     | (Inr node, tr1) \<Rightarrow>
                         if range_Tags (Node.Tags node) tag then (None, tr1)
                         else let tags = Node.Tags node @ [tag];
                                  update = NodeUpdate_zero\<lparr>NodeUpdate.Tags := tags\<rparr>
                              in err_of (nodeClient_Update' env c name update tr1)"])
     (simp_all add: Let_def snd_err_of Update_trace doRequest_sends_method)

lemma RemoveNodeTag'_forms:
  "snd (nodeClient_RemoveNodeTag' env c name tag tr) = tr
     \<or> snd (nodeClient_RemoveNodeTag' env c name tag tr)
          = tr @ [(httpClient c, built_request c ''GET'' (''/nodes/'' @ name) None)]
     \<or> (\<exists>rq. Method rq = ''PUT''
            \<and> \<not> isl (Do env tr (httpClient c) (built_request c ''GET'' (''/nodes/'' @ name) None))
            \<and> snd (nodeClient_RemoveNodeTag' env c name tag tr)
                 = tr @ [(httpClient c, built_request c ''GET'' (''/nodes/'' @ name) None),
                         (httpClient c, rq)])"
  unfolding nodeClient_RemoveNodeTag'_def
  by (rule get_then_forms
        [where f = "\<lambda>x. case x of (Inl e, tr1) \<Rightarrow> (Some e, tr1)
                     | (Inr node, tr1) \<Rightarrow>
                         let tags = filter_Tags (Node.Tags node) tag [];
                             update = NodeUpdate_zero\<lparr>NodeUpdate.Tags := tags\<rparr>
                         in err_of (nodeClient_Update' env c name update tr1)"])
     (simp_all add: Let_def snd_err_of Update_trace doRequest_sends_method)

lemma snd_request_tail:
  "snd (case r of (Inl e, tr2) \<Rightarrow> (Some (w e), tr2)
        | (Inr resp, tr2) \<Rightarrow> if P resp then (Some (g resp), tr2) else (None, tr2)) = snd r"
  by (simp split: prod.splits sum.splits)

lemma AddDisk'_forms:
  "snd (nodeClient_AddDisk' env c name disk tr) = tr
     \<or> snd (nodeClient_AddDisk' env c name disk tr)
          = tr @ [(httpClient c, built_request c ''GET'' (''/nodes/'' @ name) None)]
     \<or> (\<exists>rq. Method rq = ''POST''
            \<and> \<not> isl (Do env tr (httpClient c) (built_request c ''GET'' (''/nodes/'' @ name) None))
            \<and> snd (nodeClient_AddDisk' env c name disk tr)
                 = tr @ [(httpClient c, built_request c ''GET'' (''/nodes/'' @ name) None),
                         (httpClient c, rq)])"
  unfolding nodeClient_AddDisk'_def
  by (rule get_then_forms
        [where f = "\<lambda>x. case x of (Inl e, tr1) \<Rightarrow> (Some (Wrapf ''failed to get node'' e), tr1)
                     | (Inr node, tr1) \<Rightarrow> _ node tr1"])
     (simp_all add: Let_def snd_request_tail doRequest_sends_method split: option.splits)

lemma ViaNode'_forms:
  "snd (nodeClient_updateDiskSchedulingViaNode' env c name diskID allow tr) = tr
     \<or> snd (nodeClient_updateDiskSchedulingViaNode' env c name diskID allow tr)
          = tr @ [(httpClient c, built_request c ''GET'' (''/nodes/'' @ name) None)]
     \<or> (\<exists>rq. Method rq = ''PUT''
            \<and> \<not> isl (Do env tr (httpClient c) (built_request c ''GET'' (''/nodes/'' @ name) None))
            \<and> snd (nodeClient_updateDiskSchedulingViaNode' env c name diskID allow tr)
                 = tr @ [(httpClient c, built_request c ''GET'' (''/nodes/'' @ name) None),
                         (httpClient c, rq)])"
  unfolding nodeClient_updateDiskSchedulingViaNode'_def
  by (rule get_then_forms
        [where f = "\<lambda>x. case x of (Inl e, tr1) \<Rightarrow> (Some (Wrapf ''failed to get node'' e), tr1)
                     | (Inr node, tr1) \<Rightarrow> _ node tr1"])
     (simp_all add: Let_def snd_request_tail doRequest_sends_method split: option.splits)

lemma updateDiskScheduling'_issues:
  "issues env c 3 tr (snd (nodeClient_updateDiskScheduling' env c name diskID allow tr))"
proof -
  let ?p = "built_request c ''PATCH'' (''/nodes/'' @ name @ ''/disks/'' @ diskID)
              (Some (PMap [(''allowScheduling'', JBool allow)]))"
  let ?g = "built_request c ''GET'' (''/nodes/'' @ name) None"
  obtain r tr1 where d: "doRequest env c ''PATCH'' (''/nodes/'' @ name @ ''/disks/'' @ diskID)
              (Some (PMap [(''allowScheduling'', JBool allow)])) tr = (r, tr1)"
    by (cases "doRequest env c ''PATCH'' (''/nodes/'' @ name @ ''/disks/'' @ diskID)
              (Some (PMap [(''allowScheduling'', JBool allow)])) tr")
  have three: "3 = Suc (Suc (Suc 0))" by simp
  from d show ?thesis
  proof (cases rule: doRequest_cases)
    case unsent
    then obtain e where "r = Inl e" by (cases r) auto
    with unsent d show ?thesis
      by (simp add: nodeClient_updateDiskScheduling'_def issues_0)
  next
    case (failed e)
    with d show ?thesis
      unfolding three by (simp add: nodeClient_updateDiskScheduling'_def issues_1)
  next
    case (answered resp)
    show ?thesis
    proof (cases "StatusCode resp = 405 \<or> StatusCode resp = 404")
      case False
      with answered d show ?thesis
        unfolding three by (simp add: nodeClient_updateDiskScheduling'_def issues_1)
    next
      case True
      let ?t = "snd (nodeClient_updateDiskSchedulingViaNode' env c name diskID allow tr1)"
      from True answered d
      have eq: "snd (nodeClient_updateDiskScheduling' env c name diskID allow tr) = ?t"
        by (simp add: nodeClient_updateDiskScheduling'_def)
      have np: "\<not> isl (Do env tr (httpClient c) ?p)" using answered by simp
      from ViaNode'_forms [of env c name diskID allow tr1]
      consider "?t = tr1" | "?t = tr1 @ [(httpClient c, ?g)]"
        | rq where "Method rq = ''PUT''" "\<not> isl (Do env tr1 (httpClient c) ?g)"
            "?t = tr1 @ [(httpClient c, ?g), (httpClient c, rq)]"
        by blast
      then show ?thesis
      proof cases
        case 1
        with answered eq show ?thesis unfolding three by (simp add: issues_1)
      next
        case 2
        have "?p \<noteq> ?g" by (simp add: built_request_def)
        with 2 answered eq np show ?thesis unfolding three by (simp add: issues_2)
      next
        case 3
        have "?p \<noteq> ?g" by (simp add: built_request_def)
        moreover from 3(1) have "?p \<noteq> rq" "?g \<noteq> rq" by auto
        ultimately show ?thesis
          using 3 answered eq np unfolding three by (simp add: issues_3)
      qed
    qed
  qed
qed


lemma Get_Inl_iff:
  "isl (fst (nodeClient_Get env c name tr)) \<longleftrightarrow> isl (fst (nodeClient_Get' env c name tr))"
  by (cases "doRequest env c ''GET'' (''/nodes/'' @ name) None tr")
     (auto simp: nodeClient_Get_def nodeClient_Get'_def split: sum.splits)

lemma AddNodeTag_same_trace:
  "snd (nodeClient_AddNodeTag env c name tag tr) = snd (nodeClient_AddNodeTag' env c name tag tr)"
proof (cases "nodeClient_Get' env c name tr")
  case (Pair r tr1)
  show ?thesis
  proof (cases r)
    case (Inr node)
    with Pair have "nodeClient_Get env c name tr = (Inr node, tr1)"
      by (simp add: Get_success_iff)
    with Pair Inr show ?thesis
      by (simp add: nodeClient_AddNodeTag_def nodeClient_AddNodeTag'_def Let_def snd_err_of
            Update_trace)
  next
    case (Inl e)
    with Pair Get_Inl_iff [of env c name tr] one_request_ops(1,2) [of env c name tr]
    obtain e' where "nodeClient_Get env c name tr = (Inl e', tr1)"
      by (cases "nodeClient_Get env c name tr"; cases "fst (nodeClient_Get env c name tr)") auto
    with Pair Inl show ?thesis
      by (simp add: nodeClient_AddNodeTag_def nodeClient_AddNodeTag'_def)
  qed
qed

lemma Get_cases:
  assumes "nodeClient_Get env c name tr = (r, tr1)"
  obtains (unsent) "tr1 = tr" "isl r"
  | (failed) "tr1 = tr @ [(httpClient c, built_request c ''GET'' (''/nodes/'' @ name) None)]" "isl r"
  | (answered) "tr1 = tr @ [(httpClient c, built_request c ''GET'' (''/nodes/'' @ name) None)]"
      "\<not> isl (Do env tr (httpClient c) (built_request c ''GET'' (''/nodes/'' @ name) None))"
proof -
  obtain r0 tr0 where d: "doRequest env c ''GET'' (''/nodes/'' @ name) None tr = (r0, tr0)"
    by (cases "doRequest env c ''GET'' (''/nodes/'' @ name) None tr")
  from assms d have t: "tr1 = tr0" and i: "isl r0 \<Longrightarrow> isl r"
    by (auto simp: nodeClient_Get_def split: sum.splits if_splits)
  from d show ?thesis
  proof (cases rule: doRequest_cases)
    case unsent
    with t i show ?thesis by (intro that(1)) auto
  next
    case (failed e)
    with t i show ?thesis by (intro that(2)) auto
  next
    case (answered resp)
    with t show ?thesis by (intro that(3)) auto
  qed
qed

lemma get_then_forms_old:
  assumes "\<And>node tr1. nodeClient_Get env c name tr = (Inr node, tr1) \<Longrightarrow>
             snd (f (Inr node, tr1)) = tr1
             \<or> (\<exists>rq. Method rq = m \<and> snd (f (Inr node, tr1)) = tr1 @ [(httpClient c, rq)])"
    and "\<And>e tr1. snd (f (Inl e, tr1)) = tr1"
  shows "snd (f (nodeClient_Get env c name tr)) = tr
     \<or> snd (f (nodeClient_Get env c name tr))
          = tr @ [(httpClient c, built_request c ''GET'' (''/nodes/'' @ name) None)]
     \<or> (\<exists>rq. Method rq = m
            \<and> \<not> isl (Do env tr (httpClient c) (built_request c ''GET'' (''/nodes/'' @ name) None))
            \<and> snd (f (nodeClient_Get env c name tr))
                 = tr @ [(httpClient c, built_request c ''GET'' (''/nodes/'' @ name) None),
                         (httpClient c, rq)])"
proof -
  obtain r tr1 where g: "nodeClient_Get env c name tr = (r, tr1)"
    by (cases "nodeClient_Get env c name tr")
  from g show ?thesis
  proof (cases rule: Get_cases)
    case unsent
    then obtain e where "r = Inl e" by (cases r) auto
    with unsent g assms(2) show ?thesis by simp
  next
    case failed
    then obtain e where "r = Inl e" by (cases r) auto
    with failed g assms(2) show ?thesis by simp
  next
    case answered
    show ?thesis
    proof (cases r)
      case (Inl e)
      with answered g assms(2) show ?thesis by simp
    next
      case (Inr node)
      with g assms(1) [of node tr1] answered show ?thesis by auto
    qed
  qed
qed

lemma AddDisk_forms:
  "snd (nodeClient_AddDisk env c name disk tr) = tr
     \<or> snd (nodeClient_AddDisk env c name disk tr)
          = tr @ [(httpClient c, built_request c ''GET'' (''/nodes/'' @ name) None)]
     \<or> (\<exists>rq. Method rq = ''PUT''
            \<and> \<not> isl (Do env tr (httpClient c) (built_request c ''GET'' (''/nodes/'' @ name) None))
            \<and> snd (nodeClient_AddDisk env c name disk tr)
                 = tr @ [(httpClient c, built_request c ''GET'' (''/nodes/'' @ name) None),
                         (httpClient c, rq)])"
  unfolding nodeClient_AddDisk_def
  by (rule get_then_forms_old
        [where f = "\<lambda>x. case x of (Inl e, tr1) \<Rightarrow> (Some e, tr1)
                     | (Inr node, tr1) \<Rightarrow> _ node tr1"])
     (simp_all add: Let_def snd_err_of Update_trace doRequest_sends_method)

lemma RemoveDisk_forms:
  "snd (nodeClient_RemoveDisk env c name diskID tr) = tr
     \<or> snd (nodeClient_RemoveDisk env c name diskID tr)
          = tr @ [(httpClient c, built_request c ''GET'' (''/nodes/'' @ name) None)]
     \<or> (\<exists>rq. Method rq = ''PUT''
            \<and> \<not> isl (Do env tr (httpClient c) (built_request c ''GET'' (''/nodes/'' @ name) None))
            \<and> snd (nodeClient_RemoveDisk env c name diskID tr)
                 = tr @ [(httpClient c, built_request c ''GET'' (''/nodes/'' @ name) None),
                         (httpClient c, rq)])"
  unfolding nodeClient_RemoveDisk_def
  by (rule get_then_forms_old
        [where f = "\<lambda>x. case x of (Inl e, tr1) \<Rightarrow> (Some e, tr1)
                     | (Inr node, tr1) \<Rightarrow> _ node tr1"])
     (simp_all add: Let_def snd_err_of Update_trace doRequest_sends_method split: option.splits)

lemma UpdateDiskTags_forms:
  "snd (nodeClient_UpdateDiskTags env c name diskID tags tr) = tr
     \<or> snd (nodeClient_UpdateDiskTags env c name diskID tags tr)
          = tr @ [(httpClient c, built_request c ''GET'' (''/nodes/'' @ name) None)]
     \<or> (\<exists>rq. Method rq = ''PUT''
            \<and> \<not> isl (Do env tr (httpClient c) (built_request c ''GET'' (''/nodes/'' @ name) None))
            \<and> snd (nodeClient_UpdateDiskTags env c name diskID tags tr)
                 = tr @ [(httpClient c, built_request c ''GET'' (''/nodes/'' @ name) None),
                         (httpClient c, rq)])"
  unfolding nodeClient_UpdateDiskTags_def
  by (rule get_then_forms_old
        [where f = "\<lambda>x. case x of (Inl e, tr1) \<Rightarrow> (Some e, tr1)
                     | (Inr node, tr1) \<Rightarrow> _ node tr1"])
     (simp_all add: Let_def snd_err_of Update_trace doRequest_sends_method split: option.splits)

lemma RemoveNodeTag_forms:
  "snd (nodeClient_RemoveNodeTag env c name tag tr) = tr
     \<or> snd (nodeClient_RemoveNodeTag env c name tag tr)
          = tr @ [(httpClient c, built_request c ''GET'' (''/nodes/'' @ name) None)]
     \<or> (\<exists>rq. Method rq = ''PUT''
            \<and> \<not> isl (Do env tr (httpClient c) (built_request c ''GET'' (''/nodes/'' @ name) None))
            \<and> snd (nodeClient_RemoveNodeTag env c name tag tr)
                 = tr @ [(httpClient c, built_request c ''GET'' (''/nodes/'' @ name) None),
                         (httpClient c, rq)])"
  unfolding nodeClient_RemoveNodeTag_def
  by (rule get_then_forms_old
        [where f = "\<lambda>x. case x of (Inl e, tr1) \<Rightarrow> (Some e, tr1)
                     | (Inr node, tr1) \<Rightarrow> _ node tr1"])
     (simp_all add: Let_def snd_err_of Update_trace doRequest_sends_method)

lemma scheduling_ops_old:
  "snd (nodeClient_EnableScheduling env c name tr)
     = snd (doRequest env c ''PUT'' (''/nodes/'' @ name)
              (Some (PNodeUpdate (NodeUpdate_zero\<lparr>NodeUpdate.AllowScheduling := Some True\<rparr>))) tr)"
  "snd (nodeClient_DisableScheduling env c name tr)
     = snd (doRequest env c ''PUT'' (''/nodes/'' @ name)
              (Some (PNodeUpdate (NodeUpdate_zero\<lparr>NodeUpdate.AllowScheduling := Some False\<rparr>))) tr)"
  "snd (nodeClient_EvictNode env c name tr)
     = snd (doRequest env c ''PUT'' (''/nodes/'' @ name)
              (Some (PNodeUpdate (NodeUpdate_zero\<lparr>NodeUpdate.EvictionRequested := Some True\<rparr>))) tr)"
  by (simp_all add: nodeClient_EnableScheduling_def nodeClient_DisableScheduling_def
        nodeClient_EvictNode_def snd_err_of Update_trace)

lemma scheduling_ops:
  "snd (nodeClient_EnableScheduling' env c name tr)
     = snd (doRequest env c ''PUT'' (''/nodes/'' @ name)
              (Some (PNodeUpdate (NodeUpdate_zero\<lparr>NodeUpdate.AllowScheduling := Some True\<rparr>))) tr)"
  "snd (nodeClient_DisableScheduling' env c name tr)
     = snd (doRequest env c ''PUT'' (''/nodes/'' @ name)
              (Some (PNodeUpdate (NodeUpdate_zero\<lparr>NodeUpdate.AllowScheduling := Some False\<rparr>))) tr)"
  "snd (nodeClient_EvictNode' env c name tr)
     = snd (doRequest env c ''PUT'' (''/nodes/'' @ name)
              (Some (PNodeUpdate (NodeUpdate_zero\<lparr>NodeUpdate.EvictionRequested := Some True\<rparr>))) tr)"
  by (simp_all add: nodeClient_EnableScheduling'_def nodeClient_DisableScheduling'_def
        nodeClient_EvictNode'_def snd_err_of Update_trace)

lemma get_not_method [simp]:
  "Method (built_request c ''GET'' p b) \<noteq> ''PUT''" "Method (built_request c ''GET'' p b) \<noteq> ''POST''"
  by simp_all

text \<open>
  C2, as amended. The \<^verbatim>\<open>http.Client\<close> of a client made by \<open>NewClient\<close> has the configured
  timeout. One call of \<open>doRequest\<close> calls \<^verbatim>\<open>Do\<close> at most once, and on the wire a call of
  \<^verbatim>\<open>Do\<close> is the request it was given followed by the requests that follow the server's
  redirects; without redirects the trace is the wire. Of the node client of
  \<^verbatim>\<open>pkg/client/node.go\<close>: \<open>List\<close>, \<open>Get\<close>, \<open>Update\<close>, \<open>EnableScheduling\<close>,
  \<open>DisableScheduling\<close> and \<open>EvictNode\<close> call \<^verbatim>\<open>Do\<close> at most once; \<open>AddDisk\<close>, \<open>RemoveDisk\<close>,
  \<open>UpdateDiskTags\<close>, \<open>AddNodeTag\<close> and \<open>RemoveNodeTag\<close> at most twice. Of the complete node
  client (primed): \<open>List\<close>, \<open>Get\<close>, \<open>Update\<close>, \<open>EnableScheduling\<close>, \<open>DisableScheduling\<close>,
  \<open>EvictNode\<close>, \<open>RemoveDisk\<close> and \<open>UpdateDiskTags\<close> at most once; \<open>AddNodeTag\<close>,
  \<open>RemoveNodeTag\<close>, \<open>AddDisk\<close> and \<open>updateDiskSchedulingViaNode\<close> at most twice;
  \<open>updateDiskScheduling\<close>, \<open>EnableDiskScheduling\<close> and \<open>DisableDiskScheduling\<close> at most
  three times. The operations of the settings client and of the engine-image client
  call it at most once. Every call goes to the \<^verbatim>\<open>http.Client\<close> of the client, no
  operation hands the same request to \<^verbatim>\<open>Do\<close> twice, and a call that the transport
  failed is the last one of the operation.
\<close>

theorem requests_per_operation:
  "(\<forall>c'. NewClient cfg = Inr c' \<longrightarrow>
       http_Client.Timeout (httpClient c') = ClientConfig.Timeout cfg)
   \<and> issues env c 1 tr (snd (doRequest env c meth pth body tr))
   \<and> wire env (tr @ [(httpClient c, rq)])
        = wire env tr @ (httpClient c, rq) # map (Pair (httpClient c)) (Redirects env tr (httpClient c) rq)
   \<and> ((\<forall>t hc r. Redirects env t hc r = []) \<longrightarrow> wire env tr = tr)
   \<and> issues env c 1 tr (snd (nodeClient_List env c tr))
   \<and> issues env c 1 tr (snd (nodeClient_Get env c name tr))
   \<and> issues env c 1 tr (snd (nodeClient_Update env c name update tr))
   \<and> issues env c 1 tr (snd (nodeClient_EnableScheduling env c name tr))
   \<and> issues env c 1 tr (snd (nodeClient_DisableScheduling env c name tr))
   \<and> issues env c 1 tr (snd (nodeClient_EvictNode env c name tr))
   \<and> issues env c 2 tr (snd (nodeClient_AddDisk env c name disk tr))
   \<and> issues env c 2 tr (snd (nodeClient_RemoveDisk env c name diskID tr))
   \<and> issues env c 2 tr (snd (nodeClient_UpdateDiskTags env c name diskID tags tr))
   \<and> issues env c 2 tr (snd (nodeClient_AddNodeTag env c name tag tr))
   \<and> issues env c 2 tr (snd (nodeClient_RemoveNodeTag env c name tag tr))
   \<and> issues env c 1 tr (snd (nodeClient_List' env c tr))
   \<and> issues env c 1 tr (snd (nodeClient_Get' env c name tr))
   \<and> issues env c 1 tr (snd (nodeClient_Update' env c name update tr))
   \<and> issues env c 1 tr (snd (nodeClient_EnableScheduling' env c name tr))
   \<and> issues env c 1 tr (snd (nodeClient_DisableScheduling' env c name tr))
   \<and> issues env c 1 tr (snd (nodeClient_EvictNode' env c name tr))
   \<and> issues env c 1 tr (snd (nodeClient_RemoveDisk' env c name diskID tr))
   \<and> issues env c 1 tr (snd (nodeClient_UpdateDiskTags' env c name diskID tags tr))
   \<and> issues env c 2 tr (snd (nodeClient_AddNodeTag' env c name tag tr))
   \<and> issues env c 2 tr (snd (nodeClient_RemoveNodeTag' env c name tag tr))
   \<and> issues env c 2 tr (snd (nodeClient_AddDisk' env c name disk tr))
   \<and> issues env c 2 tr (snd (nodeClient_updateDiskSchedulingViaNode' env c name diskID allow tr))
   \<and> issues env c 3 tr (snd (nodeClient_updateDiskScheduling' env c name diskID allow tr))
   \<and> issues env c 3 tr (snd (nodeClient_EnableDiskScheduling' env c name diskID tr))
   \<and> issues env c 3 tr (snd (nodeClient_DisableDiskScheduling' env c name diskID tr))
   \<and> issues env c 1 tr (snd (settingsClient_List env c tr))
   \<and> issues env c 1 tr (snd (settingsClient_Get env c name tr))
   \<and> issues env c 1 tr (snd (settingsClient_Update env c name v tr))
   \<and> issues env c 1 tr (snd (engineImageClient_List env c tr))
   \<and> issues env c 1 tr (snd (engineImageClient_Get env c name tr))
   \<and> issues env c 1 tr (snd (engineImageClient_Delete env c name tr))"
proof -
  have one: "issues env c 1 tr (snd (doRequest env c m p b tr))" for m p b
    using issues_doRequest [of env c 0 tr m p b] by simp
  have two: "issues env c 2 tr t"
    if "t = tr \<or> t = tr @ [(httpClient c, built_request c ''GET'' (''/nodes/'' @ name) None)]
     \<or> (\<exists>rq. Method rq = m
            \<and> \<not> isl (Do env tr (httpClient c) (built_request c ''GET'' (''/nodes/'' @ name) None))
            \<and> t = tr @ [(httpClient c, built_request c ''GET'' (''/nodes/'' @ name) None),
                         (httpClient c, rq)])" and "m \<noteq> ''GET''" for t m
    using issues_forms2 [OF that(1), of 0] that(2) by (simp add: numeral_2_eq_2)
  have t: "\<forall>c'. NewClient cfg = Inr c' \<longrightarrow>
       http_Client.Timeout (httpClient c') = ClientConfig.Timeout cfg"
    by (auto simp: NewClient_def Let_def split: if_splits)
  have w: "(\<forall>t hc r. Redirects env t hc r = []) \<longrightarrow> wire env tr = tr"
    by (simp add: wire_def wire_no_redirects)
  show ?thesis
    unfolding nodeClient_List_sends nodeClient_List'_sends settingsClient_List_sends
      one_request_ops scheduling_ops scheduling_ops_old Update_trace AddNodeTag_same_trace
      nodeClient_EnableDiskScheduling'_def nodeClient_DisableDiskScheduling'_def
    by (intro conjI t w wire_snoc one updateDiskScheduling'_issues
          two [OF AddNodeTag'_forms] two [OF RemoveNodeTag'_forms] two [OF AddDisk'_forms]
          two [OF ViaNode'_forms] two [OF AddDisk_forms] two [OF RemoveDisk_forms]
          two [OF UpdateDiskTags_forms] two [OF RemoveNodeTag_forms]) simp_all
qed

text \<open>
  Adding the tag \<open>fast\<close> calls \<^verbatim>\<open>Do\<close> twice against the server that answers and once
  against the server that is down; neither server redirects, so these are the requests
  on the wire.
\<close>

theorem requests_per_operation_witness:
  "NewClient cfg_http = Inr client_http
   \<and> http_Client.Timeout (httpClient client_http) = 30000000000
   \<and> snd (nodeClient_AddNodeTag' env_ok client_http ''n1'' ''fast'' [])
        = [(httpClient client_http, built_request client_http ''GET'' ''/nodes/n1'' None),
           (httpClient client_http, built_request client_http ''PUT'' ''/nodes/n1''
             (Some (PNodeUpdate \<lparr>NodeUpdate.AllowScheduling = None,
                                   NodeUpdate.EvictionRequested = None,
                                   NodeUpdate.Tags = [''ssd'', ''fast''],
                                   NodeUpdate.Disks = []\<rparr>)))]
   \<and> issues env_ok client_http 2 []
        (snd (nodeClient_AddNodeTag' env_ok client_http ''n1'' ''fast'' []))
   \<and> wire env_ok (snd (nodeClient_AddNodeTag' env_ok client_http ''n1'' ''fast'' []))
        = snd (nodeClient_AddNodeTag' env_ok client_http ''n1'' ''fast'' [])
   \<and> snd (nodeClient_AddNodeTag' env_down client_http ''n1'' ''fast'' [])
        = [(httpClient client_http, built_request client_http ''GET'' ''/nodes/n1'' None)]
   \<and> issues env_down client_http 2 []
        (snd (nodeClient_AddNodeTag' env_down client_http ''n1'' ''fast'' []))"
proof -
  have a: "NewClient cfg_http = Inr client_http"
    by (simp add: NewClient_def cfg_http_def client_http_def TrimSuffix_def Let_def)
  have b: "ClientConfig.Timeout cfg_http = 30000000000" by (simp add: cfg_http_def)
  have ok: "snd (nodeClient_AddNodeTag' env_ok client_http ''n1'' ''fast'' [])
        = [(httpClient client_http, built_request client_http ''GET'' ''/nodes/n1'' None),
           (httpClient client_http, built_request client_http ''PUT'' ''/nodes/n1''
             (Some (PNodeUpdate \<lparr>NodeUpdate.AllowScheduling = None,
                                   NodeUpdate.EvictionRequested = None,
                                   NodeUpdate.Tags = [''ssd'', ''fast''],
                                   NodeUpdate.Disks = []\<rparr>)))]"
    by (simp add: nodeClient_AddNodeTag'_def nodeClient_Get'_def nodeClient_Update'_def
        doRequest_def env_ok_def node_a_def Let_def err_of_def NodeUpdate_zero_def)
  have down: "snd (nodeClient_AddNodeTag' env_down client_http ''n1'' ''fast'' [])
        = [(httpClient client_http, built_request client_http ''GET'' ''/nodes/n1'' None)]"
    by (simp add: nodeClient_AddNodeTag'_def nodeClient_Get'_def
        doRequest_def env_down_def env_ok_def Let_def)
  have nr: "\<forall>t hc r. Redirects env_ok t hc r = []" by (simp add: env_ok_def)
  note r1 = requests_per_operation [where cfg = cfg_http and env = env_ok and c = client_http
      and name = "''n1''" and tag = "''fast''"]
  from r1 [where tr = "[]"]
  have i1: "issues env_ok client_http 2 []
        (snd (nodeClient_AddNodeTag' env_ok client_http ''n1'' ''fast'' []))"
    and t: "http_Client.Timeout (httpClient client_http) = ClientConfig.Timeout cfg_http"
    using a by blast+
  from r1 [where tr = "snd (nodeClient_AddNodeTag' env_ok client_http ''n1'' ''fast'' [])"] nr
  have w: "wire env_ok (snd (nodeClient_AddNodeTag' env_ok client_http ''n1'' ''fast'' []))
        = snd (nodeClient_AddNodeTag' env_ok client_http ''n1'' ''fast'' [])"
    by blast
  from requests_per_operation [where cfg = cfg_http and env = env_down and c = client_http
      and tr = "[]" and name = "''n1''" and tag = "''fast''"]
  have i2: "issues env_down client_http 2 []
        (snd (nodeClient_AddNodeTag' env_down client_http ''n1'' ''fast'' []))"
    by blast
  from a b t ok down i1 i2 w show ?thesis by simp
qed

section \<open>Loading a configuration that is not there\<close>

text \<open>
  C10. Let \<open>p\<close> be the path \<open>Load\<close> reads: the given path, or, when that is empty and
  the home directory is known, \<open>.lhcli/config.yaml\<close> below it. If reading \<open>p\<close> fails
  because the file does not exist, \<open>Load\<close> returns no error but the smart default
  configuration: the single context \<open>default\<close> with an empty endpoint, namespace
  \<open>longhorn-system\<close> and auth type \<open>kubeconfig\<close>, whose path is \<^verbatim>\<open>KUBECONFIG\<close> when that is
  set, otherwise \<open>.kube/config\<close> below the home directory (and empty when the home
  directory is unknown too); current context \<open>default\<close>; output format \<open>table\<close>,
  confirmation on, timeout \<open>30s\<close>.
\<close>

theorem Load_missing_file:
  assumes "(path \<noteq> [] \<and> p = path)
           \<or> (path = [] \<and> (\<exists>home. UserHomeDir os = Inr home \<and> p = Join os [home, ''.lhcli'', ''config.yaml'']))"
    and "ReadFile os p = Inl e" and "IsNotExist os e"
  shows "Load os path =
     Inr \<lparr>Contexts =
            [\<lparr>Context.Name = ''default'', Context.Endpoint = [],
              Context.Namespace = ''longhorn-system'',
              Auth = \<lparr>Auth.Type = ''kubeconfig'', Auth.Token = [],
                      Auth.Path =
                        (if Getenv os ''KUBECONFIG'' \<noteq> [] then Getenv os ''KUBECONFIG''
                         else case UserHomeDir os of
                                Inr home \<Rightarrow> Join os [home, ''.kube'', ''config'']
                              | Inl _ \<Rightarrow> []),
                      AuthContext = []\<rparr>\<rparr>],
          CurrentContext = ''default'',
          Defaults = \<lparr>OutputFormat = ''table'', Confirmation = True,
                       Defaults.Timeout = ''30s''\<rparr>\<rparr>"
proof -
  have sd: "SmartDefaultConfig os =
     \<lparr>Contexts =
            [\<lparr>Context.Name = ''default'', Context.Endpoint = [],
              Context.Namespace = ''longhorn-system'',
              Auth = \<lparr>Auth.Type = ''kubeconfig'', Auth.Token = [],
                      Auth.Path =
                        (if Getenv os ''KUBECONFIG'' \<noteq> [] then Getenv os ''KUBECONFIG''
                         else case UserHomeDir os of
                                Inr home \<Rightarrow> Join os [home, ''.kube'', ''config'']
                              | Inl _ \<Rightarrow> []),
                      AuthContext = []\<rparr>\<rparr>],
          CurrentContext = ''default'',
          Defaults = \<lparr>OutputFormat = ''table'', Confirmation = True,
                       Defaults.Timeout = ''30s''\<rparr>\<rparr>"
    by (cases "UserHomeDir os") (simp_all add: SmartDefaultConfig_def Let_def)
  from assms(1) show ?thesis
  proof
    assume "path \<noteq> [] \<and> p = path"
    with assms(2,3) sd show ?thesis by (simp add: Load_def)
  next
    assume "path = [] \<and> (\<exists>home. UserHomeDir os = Inr home \<and> p = Join os [home, ''.lhcli'', ''config.yaml''])"
    then obtain home where "path = []" "UserHomeDir os = Inr home"
      "p = Join os [home, ''.lhcli'', ''config.yaml'']" by blast
    with assms(2,3) sd show ?thesis by (simp add: Load_def)
  qed
qed

text \<open>
  On a machine with no configuration file, no \<^verbatim>\<open>KUBECONFIG\<close> and the home directory
  \<open>/home/u\<close>, loading the default path and loading \<open>/etc/lhcli.yaml\<close> both give the smart
  default with the kubeconfig path \<open>/home/u/.kube/config\<close>.
\<close>

theorem Load_missing_file_witness:
  "ReadFile os_fresh ''/home/u/.lhcli/config.yaml'' = Inl (External ''no such file or directory'')
   \<and> IsNotExist os_fresh (External ''no such file or directory'')
   \<and> Load os_fresh [] =
     Inr \<lparr>Contexts =
            [\<lparr>Context.Name = ''default'', Context.Endpoint = [],
              Context.Namespace = ''longhorn-system'',
              Auth = \<lparr>Auth.Type = ''kubeconfig'', Auth.Token = [],
                      Auth.Path = ''/home/u/.kube/config'', AuthContext = []\<rparr>\<rparr>],
          CurrentContext = ''default'',
          Defaults = \<lparr>OutputFormat = ''table'', Confirmation = True,
                       Defaults.Timeout = ''30s''\<rparr>\<rparr>
   \<and> Load os_fresh ''/etc/lhcli.yaml'' = Load os_fresh []"
proof -
  have r: "ReadFile os_fresh q = Inl (External ''no such file or directory'')" for q
    by (simp add: os_fresh_def)
  have n: "IsNotExist os_fresh (External ''no such file or directory'')"
    by (simp add: os_fresh_def)
  have h: "UserHomeDir os_fresh = Inr ''/home/u''" "Getenv os_fresh ''KUBECONFIG'' = []"
    by (simp_all add: os_fresh_def)
  have j: "Join os_fresh [''/home/u'', ''.lhcli'', ''config.yaml''] = ''/home/u/.lhcli/config.yaml''"
    "Join os_fresh [''/home/u'', ''.kube'', ''config''] = ''/home/u/.kube/config''"
    by (simp_all add: os_fresh_def)
  have a: "([] \<noteq> [] \<and> ''/home/u/.lhcli/config.yaml'' = [])
           \<or> ([] = [] \<and> (\<exists>home. UserHomeDir os_fresh = Inr home
                 \<and> ''/home/u/.lhcli/config.yaml'' = Join os_fresh [home, ''.lhcli'', ''config.yaml'']))"
    using h j by simp
  have b: "(''/etc/lhcli.yaml'' \<noteq> [] \<and> ''/etc/lhcli.yaml'' = ''/etc/lhcli.yaml'')
           \<or> (''/etc/lhcli.yaml'' = [] \<and> (\<exists>home. UserHomeDir os_fresh = Inr home
                 \<and> ''/etc/lhcli.yaml'' = Join os_fresh [home, ''.lhcli'', ''config.yaml'']))"
    by simp
  from Load_missing_file [OF a r n] Load_missing_file [OF b r n] r n h j
  show ?thesis by simp
qed


section \<open>What happens to the error of a failed remote operation\<close>



lemma nodeClient_Get_errors:
  assumes "NewRequest env ''GET'' (baseURL c @ ''/nodes/'' @ name) = None"
  shows "fst (nodeClient_Get' env c name tr) =
     (case Do env tr (httpClient c) (built_request c ''GET'' (''/nodes/'' @ name) None) of
        Inl e \<Rightarrow> Inl (Wrapf ''request failed'' e)
      | Inr resp \<Rightarrow>
          if StatusCode resp = 404 then Inl (Errorf (''node '' @ name @ '' not found''))
          else if StatusCode resp \<noteq> 200
          then Inl (Errorf (''unexpected status code: '' @ show_int (StatusCode resp)))
          else (case DecodeNode env (RespBody resp) of
                  Inl e \<Rightarrow> Inl (Wrapf ''failed to decode response'' e)
                | Inr node \<Rightarrow> Inr node))"
    and "fst (nodeClient_Get env c name tr) =
     (case Do env tr (httpClient c) (built_request c ''GET'' (''/nodes/'' @ name) None) of
        Inl e \<Rightarrow> Inl (Wrapf (''failed to get node '' @ name) (Wrapf ''request failed'' e))
      | Inr resp \<Rightarrow>
          if StatusCode resp = 404 then Inl (Errorf (''node '' @ name @ '' not found''))
          else if StatusCode resp \<noteq> 200
          then Inl (Errorf (''unexpected status code: '' @ show_int (StatusCode resp)))
          else (case DecodeNode env (RespBody resp) of
                  Inl e \<Rightarrow> Inl (Wrapf ''failed to decode response'' e)
                | Inr node \<Rightarrow> Inr node))"
  using assms
  by (simp_all add: nodeClient_Get'_def nodeClient_Get_def doRequest_def Let_def split: sum.splits)





text \<open>
  With a client of CRD mode the diagnostics command does not get that far: once the
  first request has been built, the nil \<^verbatim>\<open>httpClient\<close> makes the process panic.
\<close>

lemma runDiagnostics_crd_panics:
  assumes "crdClient c"
    and "NewRequest env ''GET'' (baseURL c @ ''/settings/current-longhorn-version'') = None"
  shows "main usage crash (runDiagnostics env (Inr c)) w = (2, w\<lparr>stderr := stderr w @ crash\<rparr>)"
  using assms
  by (simp add: main_def Execute_def runDiagnostics_def Client_Settings_Get_def doRequest_nil_def)



section \<open>Sizes in GiB\<close>

lemma round_half_even_of_int [simp]: "round_half_even (of_int k) = k"
  by (simp add: round_half_even_def)

lemma floor_log2_of_int: "1 \<le> M \<Longrightarrow> floor_log2 (of_int M) = bitlen M - 1"
  by (simp add: floor_log2_def)

lemma pow2_pos [simp]: "0 < pow2 e"
  by (simp add: pow2_def)

lemma pow2_nz [simp]: "pow2 e \<noteq> 0"
  by (simp add: pow2_def)

lemma multiple_of_ulp:
  assumes "0 < M" and "bitlen M \<le> 53 \<or> 2 ^ nat (bitlen M - 53) dvd M"
  shows "\<exists>k. of_int M / pow2 (bitlen M - 1 - 52) = (of_int k :: rat)"
proof (cases "bitlen M \<le> 53")
  case True
  then have "pow2 (bitlen M - 1 - 52) = 1 / 2 ^ nat (53 - bitlen M)"
    by (auto simp: pow2_def)
  then have "of_int M / pow2 (bitlen M - 1 - 52) = (of_int (M * 2 ^ nat (53 - bitlen M)) :: rat)"
    by simp
  then show ?thesis by blast
next
  case False
  with assms(2) have d: "2 ^ nat (bitlen M - 53) dvd M" by simp
  from False have "pow2 (bitlen M - 1 - 52) = 2 ^ nat (bitlen M - 53)"
    by (auto simp: pow2_def)
  then have "of_int M / pow2 (bitlen M - 1 - 52) = (of_int M / of_int (2 ^ nat (bitlen M - 53)) :: rat)"
    by simp
  also have "\<dots> = of_int (M div 2 ^ nat (bitlen M - 53))"
    using d by (rule of_int_div [symmetric])
  finally show ?thesis by blast
qed

lemma round_f64_exact:
  assumes "0 \<le> M" and "M < 2 ^ 1024" and "bitlen M \<le> 53 \<or> 2 ^ nat (bitlen M - 53) dvd M"
  shows "round_f64 (of_int M) = Some (of_int M)"
proof (cases "M = 0")
  case True
  then show ?thesis by (simp add: round_f64_def)
next
  case False
  with assms(1) have pos: "0 < M" by simp
  then have one: "1 \<le> M" by simp
  have bl: "1 \<le> bitlen M" using pos bitlen_eq_zero_iff [of M] bitlen_nonneg [of M] by linarith
  obtain k where k: "of_int M / pow2 (bitlen M - 1 - 52) = (of_int k :: rat)"
    using multiple_of_ulp [OF pos assms(3)] by blast
  have e: "max (floor_log2 \<bar>of_int M\<bar>) (- 1022) = bitlen M - 1"
    using one bl floor_log2_of_int [OF one] by (simp add: abs_if)
  have v: "(of_int k :: rat) * pow2 (bitlen M - 1 - 52) = of_int M"
    unfolding k [symmetric] by simp
  have lt: "(of_int M :: rat) < pow2 1024"
  proof -
    have "(of_int M :: rat) < of_int (2 ^ 1024)" using assms(2) by (simp only: of_int_less_iff)
    then show ?thesis by (simp add: pow2_def)
  qed
  have "\<bar>of_int M :: rat\<bar> = of_int M" using pos by simp
  with False pos e k v lt show ?thesis
    by (simp add: round_f64_def Let_def)
qed


lemma of_char_digit_char: "d < 10 \<Longrightarrow> (of_char (digit_char d) :: nat) = 48 + d"
  by (simp add: digit_char_def)

lemma is_digit_digit_char: "d < 10 \<Longrightarrow> is_digit (digit_char d)"
  by (simp add: is_digit_def of_char_digit_char)

lemma digit_val_digit_char: "d < 10 \<Longrightarrow> digit_val (digit_char d) = int d"
proof -
  assume d: "d < 10"
  have "digit_val (digit_char d) = int (of_char (digit_char d)) - 48"
    by (simp only: digit_val_def of_nat_of_char)
  with d show ?thesis by (simp add: of_char_digit_char)
qed

lemma show_nat_digits: "\<forall>c \<in> set (show_nat n). is_digit c"
proof (induction n rule: show_nat.induct)
  case (1 n)
  show ?case
  proof (cases "n < 10")
    case True
    then show ?thesis by (subst show_nat.simps) (simp add: is_digit_digit_char)
  next
    case False
    with 1 show ?thesis by (subst show_nat.simps) (simp add: is_digit_digit_char)
  qed
qed

lemma show_nat_nonempty: "show_nat n \<noteq> []"
  by (subst show_nat.simps) simp

lemma digits_val_snoc: "digits_val (ds @ [c]) = 10 * digits_val ds + digit_val c"
  by (simp add: digits_val_def)

lemma digits_val_show_nat: "digits_val (show_nat n) = int n"
proof (induction n rule: show_nat.induct)
  case (1 n)
  show ?case
  proof (cases "n < 10")
    case True
    then show ?thesis
      by (subst show_nat.simps) (simp add: digits_val_def digit_val_digit_char)
  next
    case False
    with 1 have "digits_val (show_nat (n div 10)) = int (n div 10)" by simp
    with False show ?thesis
      by (subst show_nat.simps) (simp add: digits_val_snoc digit_val_digit_char zdiv_int zmod_int)
  qed
qed

lemma upper_char_digit: "is_digit c \<Longrightarrow> upper_char c = c"
  by (simp add: is_digit_def upper_char_def)

lemma ToUpper_digits: "\<forall>c \<in> set ds. is_digit c \<Longrightarrow> ToUpper (ds @ s) = ds @ ToUpper s"
  by (simp add: ToUpper_def upper_char_digit map_idI)

lemma not_space_digit: "is_digit c \<Longrightarrow> \<not> is_space_trim c"
  by (auto simp: is_digit_def is_space_trim_def)

lemma TrimSpace_digits_I:
  assumes "ds \<noteq> []" and "\<forall>c \<in> set ds. is_digit c"
  shows "TrimSpace (ds @ s @ ''I'') = ds @ s @ ''I''"
proof -
  from assms obtain d rest where ds: "ds = d # rest" "is_digit d" by (cases ds) auto
  then have "dropWhile is_space_trim (ds @ s @ ''I'') = ds @ s @ ''I''"
    by (simp add: not_space_digit)
  moreover have "dropWhile is_space_trim (rev (ds @ s @ ''I'')) = rev (ds @ s @ ''I'')"
    by (simp add: is_space_trim_def)
  ultimately show ?thesis by (simp add: TrimSpace_def)
qed

lemma takeWhile_digits:
  assumes "\<forall>c \<in> set ds. is_digit c" and "s = [] \<or> \<not> is_digit (hd s)"
  shows "takeWhile is_digit (ds @ s) = ds" "dropWhile is_digit (ds @ s) = s"
  using assms by (cases s; simp add: takeWhile_append2 dropWhile_append2)+


lemma FindStringSubmatch_GI:
  assumes "ds \<noteq> []" and "\<forall>c \<in> set ds. is_digit c"
  shows "FindStringSubmatch (ds @ ''GI'') = Some (ds, ''GI'')"
proof -
  have t: "takeWhile is_digit (ds @ ''GI'') = ds" "dropWhile is_digit (ds @ ''GI'') = ''GI''"
    using assms(2) by (simp_all add: takeWhile_digits is_digit_def)
  show ?thesis
    using assms(1)
    by (simp add: FindStringSubmatch_def t Let_def opt_char_def is_space_re_def)
qed

lemma FindStringSubmatch_00GI:
  assumes "ds \<noteq> []" and "\<forall>c \<in> set ds. is_digit c"
  shows "FindStringSubmatch (ds @ ''.00GI'') = Some (ds @ ''.00'', ''GI'')"
proof -
  have t: "takeWhile is_digit (ds @ ''.00GI'') = ds" "dropWhile is_digit (ds @ ''.00GI'') = ''.00GI''"
    using assms(2) by (simp_all add: takeWhile_digits is_digit_def)
  have z: "is_digit CHR ''0''" "\<not> is_digit CHR ''G''" by (simp_all add: is_digit_def)
  show ?thesis
    using assms(1)
    by (simp add: FindStringSubmatch_def t z Let_def opt_char_def is_space_re_def)
qed

lemma ParseFloat_digits:
  assumes "\<forall>c \<in> set ds. is_digit c"
  shows "ParseFloat ds = (case round_f64 (of_int (digits_val ds)) of
                           None \<Rightarrow> Inl (External ''value out of range'') | Some v \<Rightarrow> Inr v)"
proof -
  have t: "takeWhile is_digit ds = ds" "dropWhile is_digit ds = []"
    using assms takeWhile_digits [of ds "[]"] by simp_all
  show ?thesis by (simp add: ParseFloat_def t Let_def digits_val_def)
qed

lemma ParseFloat_digits_00:
  assumes "\<forall>c \<in> set ds. is_digit c"
  shows "ParseFloat (ds @ ''.00'') = (case round_f64 (of_int (digits_val ds)) of
                           None \<Rightarrow> Inl (External ''value out of range'') | Some v \<Rightarrow> Inr v)"
proof -
  have t: "takeWhile is_digit (ds @ ''.00'') = ds" "dropWhile is_digit (ds @ ''.00'') = ''.00''"
    using assms by (simp_all add: takeWhile_digits is_digit_def)
  have z: "digits_val ''00'' = 0" by (simp add: digits_val_def digit_val_def)
  show ?thesis by (simp add: ParseFloat_def t z Let_def)
qed

lemma f64_to_int64_of_int:
  "- (2 ^ 63) \<le> M \<Longrightarrow> M < 2 ^ 63 \<Longrightarrow> f64_to_int64 (Some (of_int M)) = M"
  by (simp add: f64_to_int64_def)

lemma round_f64_nat:
  assumes "n < 2 ^ 53"
  shows "round_f64 (of_nat n) = Some (of_nat n)"
proof -
  have lt: "int n < 2 ^ 53" using assms by (metis of_nat_less_numeral_power_cancel_iff)
  have "round_f64 (of_int (int n)) = Some (of_int (int n))"
  proof (rule round_f64_exact)
    show "0 \<le> int n" by simp
    from lt show "int n < 2 ^ 1024" by simp
    from lt show "bitlen (int n) \<le> 53 \<or> 2 ^ nat (bitlen (int n) - 53) dvd int n"
      by (simp add: bitlen_le_iff_power)
  qed
  then show ?thesis by simp
qed

lemma round_f64_GiB:
  assumes "n < 2 ^ 53"
  shows "round_f64 (of_nat n * 1073741824) = Some (of_nat n * 1073741824)"
proof -
  let ?M = "int n * 2 ^ 30"
  have n: "int n < 2 ^ 53" using assms by (metis of_nat_less_numeral_power_cancel_iff)
  then have "?M < 2 ^ 53 * 2 ^ 30" by (rule mult_strict_right_mono) simp
  then have lt: "?M < 2 ^ 83" by simp
  have "round_f64 (of_int ?M) = Some (of_int ?M)"
  proof (rule round_f64_exact)
    show "0 \<le> ?M" by simp
    from lt show "?M < 2 ^ 1024" by simp
    show "bitlen ?M \<le> 53 \<or> 2 ^ nat (bitlen ?M - 53) dvd ?M"
    proof (cases "bitlen ?M \<le> 53")
      case True
      then show ?thesis by simp
    next
      case False
      have "bitlen ?M \<le> 83" using lt by (simp add: bitlen_le_iff_power)
      with False have "nat (bitlen ?M - 53) \<le> 30" by simp
      then have "(2::int) ^ nat (bitlen ?M - 53) dvd 2 ^ 30"
        by (rule le_imp_power_dvd)
      then show ?thesis by (simp only: dvd_mult) simp
    qed
  qed
  then show ?thesis by simp
qed

lemma f64_to_int64_GiB:
  assumes "n < 2 ^ 33"
  shows "f64_to_int64 (Some (of_nat n * 1073741824)) = int n * 1073741824"
proof -
  have "int n < 2 ^ 33" using assms by (metis of_nat_less_numeral_power_cancel_iff)
  then have "int n * 2 ^ 30 < 2 ^ 33 * 2 ^ 30" by (rule mult_strict_right_mono) simp
  then have lt: "int n * 2 ^ 30 < 2 ^ 63" by simp
  have "f64_to_int64 (Some (of_int (int n * 2 ^ 30))) = int n * 2 ^ 30"
    using lt by (intro f64_to_int64_of_int) simp_all
  then show ?thesis by simp
qed

lemma ParseFloat_show_nat:
  "n < 2 ^ 53 \<Longrightarrow> ParseFloat (show_nat n) = Inr (of_nat n)"
  "n < 2 ^ 53 \<Longrightarrow> ParseFloat (show_nat n @ ''.00'') = Inr (of_nat n)"
  by (simp_all add: ParseFloat_digits ParseFloat_digits_00 show_nat_digits digits_val_show_nat
        round_f64_nat)

lemma not_zero_string: "ds \<noteq> [] \<Longrightarrow> ds @ c # d # s \<noteq> ''0''"
  by (cases ds) auto

lemma ToUpper_Gi: "ToUpper ''Gi'' = ''GI''" "ToUpper ''.00Gi'' = ''.00GI''"
  by (simp_all add: ToUpper_def upper_char_def char_of_eq_iff)

lemma ParseSize_Gi:
  assumes "n < 2 ^ 53"
  shows "ParseSize (show_nat n @ ''Gi'')
           = Inr (f64_to_int64 (round_f64 (of_nat n * 1073741824)))"
proof -
  have up: "ToUpper (show_nat n @ ''Gi'') = show_nat n @ ''GI''"
    by (simp only: ToUpper_digits [OF show_nat_digits] ToUpper_Gi)
  have tr: "TrimSpace (show_nat n @ ''GI'') = show_nat n @ ''GI''"
    using TrimSpace_digits_I [OF show_nat_nonempty show_nat_digits, of n "''G''"] by simp
  have m: "FindStringSubmatch (show_nat n @ ''GI'') = Some (show_nat n, ''GI'')"
    by (rule FindStringSubmatch_GI [OF show_nat_nonempty show_nat_digits])
  have u: "TrimSuffix ''GI'' ''B'' = ''GI''" by (simp add: TrimSuffix_def)
  show ?thesis
    using not_zero_string [OF show_nat_nonempty, of n "CHR ''G''" "CHR ''i''" "[]"]
    by (simp add: ParseSize_def up tr m u Let_def ParseFloat_show_nat [OF assms] f64_mul_def
          show_nat_nonempty)
qed

lemma ParseSize_00Gi:
  assumes "n < 2 ^ 53"
  shows "ParseSize (show_nat n @ ''.00Gi'')
           = Inr (f64_to_int64 (round_f64 (of_nat n * 1073741824)))"
proof -
  have up: "ToUpper (show_nat n @ ''.00Gi'') = show_nat n @ ''.00GI''"
    by (simp only: ToUpper_digits [OF show_nat_digits] ToUpper_Gi)
  have tr: "TrimSpace (show_nat n @ ''.00GI'') = show_nat n @ ''.00GI''"
    using TrimSpace_digits_I [OF show_nat_nonempty show_nat_digits, of n "''.00G''"] by simp
  have m: "FindStringSubmatch (show_nat n @ ''.00GI'') = Some (show_nat n @ ''.00'', ''GI'')"
    by (rule FindStringSubmatch_00GI [OF show_nat_nonempty show_nat_digits])
  have u: "TrimSuffix ''GI'' ''B'' = ''GI''" by (simp add: TrimSuffix_def)
  show ?thesis
    using not_zero_string [OF show_nat_nonempty, of n "CHR ''.''" "CHR ''0''" "''0Gi''"]
    by (simp add: ParseSize_def up tr m u Let_def ParseFloat_show_nat [OF assms] f64_mul_def
          show_nat_nonempty)
qed

lemma sprintf_2f_nat: "sprintf_2f (Some (of_nat n)) = show_nat n @ ''.00''"
proof -
  have "rat_of_nat n * 100 = of_int (int n * 100)" by simp
  then have "round_half_even (rat_of_nat n * 100) = int n * 100"
    by (simp only: round_half_even_of_int)
  then have k: "nat (round_half_even (rat_of_nat n * 100)) = n * 100"
    by (simp add: nat_mult_distrib)
  have z: "digit_char 0 = CHR ''0''" by (simp add: digit_char_def char_of_eq_iff)
  show ?thesis
    by (simp add: sprintf_2f_def Let_def k two_digits_def z)
qed

lemma FormatSizeInGi_GiB:
  assumes "n < 2 ^ 53"
  shows "FormatSizeInGi (int n * 1073741824) = show_nat n @ ''.00Gi''"
proof -
  have a: "rat_of_int (int n * 1073741824) = of_nat n * 1073741824" by simp
  have q: "rat_of_nat n * 1073741824 / (1024 * 1024 * 1024) = of_nat n" by simp
  show ?thesis
    unfolding FormatSizeInGi_def a round_f64_GiB [OF assms] option.case q round_f64_nat [OF assms]
      Let_def sprintf_2f_nat
    by simp
qed

lemma show_nat_10: "show_nat 10 = ''10''"
  by (simp add: show_nat.simps digit_char_def char_of_eq_iff)

lemma show_nat_2_33: "show_nat 8589934592 = ''8589934592''"
  by (simp add: show_nat.simps digit_char_def char_of_eq_iff)

text \<open>
  C1 as stated fails: the size \<open>8589934592Gi\<close> is \<open>2 ^ 33\<close> GiB, that is \<open>2 ^ 63\<close> bytes,
  one more than an \<^verbatim>\<open>int64\<close> holds. \<open>ParseSize\<close> returns no error and not that number of
  bytes (on amd64 it returns the least \<^verbatim>\<open>int64\<close>).
\<close>

theorem GiB_overflow_counterexample:
  "show_nat 8589934592 = ''8589934592''
   \<and> ParseSize ''8589934592Gi'' = Inr (- (2 ^ 63))
   \<and> ParseSize ''8589934592Gi'' \<noteq> Inr (8589934592 * 2 ^ 30)"
proof -
  have a: "(8589934592::nat) < 2 ^ 53" by simp
  have r: "round_f64 (9223372036854775808) = Some 9223372036854775808"
    using round_f64_GiB [OF a] by simp
  have c: "f64_to_int64 (Some 9223372036854775808) = - (2 ^ 63)"
    by (simp add: f64_to_int64_def)
  from ParseSize_Gi [OF a] have "ParseSize ''8589934592Gi'' = Inr (- (2 ^ 63))"
    unfolding show_nat_2_33 by (simp add: r c)
  with show_nat_2_33 show ?thesis by simp
qed

text \<open>
  C1, as amended. For every whole number \<open>n\<close> of GiB below \<open>2 ^ 33\<close> (the numbers whose
  byte count an \<^verbatim>\<open>int64\<close> holds), \<open>ParseSize\<close> applied to the decimal numeral of \<open>n\<close>
  followed by \<open>Gi\<close> returns \<open>n * 2 ^ 30\<close> with no error, \<open>FormatSizeInGi\<close> applied to that
  byte count yields the numeral followed by \<open>.00Gi\<close>, and \<open>ParseSize\<close> maps that string
  back to the same byte count.
\<close>

theorem GiB_round_trip:
  assumes "n < 2 ^ 33"
  shows "ParseSize (show_nat n @ ''Gi'') = Inr (int n * 2 ^ 30)
       \<and> FormatSizeInGi (int n * 2 ^ 30) = show_nat n @ ''.00Gi''
       \<and> ParseSize (FormatSizeInGi (int n * 2 ^ 30)) = Inr (int n * 2 ^ 30)"
proof -
  from assms have n53: "n < 2 ^ 53"
    by (rule less_le_trans) simp
  have p: "(2::int) ^ 30 = 1073741824" by simp
  show ?thesis
    unfolding p ParseSize_Gi [OF n53] FormatSizeInGi_GiB [OF n53] ParseSize_00Gi [OF n53]
      round_f64_GiB [OF n53] f64_to_int64_GiB [OF assms]
    by simp
qed


text \<open>The size \<open>10Gi\<close>: 10737418240 bytes, formatted as \<open>10.00Gi\<close>, parsed back to the same.\<close>

theorem GiB_round_trip_witness:
  "(10::nat) < 2 ^ 33
   \<and> ParseSize ''10Gi'' = Inr 10737418240
   \<and> FormatSizeInGi 10737418240 = ''10.00Gi''
   \<and> ParseSize ''10.00Gi'' = Inr 10737418240"
proof -
  have a: "(10::nat) < 2 ^ 33" by simp
  note t = GiB_round_trip [OF a, unfolded show_nat_10]
  have p: "ParseSize ''10Gi'' = Inr 10737418240"
    using conjunct1 [OF t] by simp
  have f: "FormatSizeInGi 10737418240 = ''10.00Gi''"
    using conjunct1 [OF conjunct2 [OF t]] by simp
  have b: "ParseSize ''10.00Gi'' = Inr 10737418240"
    using f conjunct2 [OF conjunct2 [OF t]] by simp
  from a p f b show ?thesis by (intro conjI)
qed

end
